(* ===== verification/Prelude.thy ===== *)
theory Prelude
  imports Complex_Main "HOL-Library.Multiset" "HOL-Library.Product_Lexorder"
begin

text \<open>
  Shared vocabulary of the development: the input row of the stops-and-transitions
  engine (a row of the preprocessed positioning data frame), the pandas idioms the
  scripts use everywhere (\<open>Series.unique()\<close>, the nested
  \<open>for tracker: for session: df[df[...] == ...]\<close> loops, grouping of consecutive
  rows, \<open>mean\<close> and \<open>std\<close>), and the generic lemmas about them that the component
  theories share. Python floats are modelled as \<open>real\<close> (exact arithmetic, no
  rounding and no NaN); timestamps as \<open>int\<close> seconds (the data is resampled to 1 Hz
  before the engine runs).
\<close>

named_theorems pipeline_simps \<open>characteristic equations of the pipeline stages\<close>

type_synonym tracker_id = int
type_synonym session_id = int
type_synonym seconds = int

section \<open>Input rows\<close>

text \<open>
  One row of the preprocessed data frame (\<open>_preprocessing.preprocessing\<close>):
  columns \<open>tracker\<close>, \<open>session\<close>, \<open>timestamp\<close>, \<open>x\<close>, \<open>y\<close> (millimetres),
  \<open>phase\<close> and \<open>quantile\<close> (-100 when unassigned).
\<close>

record sample =
  tracker :: tracker_id
  session :: session_id
  timestamp :: seconds
  x :: real
  y :: real
  phase :: int
  quantile :: int

text \<open>\<open>math.sqrt((x2-x1)**2+(y2-y1)**2)\<close>, as the scripts write it.\<close>

definition euclid :: "real \<Rightarrow> real \<Rightarrow> real \<Rightarrow> real \<Rightarrow> real" where
  "euclid x1 y1 x2 y2 = sqrt ((x2 - x1)\<^sup>2 + (y2 - y1)\<^sup>2)"

section \<open>pandas idioms\<close>

text \<open>\<open>Series.unique()\<close>: the distinct values in order of first appearance.\<close>

fun unique :: "'a list \<Rightarrow> 'a list" where
  "unique [] = []"
| "unique (a # as) = a # unique (filter (\<lambda>b. b \<noteq> a) as)"

text \<open>
  \<open>for k in keys: part = df[df[key] == k]\<close>: one sub-frame per key, in the order of
  the key list, each keeping the frame's row order.
\<close>

definition partition_by :: "('r \<Rightarrow> 'k) \<Rightarrow> 'k list \<Rightarrow> 'r list \<Rightarrow> 'r list list" where
  "partition_by key ks rows = map (\<lambda>k. filter (\<lambda>r. key r = k) rows) ks"

text \<open>
  The nested loop over trackers and then sessions that every stage of
  \<open>_stopsAndTransitions.py\<close> runs, with both key lists taken by \<open>unique()\<close>
  from the frame itself.
\<close>

definition tracker_session_parts :: "('r \<Rightarrow> tracker_id) \<Rightarrow> ('r \<Rightarrow> session_id) \<Rightarrow> 'r list \<Rightarrow> 'r list list" where
  "tracker_session_parts tr se df =
     concat (map (partition_by se (unique (map se df))) (partition_by tr (unique (map tr df)) df))"

text \<open>Maximal runs of consecutive rows with the same key (a pandas \<open>shift\<close>/\<open>cumsum\<close> grouping).\<close>

fun runs_by :: "('a \<Rightarrow> 'k) \<Rightarrow> 'a list \<Rightarrow> 'a list list" where
  "runs_by f [] = []"
| "runs_by f (a # as) =
     (case runs_by f as of
        [] \<Rightarrow> [[a]]
      | g # gs \<Rightarrow> (if f (hd g) = f a then (a # g) # gs else [a] # g # gs))"

section \<open>Statistics\<close>

text \<open>pandas \<open>mean\<close> and \<open>std\<close> (sample standard deviation, \<open>ddof = 1\<close>) of a group.\<close>

definition mean :: "real list \<Rightarrow> real" where
  "mean vs = sum_list vs / real (length vs)"

text \<open>
  pandas returns NaN for the standard deviation of a one-row group; the stops table
  replaces it by 0 (\<open>merge.fillna(0)\<close>), which is the value here.
\<close>

definition std_sample :: "real list \<Rightarrow> real" where
  "std_sample vs =
     (if length vs \<le> 1 then 0
      else sqrt (sum_list (map (\<lambda>v. (v - mean vs)\<^sup>2) vs) / real (length vs - 1)))"

section \<open>Generic lemmas\<close>

lemma sqrt_le_iff [simp]:
  assumes "0 \<le> a"
  shows "(sqrt a \<le> d) = (0 \<le> d \<and> a \<le> d\<^sup>2)"
proof (cases "0 \<le> d")
  case True
  then have "sqrt (d\<^sup>2) = d" by simp
  then have "(sqrt a \<le> d) = (sqrt a \<le> sqrt (d\<^sup>2))" by simp
  with True show ?thesis by (simp only: real_sqrt_le_iff) simp
next
  case False
  with real_sqrt_ge_zero [OF assms] show ?thesis by linarith
qed

lemma euclid_nonneg [simp]: "0 \<le> euclid x1 y1 x2 y2"
  by (simp add: euclid_def)

lemma euclid_le_iff [pipeline_simps]:
  "(euclid x1 y1 x2 y2 \<le> d) = (0 \<le> d \<and> (x2 - x1)\<^sup>2 + (y2 - y1)\<^sup>2 \<le> d\<^sup>2)"
  by (simp add: euclid_def)

lemma euclid_self [simp]: "euclid a b a b = 0"
  by (simp add: euclid_def)

lemma euclid_sym: "euclid x1 y1 x2 y2 = euclid x2 y2 x1 y1"
  by (simp add: euclid_def power2_commute)

lemma sample_truncate_extend [simp]: "sample.truncate (sample.extend a m) = a"
  by (cases a) (simp add: sample.defs)

lemma set_unique [simp]: "set (unique xs) = set xs"
  by (induction xs rule: unique.induct) auto

lemma distinct_unique [simp]: "distinct (unique xs)"
  by (induction xs rule: unique.induct) auto

lemma unique_Nil_iff [simp]: "unique xs = [] \<longleftrightarrow> xs = []"
  by (cases xs) auto

lemma mset_filter_disj:
  "(\<And>r. P r \<Longrightarrow> \<not> Q r) \<Longrightarrow>
   mset (filter P xs) + mset (filter Q xs) = mset (filter (\<lambda>r. P r \<or> Q r) xs)"
  by (induction xs) auto

lemma mset_concat_partition_by_filter:
  "distinct ks \<Longrightarrow>
   mset (concat (partition_by key ks rows)) = mset (filter (\<lambda>r. key r \<in> set ks) rows)"
proof (induction ks)
  case Nil
  then show ?case by (simp add: partition_by_def)
next
  case (Cons k ks)
  then have "mset (concat (partition_by key (k # ks) rows))
      = mset (filter (\<lambda>r. key r = k) rows) + mset (filter (\<lambda>r. key r \<in> set ks) rows)"
    by (simp add: partition_by_def)
  also have "\<dots> = mset (filter (\<lambda>r. key r \<in> set (k # ks)) rows)"
    using Cons.prems by (subst mset_filter_disj) auto
  finally show ?case .
qed

lemma mset_concat_partition_by:
  assumes "distinct ks" and "set (map key rows) \<subseteq> set ks"
  shows "mset (concat (partition_by key ks rows)) = mset rows"
proof -
  from assms(2) have "filter (\<lambda>r. key r \<in> set ks) rows = rows"
    by (auto simp: filter_id_conv)
  with assms(1) show ?thesis by (simp add: mset_concat_partition_by_filter)
qed

lemma mset_concat_concat_map:
  "(\<And>p. p \<in> set ps \<Longrightarrow> mset (concat (f p)) = mset p) \<Longrightarrow>
   mset (concat (concat (map f ps))) = mset (concat ps)"
  by (induction ps) auto

lemma mset_tracker_session_parts:
  "mset (concat (tracker_session_parts tr se df)) = mset df"
proof -
  have "mset (concat (tracker_session_parts tr se df))
      = mset (concat (partition_by tr (unique (map tr df)) df))"
    unfolding tracker_session_parts_def
    by (rule mset_concat_concat_map, rule mset_concat_partition_by)
      (auto simp: partition_by_def)
  also have "\<dots> = mset df"
    by (rule mset_concat_partition_by) auto
  finally show ?thesis .
qed

lemma concat_concat_eq: "concat (concat xss) = concat (map concat xss)"
  by (induction xss) simp_all

lemma filter_concat_partition_by:
  assumes "\<And>r. P r \<Longrightarrow> key r = k" and "distinct ks"
  shows "filter P (concat (partition_by key ks xs)) = (if k \<in> set ks then filter P xs else [])"
  using assms(2)
proof (induction ks)
  case (Cons k' ks)
  have "filter P (filter (\<lambda>r. key r = k') xs) = (if k' = k then filter P xs else [])"
    using assms(1) by (auto simp: filter_empty_conv intro: filter_cong)
  with Cons show ?case by (auto simp: partition_by_def)
qed (simp add: partition_by_def)

lemma filter_tracker_session_parts:
  assumes "\<And>r. P r \<Longrightarrow> tr r = t \<and> se r = s"
  shows "filter P (concat (tracker_session_parts tr se df)) = filter P df"
proof -
  have inner: "filter P (concat (partition_by se (unique (map se df)) q))
      = (if s \<in> set (map se df) then filter P q else [])" for q
    using assms filter_concat_partition_by [where P = P and key = se and k = s
        and ks = "unique (map se df)" and xs = q]
    by simp
  have "filter P (concat (tracker_session_parts tr se df))
      = concat (map (\<lambda>q. filter P (concat (partition_by se (unique (map se df)) q)))
                  (partition_by tr (unique (map tr df)) df))"
    by (simp add: tracker_session_parts_def filter_concat map_concat comp_def concat_concat_eq)
  also have "\<dots> = (if s \<in> set (map se df) then filter P (concat (partition_by tr (unique (map tr df)) df)) else [])"
    by (simp only: inner) (cases "s \<in> set (map se df)"; simp add: filter_concat comp_def)
  also have "\<dots> = (if s \<in> set (map se df) then (if t \<in> set (map tr df) then filter P df else []) else [])"
    using assms by (subst filter_concat_partition_by [where k = t]) auto
  also have "\<dots> = filter P df"
  proof -
    have "filter P df = []" if "s \<notin> set (map se df) \<or> t \<notin> set (map tr df)"
      using that assms by (fastforce simp: filter_empty_conv)
    then show ?thesis by auto
  qed
  finally show ?thesis .
qed

lemma tracker_session_parts_product:
  "tracker_session_parts tr se df
     = map (\<lambda>(t, s). filter (\<lambda>r. tr r = t \<and> se r = s) df)
         (List.product (unique (map tr df)) (unique (map se df)))"
proof -
  have "concat (map (partition_by se ss) (partition_by tr ts df))
      = map (\<lambda>(t, s). filter (\<lambda>r. tr r = t \<and> se r = s) df) (List.product ts ss)" for ts ss
    by (induction ts) (simp_all add: partition_by_def comp_def conj_commute)
  then show ?thesis by (simp add: tracker_session_parts_def)
qed

lemma filter_concat_product:
  assumes rows: "\<And>t' s' r. r \<in> set (g t' s') \<Longrightarrow> tr r = t' \<and> se r = s'"
    and dT: "distinct TT" and dS: "distinct SS"
  shows "filter (\<lambda>r. tr r = t \<and> se r = s) (concat (map (\<lambda>(t', s'). g t' s') (List.product TT SS)))
         = (if t \<in> set TT \<and> s \<in> set SS then g t s else [])"
proof -
  have one: "filter (\<lambda>r. tr r = t \<and> se r = s) (g t' s') = (if t' = t \<and> s' = s then g t s else [])" for t' s'
    using rows [of _ t' s'] by (auto simp: filter_empty_conv intro: filter_True)
  have inner: "filter (\<lambda>r. tr r = t \<and> se r = s) (concat (map (g t') SS))
      = (if t' = t \<and> s \<in> set SS then g t s else [])" for t'
    using dS by (induction SS) (auto simp: one)
  show ?thesis
    using dT by (induction TT) (auto simp: inner comp_def)
qed

lemma mset_concat_map:
  "mset (concat (map h xs)) = sum_mset (image_mset (\<lambda>x. mset (h x)) (mset xs))"
  by (induction xs) auto

lemma successively_steps_from:
  assumes "successively (\<lambda>a b. f b = (if g b = g a then f a else Suc (f a))) (a # rest)"
  shows "\<forall>c\<in>set rest. f a \<le> f c \<and> (f c = f a \<longrightarrow> g c = g a)"
  using assms
proof (induction rest arbitrary: a)
  case Nil
  show ?case by simp
next
  case (Cons b rest)
  have ab: "f b = (if g b = g a then f a else Suc (f a))"
    using Cons.prems by simp
  have "successively (\<lambda>a b. f b = (if g b = g a then f a else Suc (f a))) (b # rest)"
    using Cons.prems by simp
  then have IH: "\<forall>c\<in>set rest. f b \<le> f c \<and> (f c = f b \<longrightarrow> g c = g b)"
    by (rule Cons.IH)
  show ?case
  proof (cases "g b = g a")
    case True
    then have "f b = f a" using ab by simp
    then show ?thesis using IH True by simp
  next
    case False
    then have "f b = Suc (f a)" using ab by simp
    then show ?thesis using IH by force
  qed
qed

lemma successively_steps_uniform:
  assumes "successively (\<lambda>a b. f b = (if g b = g a then f a else Suc (f a))) xs"
    and "a \<in> set xs" "b \<in> set xs" "f a = f b"
  shows "g a = g b"
  using assms
proof (induction xs)
  case Nil
  then show ?case by simp
next
  case (Cons c rest)
  have from_c: "\<forall>d\<in>set rest. f c \<le> f d \<and> (f d = f c \<longrightarrow> g d = g c)"
    using Cons.prems(1) by (rule successively_steps_from)
  have rest: "successively (\<lambda>a b. f b = (if g b = g a then f a else Suc (f a))) rest"
    using Cons.prems(1) by (cases rest) simp_all
  consider "a = c" "b = c" | "a = c" "b \<in> set rest" | "a \<in> set rest" "b = c"
    | "a \<in> set rest" "b \<in> set rest"
    using Cons.prems(2,3) by (simp only: set_simps insert_iff) blast
  then show ?case
  proof cases
    case 1 then show ?thesis by simp
  next
    case 2
    then have "f b = f c \<longrightarrow> g b = g c" using from_c by simp
    then show ?thesis using 2 Cons.prems(4) by simp
  next
    case 3
    then have "f a = f c \<longrightarrow> g a = g c" using from_c by simp
    then show ?thesis using 3 Cons.prems(4) by simp
  next
    case 4 then show ?thesis using Cons.IH [OF rest _ _ Cons.prems(4)] by simp
  qed
qed


lemma concat_runs_by [simp]: "concat (runs_by f xs) = xs"
  by (induction xs) (auto split: list.splits)

lemma runs_by_nonempty: "g \<in> set (runs_by f xs) \<Longrightarrow> g \<noteq> []"
  by (induction xs arbitrary: g) (auto split: list.splits if_splits)

lemma runs_by_Nil_iff [simp]: "runs_by f xs = [] \<longleftrightarrow> xs = []"
  by (cases xs) (auto split: list.splits)

lemma hd_hd_runs_by: "xs \<noteq> [] \<Longrightarrow> hd (hd (runs_by f xs)) = hd xs"
  by (induction xs) (auto split: list.splits)

lemma runs_by_hd_nonempty: "runs_by f xs = g # gs \<Longrightarrow> g \<noteq> []"
  by (metis list.set_intros(1) runs_by_nonempty)

lemma runs_by_cong:
  "successively (\<lambda>a b. f a = f b \<longleftrightarrow> g a = g b) xs \<Longrightarrow> runs_by f xs = runs_by g xs"
proof (induction xs)
  case (Cons a as)
  then have IH: "runs_by f as = runs_by g as" by (cases as) auto
  show ?case
  proof (cases as)
    case (Cons b bs)
    with Cons.prems have iff: "f b = f a \<longleftrightarrow> g b = g a" by auto
    from Cons have "as \<noteq> []" by simp
    then have "runs_by g as \<noteq> []" by (simp del: runs_by.simps)
    then obtain r rs where R: "runs_by g as = r # rs" by (meson neq_Nil_conv)
    have "hd r = b" using hd_hd_runs_by [of as g] R Cons by simp
    with iff IH R show ?thesis by simp
  qed (simp add: IH)
qed simp

lemma runs_by_heads:
  assumes "successively (\<lambda>a b. f b = (if g b = g a then f a else Suc (f a))) xs" and "xs \<noteq> []"
  shows "map (f \<circ> hd) (runs_by g xs) = [f (hd xs)..<f (hd xs) + length (runs_by g xs)]"
  using assms
proof (induction xs)
  case (Cons a as)
  show ?case
  proof (cases as)
    case Nil
    then show ?thesis by simp
  next
    case (Cons b bs)
    have step: "f b = (if g b = g a then f a else Suc (f a))"
      using Cons.prems(1) \<open>as = b # bs\<close> by simp
    have IH0: "map (f \<circ> hd) (runs_by g as) = [f (hd as)..<f (hd as) + length (runs_by g as)]"
      by (rule Cons.IH) (use Cons.prems(1) \<open>as = b # bs\<close> in \<open>simp_all add: successively_Cons\<close>)
    have "hd as = b" using \<open>as = b # bs\<close> by simp
    with IH0 have IH: "map (f \<circ> hd) (runs_by g as) = [f b..<f b + length (runs_by g as)]" by simp
    have "runs_by g as \<noteq> []" using \<open>as = b # bs\<close> by (simp only: runs_by_Nil_iff) simp
    then obtain h hs where rs: "runs_by g as = h # hs" by (cases "runs_by g as") auto
    have hh: "hd h = b" using hd_hd_runs_by [of as g] rs \<open>as = b # bs\<close> by simp
    show ?thesis
    proof (cases "g b = g a")
      case True
      with IH rs hh step show ?thesis by (simp add: upt_conv_Cons comp_def del: upt_Suc)
    next
      case False
      with IH rs hh step show ?thesis by (simp add: upt_conv_Cons comp_def del: upt_Suc)
    qed
  qed
qed simp

lemma runs_by_map: "runs_by f (map h xs) = map (map h) (runs_by (f \<circ> h) xs)"
proof (induction xs)
  case (Cons a xs)
  show ?case
  proof (cases "runs_by (f \<circ> h) xs")
    case (Cons r rs)
    then have "r \<noteq> []" by (rule runs_by_hd_nonempty)
    with Cons Cons.IH show ?thesis by (simp add: hd_map comp_def)
  qed (use Cons.IH in simp)
qed simp

lemma mean_replicate [simp]: "n \<noteq> 0 \<Longrightarrow> mean (replicate n v) = v"
  by (simp add: mean_def sum_list_replicate)

lemma std_sample_replicate [simp]: "std_sample (replicate n v) = 0"
proof (cases "n \<le> 1")
  case True
  then show ?thesis by (simp add: std_sample_def)
next
  case False
  then have "mean (replicate n v) = v" by simp
  then show ?thesis by (simp add: std_sample_def map_replicate_const sum_list_replicate)
qed

lemma std_sample_single [simp]: "std_sample [v] = 0"
  by (simp add: std_sample_def)

end
