(* ===== verification/Cluster_Builder.thy ===== *)
theory Cluster_Builder
  imports Prelude
begin

text \<open>
  ClusterBuilder: \<open>generate_positioning_clusters\<close> in
  \<open>src/moodoo-master/scripts/_stopsAndTransitions.py\<close> (lines 149--237). One forward
  pass over each (tracker, session) sub-frame with a base point; a row farther than
  \<open>distance\<close> from the base opens a new cluster and becomes the base. The counter
  \<open>fix_seq\<close> is set to 1 once, before the loops, and is never reset between
  sub-frames. The theory holds the row record the pass emits, the loop state, one
  definition per branch of the loop body, the loops, an abstract specification
  \<open>spec_clusters\<close> (the greedy segmentation of spec section 4.1) and the refinement
  of the code to it.
\<close>

section \<open>Rows and loop state\<close>

text \<open>
  A row of \<open>data1\<close> / \<open>df2\<close>: the input columns plus \<open>group\<close> (the cluster id),
  \<open>base_dist\<close>, \<open>intra_dist\<close> and \<open>time_diff\<close> (absent, NaT, on rows that
  open a cluster).
\<close>

record crow = sample +
  group :: nat
  base_dist :: real
  intra_dist :: real
  time_diff :: "seconds option"

text \<open>The list literal appended to \<open>data1\<close> in every branch.\<close>

definition mk_crow :: "nat \<Rightarrow> sample \<Rightarrow> real \<Rightarrow> real \<Rightarrow> seconds option \<Rightarrow> crow" where
  "mk_crow fix_seq r dist_b dist_p t_diff =
     \<lparr>tracker = tracker r, session = session r, timestamp = timestamp r, x = x r, y = y r,
      phase = phase r, quantile = quantile r,
      group = fix_seq, base_dist = dist_b, intra_dist = dist_p, time_diff = t_diff\<rparr>"

text \<open>The variables the loop carries from row to row.\<close>

record cb_state =
  fix_seq :: nat
  previous_row :: sample
  b_time :: seconds
  b_x1 :: real
  b_y1 :: real

section \<open>The loop body\<close>

text \<open>\<open>elif count == 1\<close>: the first row of a sub-frame becomes the base point.\<close>

definition cb_first :: "nat \<Rightarrow> sample \<Rightarrow> cb_state \<times> crow" where
  "cb_first fs r =
     (\<lparr>fix_seq = fs, previous_row = r, b_time = timestamp r, b_x1 = x r, b_y1 = y r\<rparr>,
      mk_crow fs r 0 0 None)"

text \<open>
  \<open>if count > 1\<close>: distances to the previous row and to the base; the row joins the
  cluster when \<open>dist_b <= distance\<close>, otherwise it opens cluster \<open>fix_seq + 1\<close> and
  becomes the base (its \<open>base_dist\<close> is still the distance to the old base).
\<close>

definition cb_step :: "real \<Rightarrow> cb_state \<Rightarrow> sample \<Rightarrow> cb_state \<times> crow" where
  "cb_step distance st r =
     (let dist_p = euclid (x (previous_row st)) (y (previous_row st)) (x r) (y r);
          dist_b = euclid (b_x1 st) (b_y1 st) (x r) (y r);
          t_diff = timestamp r - b_time st
      in if dist_b \<le> distance
         then (st\<lparr>previous_row := r\<rparr>, mk_crow (fix_seq st) r dist_b dist_p (Some t_diff))
         else (st\<lparr>fix_seq := Suc (fix_seq st), previous_row := r, b_time := timestamp r,
                  b_x1 := x r, b_y1 := y r\<rparr>,
               mk_crow (Suc (fix_seq st)) r dist_b dist_p None))"

section \<open>The loops\<close>

text \<open>\<open>for k, row_pair in data.iterrows()\<close> after the first row.\<close>

fun cb_run :: "real \<Rightarrow> cb_state \<Rightarrow> sample list \<Rightarrow> cb_state \<times> crow list" where
  "cb_run distance st [] = (st, [])"
| "cb_run distance st (r # rs) =
     (let (st', row) = cb_step distance st r;
          (st'', rows) = cb_run distance st' rs
      in (st'', row # rows))"

text \<open>One sub-frame: \<open>count\<close> restarts at 0, \<open>fix_seq\<close> comes in and goes out.\<close>

fun cluster_partition :: "real \<Rightarrow> nat \<Rightarrow> sample list \<Rightarrow> nat \<times> crow list" where
  "cluster_partition distance fs [] = (fs, [])"
| "cluster_partition distance fs (r # rs) =
     (let (st, row) = cb_first fs r;
          (st', rows) = cb_run distance st rs
      in (fix_seq st', row # rows))"

fun cluster_partitions :: "real \<Rightarrow> nat \<Rightarrow> sample list list \<Rightarrow> nat \<times> crow list" where
  "cluster_partitions distance fs [] = (fs, [])"
| "cluster_partitions distance fs (p # ps) =
     (let (fs', rows) = cluster_partition distance fs p;
          (fs'', rows') = cluster_partitions distance fs' ps
      in (fs'', rows @ rows'))"

text \<open>
  The second half of the function (lines 149--237): the clustering loop over the same
  sub-frames. Its result \<open>df2\<close> is what the function returns.
\<close>

definition generate_positioning_clusters :: "real \<Rightarrow> sample list \<Rightarrow> crow list" where
  "generate_positioning_clusters distance df =
     snd (cluster_partitions distance 1 (tracker_session_parts tracker session df))"

section \<open>The distance frame of the first loop\<close>

text \<open>
  Lines 113--141 build \<open>df_dist\<close> before the clustering loop: for every (tracker,
  session) sub-frame, \<open>x_shifted\<close> and \<open>y_shifted\<close> are the coordinates of the
  previous row (\<open>groupby(['session']).shift(1)\<close> on a one-session frame),
  \<open>dropna()\<close> removes the first row (the only one with NaN, the input having none),
  and \<open>dist\<close> is \<open>sqrt((x_shifted - x)**2 + (y_shifted - y)**2)\<close>. The frame is
  never read afterwards. A row of it (the column \<open>dist\<close> is \<open>dist_col\<close>, \<open>dist\<close>
  being the metric of HOL):
\<close>

record drow = sample +
  x_shifted :: real
  y_shifted :: real
  dist_col :: real

text \<open>One sub-frame \<open>session_df\<close>: each row after the first, paired with its predecessor.\<close>

definition shift_distances :: "sample list \<Rightarrow> drow list" where
  "shift_distances session_df =
     map2 (\<lambda>prev r. sample.extend r
             (drow.fields (x prev) (y prev) (euclid (x r) (y r) (x prev) (y prev))))
       session_df (tl session_df)"

text \<open>\<open>df_dist = df_dist.append(session_df)\<close> over the nested tracker and session loops.\<close>

definition positioning_distances :: "sample list \<Rightarrow> drow list" where
  "positioning_distances df = concat (map shift_distances (tracker_session_parts tracker session df))"

section \<open>Abstract specification\<close>

text \<open>
  Spec section 4.1: a sample joins the current cluster iff it lies within \<open>D\<close> of the
  cluster's base point, the cluster's first sample; otherwise it anchors the next.
\<close>

definition near_base :: "real \<Rightarrow> sample \<Rightarrow> sample \<Rightarrow> bool" where
  "near_base D a s \<longleftrightarrow> euclid (x a) (y a) (x s) (y s) \<le> D"

function spec_clusters :: "real \<Rightarrow> sample list \<Rightarrow> sample list list" where
  "spec_clusters D [] = []"
| "spec_clusters D (a # rs) =
     (a # takeWhile (near_base D a) rs) # spec_clusters D (dropWhile (near_base D a) rs)"
  by pat_completeness auto
termination
  by (relation "measure (\<lambda>(D, rs). length rs)") (auto simp: le_imp_less_Suc length_dropWhile_le)

text \<open>
  The rows the spec prescribes for one cluster with id \<open>g\<close>: the base point with no
  time delta, every other member with its delta to the base point.
\<close>

fun cluster_rows :: "nat \<Rightarrow> sample list \<Rightarrow> (sample \<times> nat \<times> seconds option) list" where
  "cluster_rows g [] = []"
| "cluster_rows g (a # m) = (a, g, None) # map (\<lambda>s. (s, g, Some (timestamp s - timestamp a))) m"

text \<open>Clusters numbered consecutively from a first id.\<close>

fun number_clusters :: "nat \<Rightarrow> sample list list \<Rightarrow> (sample \<times> nat \<times> seconds option) list" where
  "number_clusters g [] = []"
| "number_clusters g (c # cs) = cluster_rows g c @ number_clusters (Suc g) cs"

text \<open>What a row says about the clustering: its sample, its cluster id, its time delta.\<close>

definition row_tag :: "crow \<Rightarrow> sample \<times> nat \<times> seconds option" where
  "row_tag r = (sample.truncate r, group r, time_diff r)"

text \<open>
  The spec's contract as a predicate: the clusters cover the samples in order, every
  member lies within \<open>D\<close> of its cluster's first sample, and the first sample of each
  cluster lies farther than \<open>D\<close> from the first sample of the cluster before.
\<close>

definition valid_segmentation :: "real \<Rightarrow> sample list \<Rightarrow> sample list list \<Rightarrow> bool" where
  "valid_segmentation D p cs \<longleftrightarrow>
     concat cs = p \<and> (\<forall>c\<in>set cs. c \<noteq> [] \<and> (\<forall>s\<in>set (tl c). near_base D (hd c) s))
     \<and> successively (\<lambda>c c'. \<not> near_base D (hd c) (hd c')) cs"

text \<open>
  The two transitions of the builder's state machine, as they show on two consecutive
  rows of one sub-frame: a join (same id, within the threshold, a time delta) or an
  opening (next id, beyond the threshold, no time delta).
\<close>

definition cluster_transition :: "real \<Rightarrow> crow \<Rightarrow> crow \<Rightarrow> bool" where
  "cluster_transition D r r' \<longleftrightarrow>
     (group r' = group r \<and> base_dist r' \<le> D \<and> time_diff r' \<noteq> None)
     \<or> (group r' = Suc (group r) \<and> D < base_dist r' \<and> time_diff r' = None)"

text \<open>The loop state is anchored at sample \<open>a\<close>: its base point and base time are \<open>a\<close>'s.\<close>

definition anchored :: "cb_state \<Rightarrow> sample \<Rightarrow> bool" where
  "anchored st a \<longleftrightarrow> b_x1 st = x a \<and> b_y1 st = y a \<and> b_time st = timestamp a"

section \<open>Lemmas\<close>

lemma mk_crow_sample [simp]: "sample.truncate (mk_crow g r db dp td) = r"
  by (simp add: mk_crow_def sample.defs)

lemma mk_crow_fields [simp]:
  "group (mk_crow g r db dp td) = g" "base_dist (mk_crow g r db dp td) = db"
  "intra_dist (mk_crow g r db dp td) = dp" "time_diff (mk_crow g r db dp td) = td"
  "timestamp (mk_crow g r db dp td) = timestamp r"
  "tracker (mk_crow g r db dp td) = tracker r" "session (mk_crow g r db dp td) = session r"
  by (simp_all add: mk_crow_def)

lemma row_tag_mk_crow [simp]: "row_tag (mk_crow g r db dp td) = (r, g, td)"
  by (simp add: row_tag_def)

lemma anchored_first [simp]: "anchored (fst (cb_first fs r)) r"
  by (simp add: anchored_def cb_first_def)

lemma cb_step_join:
  "anchored st a \<Longrightarrow> near_base D a r \<Longrightarrow>
   cb_step D st r = (st\<lparr>previous_row := r\<rparr>,
     mk_crow (fix_seq st) r (euclid (x a) (y a) (x r) (y r))
       (euclid (x (previous_row st)) (y (previous_row st)) (x r) (y r))
       (Some (timestamp r - timestamp a)))"
  by (simp add: cb_step_def anchored_def near_base_def Let_def)

lemma cb_step_open:
  "anchored st a \<Longrightarrow> \<not> near_base D a r \<Longrightarrow>
   cb_step D st r = (st\<lparr>fix_seq := Suc (fix_seq st), previous_row := r, b_time := timestamp r,
                        b_x1 := x r, b_y1 := y r\<rparr>,
     mk_crow (Suc (fix_seq st)) r (euclid (x a) (y a) (x r) (y r))
       (euclid (x (previous_row st)) (y (previous_row st)) (x r) (y r)) None)"
  by (simp add: cb_step_def anchored_def near_base_def Let_def)

lemma cb_run_Cons:
  "cb_run D st (r # rs) =
     (fst (cb_run D (fst (cb_step D st r)) rs),
      snd (cb_step D st r) # snd (cb_run D (fst (cb_step D st r)) rs))"
  by (simp add: split_beta)

lemma cluster_partition_Cons:
  "cluster_partition D fs (r # rs) =
     (fix_seq (fst (cb_run D (fst (cb_first fs r)) rs)),
      snd (cb_first fs r) # snd (cb_run D (fst (cb_first fs r)) rs))"
  by (simp add: split_beta)

lemma cluster_partitions_Cons:
  "cluster_partitions D fs (p # ps) =
     (fst (cluster_partitions D (fst (cluster_partition D fs p)) ps),
      snd (cluster_partition D fs p) @ snd (cluster_partitions D (fst (cluster_partition D fs p)) ps))"
  by (simp add: split_beta)

declare cb_run.simps(2) [simp del] cluster_partition.simps(2) [simp del]
  cluster_partitions.simps(2) [simp del]

lemmas cb_unfold [pipeline_simps] = cb_run_Cons cluster_partition_Cons cluster_partitions_Cons

lemma cb_run_tags:
  "anchored st a \<Longrightarrow>
   map row_tag (snd (cb_run D st rs))
     = map (\<lambda>s. (s, fix_seq st, Some (timestamp s - timestamp a))) (takeWhile (near_base D a) rs)
       @ number_clusters (Suc (fix_seq st)) (spec_clusters D (dropWhile (near_base D a) rs))
   \<and> fix_seq (fst (cb_run D st rs))
     = fix_seq st + length (spec_clusters D (dropWhile (near_base D a) rs))"
proof (induction rs arbitrary: st a)
  case Nil
  then show ?case by simp
next
  case (Cons r rs)
  show ?case
  proof (cases "near_base D a r")
    case True
    with Cons.prems have "anchored (st\<lparr>previous_row := r\<rparr>) a"
      by (simp add: anchored_def)
    with Cons.IH [of "st\<lparr>previous_row := r\<rparr>" a] Cons.prems True show ?thesis
      by (simp add: cb_run_Cons cb_step_join)
  next
    case False
    let ?st = "st\<lparr>fix_seq := Suc (fix_seq st), previous_row := r, b_time := timestamp r,
                  b_x1 := x r, b_y1 := y r\<rparr>"
    have "anchored ?st r" by (simp add: anchored_def)
    with Cons.IH [of ?st r] Cons.prems False show ?thesis
      by (simp add: cb_run_Cons cb_step_open)
  qed
qed

lemma cluster_partition_tags:
  "map row_tag (snd (cluster_partition D fs p)) = number_clusters fs (spec_clusters D p)
   \<and> fst (cluster_partition D fs p) = (if p = [] then fs else fs + length (spec_clusters D p) - 1)"
proof (cases p)
  case Nil
  then show ?thesis by simp
next
  case (Cons r rs)
  with cb_run_tags [OF anchored_first [of fs r], where D = D and rs = rs] show ?thesis
    by (simp add: cluster_partition_Cons cb_first_def)
qed

lemma concat_spec_clusters [simp]: "concat (spec_clusters D p) = p"
  by (induction D p rule: spec_clusters.induct) simp_all

lemma map_fst_number_clusters [simp]: "map fst (number_clusters g cs) = concat cs"
proof (induction g cs rule: number_clusters.induct)
  case (2 g c cs)
  then show ?case by (cases c) (simp_all add: comp_def)
qed simp

lemma sample_truncate_via_tag: "map sample.truncate rows = map fst (map row_tag rows)"
  by (simp add: row_tag_def)

lemma cluster_partition_samples [simp]:
  "map sample.truncate (snd (cluster_partition D fs p)) = p"
  by (simp only: sample_truncate_via_tag cluster_partition_tags map_fst_number_clusters
      concat_spec_clusters)

lemma cluster_partitions_samples [simp]:
  "map sample.truncate (snd (cluster_partitions D fs ps)) = concat ps"
  by (induction ps arbitrary: fs) (simp_all add: cluster_partitions_Cons)

lemma cb_step_group:
  "fix_seq (fst (cb_step D st r)) = group (snd (cb_step D st r))"
  "group (snd (cb_step D st r)) = fix_seq st \<or> group (snd (cb_step D st r)) = Suc (fix_seq st)"
  by (simp_all add: cb_step_def Let_def)

lemma cb_step_transition:
  "group prev = fix_seq st \<Longrightarrow> cluster_transition D prev (snd (cb_step D st r))"
  by (auto simp: cb_step_def Let_def cluster_transition_def)

lemma cb_run_transitions:
  "group prev = fix_seq st \<Longrightarrow> successively (cluster_transition D) (prev # snd (cb_run D st rs))"
proof (induction rs arbitrary: st prev)
  case Nil
  then show ?case by simp
next
  case (Cons r rs)
  from Cons.IH [OF cb_step_group(1) [symmetric]] Cons.prems cb_step_transition
  show ?case by (simp add: cb_run_Cons)
qed

lemma cb_step_fix_seq:
  "fix_seq (fst (cb_step D st r)) = fix_seq st \<or> fix_seq (fst (cb_step D st r)) = Suc (fix_seq st)"
  by (simp add: cb_step_def Let_def)

lemma cb_run_fix_seq_mono: "fix_seq st \<le> fix_seq (fst (cb_run D st rs))"
proof (induction rs arbitrary: st)
  case (Cons r rs)
  have "fix_seq st \<le> fix_seq (fst (cb_step D st r))"
    using cb_step_fix_seq [of D st r] by auto
  with Cons.IH [of "fst (cb_step D st r)"] show ?case
    by (simp add: cb_run_Cons)
qed simp

lemma cb_run_groups:
  "r \<in> set (snd (cb_run D st rs)) \<Longrightarrow>
   fix_seq st \<le> group r \<and> group r \<le> fix_seq (fst (cb_run D st rs))"
proof (induction rs arbitrary: st)
  case (Cons r' rs)
  let ?st' = "fst (cb_step D st r')"
  have lo: "fix_seq st \<le> fix_seq ?st'"
    using cb_step_fix_seq [of D st r'] by auto
  have hi: "fix_seq ?st' \<le> fix_seq (fst (cb_run D ?st' rs))"
    by (rule cb_run_fix_seq_mono)
  show ?case
  proof (cases "r = snd (cb_step D st r')")
    case True
    with lo hi show ?thesis by (simp add: cb_run_Cons cb_step_group(1))
  next
    case False
    with Cons.prems have "r \<in> set (snd (cb_run D ?st' rs))" by (simp add: cb_run_Cons)
    with Cons.IH [of ?st'] lo show ?thesis by (simp add: cb_run_Cons)
  qed
qed simp

lemma cluster_partition_transitions:
  "successively (cluster_transition D) (snd (cluster_partition D fs p))"
proof (cases p)
  case (Cons r rs)
  have "group (snd (cb_first fs r)) = fix_seq (fst (cb_first fs r))"
    by (simp add: cb_first_def)
  then show ?thesis using Cons by (simp add: cluster_partition_Cons cb_run_transitions)
qed simp

lemma cluster_partition_groups:
  "sorted (map group (snd (cluster_partition D fs p)))"
  "r \<in> set (snd (cluster_partition D fs p)) \<Longrightarrow>
   fs \<le> group r \<and> group r \<le> fst (cluster_partition D fs p)"
  "fs \<le> fst (cluster_partition D fs p)"
proof -
  have "successively (\<lambda>r r'. group r \<le> group r') (snd (cluster_partition D fs p))"
    by (rule successively_mono [OF cluster_partition_transitions])
      (auto simp: cluster_transition_def)
  then show "sorted (map group (snd (cluster_partition D fs p)))"
    by (simp add: successively_map successively_conv_sorted_wrt [symmetric])
  show "fs \<le> fst (cluster_partition D fs p)"
  proof (cases p)
    case (Cons a rs)
    with cb_run_fix_seq_mono [of "fst (cb_first fs a)" D rs] show ?thesis
      by (simp add: cluster_partition_Cons cb_first_def)
  qed simp
  show "r \<in> set (snd (cluster_partition D fs p)) \<Longrightarrow>
        fs \<le> group r \<and> group r \<le> fst (cluster_partition D fs p)"
  proof (cases p)
    case (Cons a rs)
    assume r: "r \<in> set (snd (cluster_partition D fs p))"
    have "fs \<le> fix_seq (fst (cb_run D (fst (cb_first fs a)) rs))"
      using cb_run_fix_seq_mono [of "fst (cb_first fs a)" D rs] by (simp add: cb_first_def)
    with r Cons cb_run_groups [of r D "fst (cb_first fs a)" rs] show ?thesis
      by (auto simp: cluster_partition_Cons cb_first_def)
  qed simp
qed

lemma cluster_partitions_groups:
  "sorted (map group (snd (cluster_partitions D fs ps))) \<and>
   (\<forall>r\<in>set (snd (cluster_partitions D fs ps)). fs \<le> group r)"
proof (induction ps arbitrary: fs)
  case Nil
  then show ?case by simp
next
  case (Cons p ps)
  let ?fs' = "fst (cluster_partition D fs p)"
  from Cons.IH [of ?fs'] cluster_partition_groups [where D = D and fs = fs and p = p] show ?case
    by (fastforce simp: cluster_partitions_Cons sorted_append intro: order_trans)
qed

lemma cb_run_last_group:
  "group prev = fix_seq st \<Longrightarrow>
   fix_seq (fst (cb_run D st rs)) = group (last (prev # snd (cb_run D st rs)))"
proof (induction rs arbitrary: st prev)
  case (Cons r rs)
  from Cons.IH [OF cb_step_group(1) [symmetric]] show ?case by (simp add: cb_run_Cons)
qed simp

lemma cluster_partition_last_group:
  "p \<noteq> [] \<Longrightarrow> fst (cluster_partition D fs p) = group (last (snd (cluster_partition D fs p)))"
  using cb_run_last_group [of "snd (cb_first fs (hd p))" "fst (cb_first fs (hd p))" D "tl p"]
  by (cases p) (simp_all add: cluster_partition_Cons cb_first_def)

lemma cluster_partition_hd_group:
  "p \<noteq> [] \<Longrightarrow> group (hd (snd (cluster_partition D fs p))) = fs"
  by (cases p) (simp_all add: cluster_partition_Cons cb_first_def)

lemma cluster_partitions_hd_group:
  "snd (cluster_partitions D fs ps) \<noteq> [] \<Longrightarrow> group (hd (snd (cluster_partitions D fs ps))) = fs"
proof (induction ps arbitrary: fs)
  case (Cons p ps)
  show ?case
  proof (cases p)
    case Nil
    with Cons show ?thesis by (simp add: cluster_partitions_Cons)
  next
    case (Cons a as)
    then show ?thesis by (simp add: cluster_partitions_Cons cluster_partition_Cons cb_first_def)
  qed
qed simp

lemma cluster_partition_steps:
  "successively (\<lambda>a b. group b = group a \<or> group b = Suc (group a)) (snd (cluster_partition D fs p))"
  by (rule successively_mono [OF cluster_partition_transitions]) (auto simp: cluster_transition_def)

lemma cluster_partitions_steps:
  "successively (\<lambda>a b. group b = group a \<or> group b = Suc (group a)) (snd (cluster_partitions D fs ps))"
proof (induction ps arbitrary: fs)
  case (Cons p ps)
  let ?fs' = "fst (cluster_partition D fs p)"
  have "snd (cluster_partition D fs p) \<noteq> [] \<Longrightarrow> snd (cluster_partitions D ?fs' ps) \<noteq> [] \<Longrightarrow>
      group (hd (snd (cluster_partitions D ?fs' ps))) = group (last (snd (cluster_partition D fs p)))"
    by (cases p) (simp_all add: cluster_partitions_hd_group cluster_partition_last_group)
  with Cons.IH [of ?fs'] cluster_partition_steps [of D fs p] show ?case
    by (auto simp: cluster_partitions_Cons successively_append_iff)
qed simp

lemma length_cluster_partition [simp]: "length (snd (cluster_partition D fs p)) = length p"
  by (metis cluster_partition_samples length_map)

lemma spec_clusters_negative: "D < 0 \<Longrightarrow> spec_clusters D p = map (\<lambda>s. [s]) p"
proof (induction D p rule: spec_clusters.induct)
  case (2 D a rs)
  have "\<not> near_base D a s" for s
    using "2.prems" euclid_nonneg [of "x a" "y a" "x s" "y s"] unfolding near_base_def by linarith
  with 2 show ?case by (cases rs) simp_all
qed simp

lemma number_singletons_groups:
  "map (fst \<circ> snd) (number_clusters g (map (\<lambda>s. [s]) p)) = [g..<g + length p]"
  by (induction p arbitrary: g) (simp_all add: upt_rec)

subsection \<open>The distance frame\<close>

lemma cb_step_previous_intra:
  "previous_row (fst (cb_step D st r)) = r"
  "intra_dist (snd (cb_step D st r)) = euclid (x (previous_row st)) (y (previous_row st)) (x r) (y r)"
  by (simp_all add: cb_step_def Let_def mk_crow_def)

lemma cb_run_intra_dist:
  "map intra_dist (snd (cb_run D st rs))
     = map2 (\<lambda>p r. euclid (x p) (y p) (x r) (y r)) (previous_row st # rs) rs"
  by (induction rs arbitrary: st) (simp_all add: cb_unfold cb_step_previous_intra)

lemma shift_distances_dist:
  "map dist_col (shift_distances p) = map2 (\<lambda>q r. euclid (x q) (y q) (x r) (y r)) p (tl p)"
  unfolding shift_distances_def map_map
proof (rule map_cong [OF refl])
  fix qr assume "qr \<in> set (zip p (tl p))"
  show "(dist_col \<circ> (\<lambda>(prev, r). sample.extend r (drow.fields (x prev) (y prev) (euclid (x r) (y r) (x prev) (y prev))))) qr
      = (case qr of (q, r) \<Rightarrow> euclid (x q) (y q) (x r) (y r))"
    by (cases qr) (simp add: sample.extend_def drow.fields_def, rule euclid_sym)
qed
lemma shift_distances_intra_dist:
  "map dist_col (shift_distances p) = map intra_dist (tl (snd (cluster_partition D fs p)))"
  by (cases p) (simp_all add: shift_distances_dist cb_unfold cb_first_def cb_run_intra_dist)

lemma shift_distances_mem:
  assumes "r \<in> set (shift_distances p)"
  shows "\<exists>i. Suc i < length p \<and> r = sample.extend (p ! Suc i)
           (drow.fields (x (p ! i)) (y (p ! i)) (euclid (x (p ! Suc i)) (y (p ! Suc i)) (x (p ! i)) (y (p ! i))))"
proof -
  obtain i where "i < length p - 1" and "r = sample.extend (tl p ! i)
      (drow.fields (x (p ! i)) (y (p ! i)) (euclid (x (tl p ! i)) (y (tl p ! i)) (x (p ! i)) (y (p ! i))))"
    using assms by (auto simp: shift_distances_def set_zip)
  then show ?thesis by (auto simp: nth_tl intro!: exI [of _ i])
qed

section \<open>Properties\<close>

text \<open>
  C1 (refinement). Each sub-frame's rows carry exactly the spec's clusters: the
  \<open>i\<close>-th cluster of \<open>spec_clusters\<close> (counting from 0) gets id \<open>fs + i\<close>, its base
  point has no time delta and every other member has its delta to the base point.
\<close>

theorem cluster_partition_refines_spec:
  "map row_tag (snd (cluster_partition D fs p)) = number_clusters fs (spec_clusters D p)"
  using cluster_partition_tags by blast

lemma valid_segmentation_is_spec:
  "valid_segmentation D p cs \<Longrightarrow> cs = spec_clusters D p"
proof (induction cs arbitrary: p)
  case Nil
  then show ?case by (simp add: valid_segmentation_def)
next
  case (Cons c cs)
  from Cons.prems obtain a m where c: "c = a # m"
    by (cases c) (auto simp: valid_segmentation_def)
  from Cons.prems c have p: "p = a # m @ concat cs"
    and m: "\<forall>s\<in>set m. near_base D a s"
    and next_far: "cs \<noteq> [] \<Longrightarrow> \<not> near_base D a (hd (hd cs))"
    by (auto simp: valid_segmentation_def successively_Cons)
  from Cons.prems have rest: "valid_segmentation D (concat cs) cs"
    by (auto simp: valid_segmentation_def successively_Cons)
  from Cons.prems have ne: "\<forall>c\<in>set cs. c \<noteq> []"
    by (simp add: valid_segmentation_def)
  have hd_cs: "concat cs \<noteq> [] \<Longrightarrow> hd (concat cs) = hd (hd cs)" "concat cs = [] \<longleftrightarrow> cs = []"
    using ne by (cases cs; cases "hd cs"; simp)+
  have stop: "concat cs = [] \<or> \<not> near_base D a (hd (concat cs))"
  proof (cases "cs = []")
    case False
    with hd_cs next_far show ?thesis by simp
  qed simp
  have tw: "takeWhile (near_base D a) (m @ concat cs) = m"
    using m stop by (simp add: takeWhile_eq_Nil_iff)
  have dw: "dropWhile (near_base D a) (m @ concat cs) = concat cs"
    using m stop by (simp add: dropWhile_eq_self_iff)
  from Cons.IH [OF rest] p c tw dw show ?case by simp
qed

lemma spec_clusters_valid:
  "cs = spec_clusters D p \<Longrightarrow> valid_segmentation D p cs"
proof (induction D p arbitrary: cs rule: spec_clusters.induct)
  case (1 D)
  then show ?case by (simp add: valid_segmentation_def)
next
  case (2 D a rs)
  let ?tw = "takeWhile (near_base D a) rs"
  let ?rest = "dropWhile (near_base D a) rs"
  let ?cs = "spec_clusters D ?rest"
  have IH: "valid_segmentation D ?rest ?cs" by (rule "2.IH") simp
  have head: "\<forall>s\<in>set ?tw. near_base D a s"
    by (auto dest: set_takeWhileD)
  have link: "?cs = [] \<or> \<not> near_base D a (hd (hd ?cs))"
  proof (cases ?rest)
    case (Cons b rest')
    then have "\<not> near_base D a b"
      using hd_dropWhile [of "near_base D a" rs] by simp
    with Cons show ?thesis by simp
  next
    case Nil
    then have "?cs = []" by (simp only: spec_clusters.simps(1))
    then show ?thesis ..
  qed
  have cover: "concat ((a # ?tw) # ?cs) = a # rs" by simp
  have members: "\<forall>c\<in>set ((a # ?tw) # ?cs). c \<noteq> [] \<and> (\<forall>s\<in>set (tl c). near_base D (hd c) s)"
    using IH head by (simp add: valid_segmentation_def)
  have order: "successively (\<lambda>c c'. \<not> near_base D (hd c) (hd c')) ((a # ?tw) # ?cs)"
    using IH link by (auto simp: valid_segmentation_def successively_Cons)
  from cover members order "2.prems" show ?case
    by (simp only: valid_segmentation_def spec_clusters.simps(2))
qed

text \<open>
  The specification's segmentation is the only one that covers the
  samples in order, keeps every member within the threshold of its cluster's first
  sample and starts a new cluster only beyond the threshold.
\<close>

theorem spec_clusters_unique:
  "valid_segmentation D p cs \<longleftrightarrow> cs = spec_clusters D p"
  using valid_segmentation_is_spec spec_clusters_valid by blast

lemma spec_clusters_unique_witness:
  "valid_segmentation 1000
     [sample.make 1 1 0 0 0 1 1, sample.make 1 1 1 1000 0 1 1, sample.make 1 1 2 3000 0 1 1]
     [[sample.make 1 1 0 0 0 1 1, sample.make 1 1 1 1000 0 1 1], [sample.make 1 1 2 3000 0 1 1]]"
  using spec_clusters_unique [of 1000
     "[sample.make 1 1 0 0 0 1 1, sample.make 1 1 1 1000 0 1 1, sample.make 1 1 2 3000 0 1 1]"
     "[[sample.make 1 1 0 0 0 1 1, sample.make 1 1 1 1000 0 1 1], [sample.make 1 1 2 3000 0 1 1]]"]
  by (simp add: near_base_def pipeline_simps sample.defs)

text \<open>
  Coverage: every input row appears in the clustered frame exactly once,
  with its columns unchanged.
\<close>

theorem generate_positioning_clusters_covers:
  "mset (map sample.truncate (generate_positioning_clusters D df)) = mset df"
  by (simp add: generate_positioning_clusters_def mset_tracker_session_parts)

text \<open>
  Threshold rule with its tie-break: a row stays in the current
  cluster exactly when its distance to the base point is at most \<open>distance\<close>
  (\<open><=\<close>, so a row at exactly the threshold stays); otherwise it opens the next id.
\<close>

theorem cb_step_joins_iff:
  "(group (snd (cb_step D st r)) = fix_seq st \<and> fix_seq (fst (cb_step D st r)) = fix_seq st)
   \<longleftrightarrow> euclid (b_x1 st) (b_y1 st) (x r) (y r) \<le> D"
  by (simp add: cb_step_def Let_def)

text \<open>
  C9 (invariant). The builder as a state machine: within a sub-frame the first row
  opens cluster \<open>fs\<close> with zero distances and no delta, and every later row is a join
  (same id, \<open>base_dist <= distance\<close>, a delta) or an opening (id + 1,
  \<open>base_dist > distance\<close>, no delta).
\<close>

theorem cluster_partition_state_machine:
  "successively (cluster_transition D) (snd (cluster_partition D fs p)) \<and>
   (\<forall>r\<in>set (take 1 (snd (cluster_partition D fs p))).
      group r = fs \<and> base_dist r = 0 \<and> intra_dist r = 0 \<and> time_diff r = None)"
  using cluster_partition_transitions [of D fs p]
  by (cases p) (simp_all add: cluster_partition_Cons cb_first_def)

lemma cluster_partition_state_machine_witness:
  "successively (cluster_transition 1000)
     (snd (cluster_partition 1000 1 [sample.make 1 1 0 0 0 1 1, sample.make 1 1 1 5000 0 1 1])) \<and>
   group (hd (snd (cluster_partition 1000 1 [sample.make 1 1 0 0 0 1 1, sample.make 1 1 1 5000 0 1 1])))
     = 1 \<and>
   time_diff (hd (snd (cluster_partition 1000 1
     [sample.make 1 1 0 0 0 1 1, sample.make 1 1 1 5000 0 1 1]))) = None"
  using cluster_partition_state_machine [of 1000 1
    "[sample.make 1 1 0 0 0 1 1, sample.make 1 1 1 5000 0 1 1]"]
  by (simp add: cluster_partition_Cons cb_first_def)

text \<open>
  Cluster ids over the whole clustered frame never decrease and are at
  least 1.
\<close>

theorem generate_positioning_clusters_ids_sorted:
  "sorted (map group (generate_positioning_clusters D df)) \<and>
   (\<forall>r\<in>set (generate_positioning_clusters D df). 1 \<le> group r)"
  unfolding generate_positioning_clusters_def by (rule cluster_partitions_groups)

lemma generate_positioning_clusters_ids_sorted_witness:
  "sorted (map group (generate_positioning_clusters 1000
      [sample.make 1 1 0 0 0 1 1, sample.make 1 1 1 5000 0 1 1])) \<and>
   1 \<le> group (hd (generate_positioning_clusters 1000
      [sample.make 1 1 0 0 0 1 1, sample.make 1 1 1 5000 0 1 1]))"
proof -
  let ?g = "generate_positioning_clusters 1000 [sample.make 1 1 0 0 0 1 1, sample.make 1 1 1 5000 0 1 1]"
  have ne: "?g \<noteq> []"
    by (simp add: generate_positioning_clusters_def tracker_session_parts_def partition_by_def
        pipeline_simps sample.defs)
  from generate_positioning_clusters_ids_sorted [of 1000
      "[sample.make 1 1 0 0 0 1 1, sample.make 1 1 1 5000 0 1 1]"] ne
  show ?thesis by simp
qed

text \<open>
  C13 (functional). \<open>fix_seq\<close> is not reset between sub-frames: over the nested loops
  the id of each row is the id of the row before it or one more, across partition
  boundaries too, and the first row of a sub-frame gets the id of the last row of the
  sub-frame processed before it, so the two share an id (the spec numbers clusters per
  partition, from 1).
\<close>

theorem cluster_ids_continue_across_partitions:
  assumes "p \<noteq> []" and "q \<noteq> []"
  shows "successively (\<lambda>a b. group b = group a \<or> group b = Suc (group a))
           (snd (cluster_partitions D fs (p # q # ps)))
         \<and> group (snd (cluster_partitions D fs (p # q # ps)) ! length p)
           = group (snd (cluster_partitions D fs (p # q # ps)) ! (length p - 1))"
proof -
  let ?A = "snd (cluster_partition D fs p)"
  let ?B = "snd (cluster_partitions D (fst (cluster_partition D fs p)) (q # ps))"
  have rows: "snd (cluster_partitions D fs (p # q # ps)) = ?A @ ?B"
    by (simp add: cluster_partitions_Cons)
  have A: "length ?A = length p" by simp
  then have A0: "?A \<noteq> []" using assms(1) by (metis length_0_conv)
  have B: "?B \<noteq> []" using assms(2)
    by (cases q) (simp_all add: cluster_partitions_Cons cluster_partition_Cons)
  have "?B ! 0 = hd ?B" using B by (simp add: hd_conv_nth)
  then have b: "group ((?A @ ?B) ! length p) = fst (cluster_partition D fs p)"
    using B A cluster_partitions_hd_group [of D "fst (cluster_partition D fs p)" "q # ps"]
    by (simp add: nth_append)
  have "(?A @ ?B) ! (length p - 1) = last ?A"
    using A A0 assms(1) by (simp add: nth_append last_conv_nth)
  then have a: "group ((?A @ ?B) ! (length p - 1)) = fst (cluster_partition D fs p)"
    using cluster_partition_last_group [OF assms(1)] by simp
  show ?thesis using a b cluster_partitions_steps [of D fs "p # q # ps"] unfolding rows by simp
qed

lemma cluster_ids_continue_across_partitions_witness:
  "group (snd (cluster_partitions 1000 1
       [[sample.make 1 1 0 0 0 1 1, sample.make 1 1 1 5000 0 1 1], [sample.make 2 1 0 0 0 1 1]]) ! 2) = 2
   \<and> group (snd (cluster_partitions 1000 1
       [[sample.make 1 1 0 0 0 1 1, sample.make 1 1 1 5000 0 1 1], [sample.make 2 1 0 0 0 1 1]]) ! 1) = 2"
proof -
  have "group (snd (cluster_partitions 1000 1
       [[sample.make 1 1 0 0 0 1 1, sample.make 1 1 1 5000 0 1 1], [sample.make 2 1 0 0 0 1 1]]) ! 2)
     = group (snd (cluster_partitions 1000 1
       [[sample.make 1 1 0 0 0 1 1, sample.make 1 1 1 5000 0 1 1], [sample.make 2 1 0 0 0 1 1]]) ! 1)"
    using cluster_ids_continue_across_partitions [of "[sample.make 1 1 0 0 0 1 1, sample.make 1 1 1 5000 0 1 1]"
        "[sample.make 2 1 0 0 0 1 1]" 1000 1 "[]"]
    by (simp add: numeral_2_eq_2)
  moreover have "group (snd (cluster_partitions 1000 1
       [[sample.make 1 1 0 0 0 1 1, sample.make 1 1 1 5000 0 1 1], [sample.make 2 1 0 0 0 1 1]]) ! 1) = 2"
    by (simp add: pipeline_simps cb_first_def cb_step_def sample.defs)
  ultimately show ?thesis by simp
qed

text \<open>
  C37 (error). A negative \<open>distance\<close> is not rejected (the spec makes it a
  configuration error): every row then opens a cluster of its own.
\<close>

theorem negative_distance_singletons:
  assumes "D < 0"
  shows "map group (snd (cluster_partition D fs p)) = [fs..<fs + length p]"
proof -
  have "map group (snd (cluster_partition D fs p))
      = map (fst \<circ> snd) (map row_tag (snd (cluster_partition D fs p)))"
    by (simp add: row_tag_def comp_def)
  also have "\<dots> = [fs..<fs + length p]"
    using assms by (simp only: cluster_partition_tags spec_clusters_negative number_singletons_groups)
  finally show ?thesis .
qed

lemma negative_distance_singletons_witness:
  "map group (snd (cluster_partition (-1) 1 [sample.make 1 1 0 0 0 1 1, sample.make 1 1 1 0 0 1 1]))
   = [1, 2]"
  using negative_distance_singletons [of "-1" 1 "[sample.make 1 1 0 0 0 1 1, sample.make 1 1 1 0 0 1 1]"]
  by (simp add: upt_rec)

text \<open>
  C15 (equivalence). The distance column of the discarded first loop equals the
  \<open>intra_dist\<close> column the clustering loop stores, on every row but the first of each
  (tracker, session) sub-frame: the first loop's work is recomputed by the second.
\<close>

theorem positioning_distances_intra_dist:
  "map dist_col (positioning_distances df)
     = concat (map (\<lambda>p. map intra_dist (tl (snd (cluster_partition D fs p))))
                 (tracker_session_parts tracker session df))"
  by (simp add: positioning_distances_def map_concat comp_def shift_distances_intra_dist [of _ D fs])

text \<open>
  C14 (type). Every row of the distance frame is well formed: it is a row of the input,
  its shifted coordinates are those of the row just before it among the rows of its
  (tracker, session), and its \<open>dist\<close> is the non-negative Euclidean distance between them.
\<close>

theorem positioning_distances_wf:
  assumes "r \<in> set (positioning_distances df)"
  shows "(let part = filter (\<lambda>q. tracker q = tracker r \<and> session q = session r) df in
          \<exists>i. Suc i < length part \<and> part ! Suc i = sample.truncate r
             \<and> x_shifted r = x (part ! i) \<and> y_shifted r = y (part ! i))
         \<and> dist_col r = euclid (x r) (y r) (x_shifted r) (y_shifted r) \<and> 0 \<le> dist_col r"
proof -
  obtain t s where p: "r \<in> set (shift_distances (filter (\<lambda>q. tracker q = t \<and> session q = s) df))"
    using assms by (auto simp: positioning_distances_def tracker_session_parts_product)
  let ?p = "filter (\<lambda>q. tracker q = t \<and> session q = s) df"
  obtain i where i: "Suc i < length ?p"
    and r: "r = sample.extend (?p ! Suc i) (drow.fields (x (?p ! i)) (y (?p ! i))
               (euclid (x (?p ! Suc i)) (y (?p ! Suc i)) (x (?p ! i)) (y (?p ! i))))"
    using shift_distances_mem [OF p] by blast
  have "?p ! Suc i \<in> set ?p" using i by (rule nth_mem)
  then have ts: "tracker r = t" "session r = s" by (simp_all add: r sample.defs)
  have tr: "sample.truncate r = ?p ! Suc i" by (simp add: r)
  have sh: "x_shifted r = x (?p ! i)" "y_shifted r = y (?p ! i)"
    and d: "dist_col r = euclid (x r) (y r) (x_shifted r) (y_shifted r)"
    by (simp_all add: r sample.extend_def drow.fields_def)
  have "Suc i < length ?p \<and> ?p ! Suc i = sample.truncate r
      \<and> x_shifted r = x (?p ! i) \<and> y_shifted r = y (?p ! i)"
    using i tr sh by simp
  then have "\<exists>j. Suc j < length ?p \<and> ?p ! Suc j = sample.truncate r
      \<and> x_shifted r = x (?p ! j) \<and> y_shifted r = y (?p ! j)" ..
  moreover have "0 \<le> dist_col r" by (simp only: d euclid_nonneg)
  ultimately show ?thesis unfolding Let_def ts using d by blast
qed

theorem positioning_distances_wf_witness:
  "sample.extend (sample.make 1 1 1 3 4 1 1) (drow.fields 0 0 (euclid 3 4 0 0))
     \<in> set (positioning_distances [sample.make 1 1 0 0 0 1 1, sample.make 1 1 1 3 4 1 1])
   \<and> x_shifted (sample.extend (sample.make 1 1 1 3 4 1 1) (drow.fields 0 0 (euclid 3 4 0 0))) = 0
   \<and> 0 \<le> dist_col (sample.extend (sample.make 1 1 1 3 4 1 1) (drow.fields 0 0 (euclid 3 4 0 0)))"
proof -
  have m: "sample.extend (sample.make 1 1 1 3 4 1 1) (drow.fields 0 0 (euclid 3 4 0 0))
     \<in> set (positioning_distances [sample.make 1 1 0 0 0 1 1, sample.make 1 1 1 3 4 1 1])"
    by (simp add: positioning_distances_def tracker_session_parts_def partition_by_def
        shift_distances_def sample.defs)
  with positioning_distances_wf [OF m] show ?thesis by (simp add: sample.defs drow.defs)
qed

end
