(* ===== verification/Cluster_Classifier.thy ===== *)
theory Cluster_Classifier
  imports Cluster_Builder
begin

text \<open>
  ClusterClassifier: the first part of \<open>tag_clusters\<close> in
  \<open>_stopsAndTransitions.py\<close> (lines 268--297). The time delta of each row is read back
  from its string form (\<open>str(timedelta)\<close>, first match of \<open>(..:..:..)\<close>, NaT read as
  \<open>00:00:00\<close>), the largest delta of each cluster id is spread over the cluster's rows
  (\<open>groupby(['group']).transform(max)\<close>, over the whole frame) and every row is
  labelled \<open>stop\<close> when that maximum reaches the \<open>duration\<close> parameter. The theory
  proves that, for one partition whose timestamps are sorted and span less than a day,
  the labels are the spec's (section 4.2), and shows where the code departs from it.
\<close>

section \<open>Rows and labels\<close>

datatype label = Stop | Transition

text \<open>
  A row of \<open>df_dist\<close> after line 297: the columns of \<open>generate_positioning_clusters\<close>
  plus \<open>time_diff2\<close>, \<open>max_duration\<close> and \<open>type\<close>. (Line 274 drops the raw
  \<open>time_diff\<close> column; the model keeps it in the record but no later stage reads it.)
\<close>

record trow = crow +
  time_diff2 :: seconds
  max_duration :: seconds
  rtype :: label

section \<open>Operations\<close>

text \<open>
  Lines 269--273. pandas prints a timedelta of \<open>d\<close> seconds as
  \<open>"<d div 86400> days HH:MM:SS"\<close> with \<open>HH:MM:SS\<close> the time of day
  \<open>d mod 86400\<close> (also for negative \<open>d\<close>: \<open>-1 days +23:59:55\<close>); the regular
  expression keeps the time of day only. NaT has no match and is filled with
  \<open>00:00:00\<close>.
\<close>

definition hms_seconds :: "seconds option \<Rightarrow> seconds" where
  "hms_seconds td = (case td of None \<Rightarrow> 0 | Some d \<Rightarrow> d mod 86400)"

text \<open>
  Line 277, \<open>df_dist.groupby(['group'])['time_diff2'].transform(max)\<close>: the largest
  \<open>time_diff2\<close> among all rows of the frame with the given id. Every
  \<open>time_diff2\<close> is at least 0, so starting the fold at 0 gives the group's maximum
  (lemma \<open>group_max_Max\<close>).
\<close>

definition group_max :: "crow list \<Rightarrow> nat \<Rightarrow> seconds" where
  "group_max df g = fold max (map (\<lambda>r. hms_seconds (time_diff r)) (filter (\<lambda>r. group r = g) df)) 0"

text \<open>Lines 290--294: \<open>'stop' if row >= stop else 'transition'\<close>.\<close>

definition tag_type :: "seconds \<Rightarrow> seconds \<Rightarrow> label" where
  "tag_type stop md = (if stop \<le> md then Stop else Transition)"

definition tag_row :: "seconds \<Rightarrow> crow list \<Rightarrow> crow \<Rightarrow> trow" where
  "tag_row stop df r =
     crow.extend r (trow.fields (hms_seconds (time_diff r)) (group_max df (group r))
       (tag_type stop (group_max df (group r))))"

definition tag_types :: "seconds \<Rightarrow> crow list \<Rightarrow> trow list" where
  "tag_types stop df_dist = map (tag_row stop df_dist) df_dist"

section \<open>Abstract specification\<close>

text \<open>
  Spec section 4.2: a cluster's \<open>max_delta\<close> is the largest
  \<open>timestamp(member) - timestamp(base_point)\<close>, and the cluster is a stop iff
  \<open>max_delta >= T\<close>.
\<close>

definition spec_max_delta :: "sample list \<Rightarrow> seconds" where
  "spec_max_delta c = Max (set (map (\<lambda>s. timestamp s - timestamp (hd c)) c))"

definition spec_label :: "seconds \<Rightarrow> sample list \<Rightarrow> label" where
  "spec_label T c = (if T \<le> spec_max_delta c then Stop else Transition)"

definition spec_labelled :: "seconds \<Rightarrow> sample list list \<Rightarrow> (sample \<times> label) list" where
  "spec_labelled T cs = concat (map (\<lambda>c. map (\<lambda>s. (s, spec_label T c)) c) cs)"

section \<open>Lemmas\<close>

lemma tag_row_fields [simp]:
  "sample.truncate (tag_row stop df r) = sample.truncate r"
  "group (tag_row stop df r) = group r"
  "time_diff2 (tag_row stop df r) = hms_seconds (time_diff r)"
  "max_duration (tag_row stop df r) = group_max df (group r)"
  "rtype (tag_row stop df r) = tag_type stop (group_max df (group r))"
  by (simp_all add: tag_row_def crow.defs trow.defs sample.defs)

lemma tag_row_sample_fields [simp]:
  "tracker (tag_row stop df r) = tracker r" "session (tag_row stop df r) = session r"
  "timestamp (tag_row stop df r) = timestamp r"
  by (simp_all add: tag_row_def crow.defs)

lemma hms_seconds_nonneg [simp]: "0 \<le> hms_seconds td"
  by (simp add: hms_seconds_def split: option.splits)

lemma fold_max_eq_Max: "fold max xs (a::'a::linorder) = Max (set (a # xs))"
  by (rule Max.set_eq_fold [symmetric])

lemma fold_max_ge_init: "(a::'a::linorder) \<le> fold max xs a"
  by (simp add: fold_max_eq_Max)

lemma group_max_Max:
  assumes "r \<in> set df"
  shows "group_max df (group r) = Max ((\<lambda>r'. hms_seconds (time_diff r')) ` {r' \<in> set df. group r' = group r})"
    (is "_ = Max ?A")
proof -
  have fin: "finite ?A" by simp
  have ne: "?A \<noteq> {}" using assms by auto
  have "group_max df (group r) = Max (insert 0 ?A)"
    by (simp add: group_max_def fold_max_eq_Max image_Collect conj_commute)
  also have "\<dots> = max 0 (Max ?A)"
    by (rule Max_insert [OF fin ne])
  also have "0 \<le> Max ?A"
    using ne by (simp add: Max_ge_iff)
  then have "max 0 (Max ?A) = Max ?A" by simp
  finally show ?thesis .
qed


lemma filter_cluster_rows:
  "filter (\<lambda>t. fst (snd t) = g) (cluster_rows h c) = (if g = h then cluster_rows h c else [])"
  by (cases c) auto

lemma filter_number_clusters:
  "filter (\<lambda>t. fst (snd t) = g) (number_clusters h cs)
     = (if h \<le> g \<and> g < h + length cs then cluster_rows g (cs ! (g - h)) else [])"
proof (induction cs arbitrary: h)
  case (Cons c cs)
  show ?case
  proof (cases "g = h")
    case True
    with Cons.IH [of "Suc h"] show ?thesis by (simp add: filter_cluster_rows)
  next
    case False
    with Cons.IH [of "Suc h"] show ?thesis
      by (auto simp: filter_cluster_rows nth_Cons' Suc_diff_Suc)
  qed
qed auto

lemma cluster_rows_relabel:
  "map (\<lambda>t. (fst t, f (fst (snd t)))) (cluster_rows g c) = map (\<lambda>s. (s, f g)) c"
  by (cases c) simp_all

lemma number_clusters_relabel:
  "map (\<lambda>t. (fst t, f (fst (snd t)))) (number_clusters h cs)
     = concat (map (\<lambda>(i, c). map (\<lambda>s. (s, f i)) c) (zip [h..<h + length cs] cs))"
  by (induction cs arbitrary: h) (simp_all add: cluster_rows_relabel upt_conv_Cons del: upt_Suc)

lemma spec_clusters_nonempty: "c \<in> set (spec_clusters D p) \<Longrightarrow> c \<noteq> []"
  by (induction D p rule: spec_clusters.induct) auto

lemma spec_clusters_infix: "c \<in> set (spec_clusters D p) \<Longrightarrow> \<exists>u v. p = u @ c @ v"
proof (induction D p rule: spec_clusters.induct)
  case (2 D a rs)
  show ?case
  proof (cases "c = a # takeWhile (near_base D a) rs")
    case True
    then show ?thesis by (intro exI [of _ "[]"] exI [of _ "dropWhile (near_base D a) rs"]) simp
  next
    case False
    with "2.prems" "2.IH" obtain u v where "dropWhile (near_base D a) rs = u @ c @ v" by auto
    then have "a # rs = (a # takeWhile (near_base D a) rs @ u) @ c @ v"
      by (metis append.assoc append_Cons takeWhile_dropWhile_id)
    then show ?thesis by blast
  qed
qed simp

lemma spec_clusters_deltas:
  assumes "sorted (map timestamp p)" and "\<forall>s\<in>set p. timestamp s - timestamp (hd p) < 86400"
    and "c \<in> set (spec_clusters D p)" and "s \<in> set c"
  shows "0 \<le> timestamp s - timestamp (hd c) \<and> timestamp s - timestamp (hd c) < 86400"
proof -
  from assms(3) obtain u v where p: "p = u @ c @ v" by (blast dest: spec_clusters_infix)
  from assms(3) have c: "c \<noteq> []" by (rule spec_clusters_nonempty)
  from assms(1) p have "sorted (map timestamp c)" by (simp add: sorted_append)
  with c assms(4) have lo: "timestamp (hd c) \<le> timestamp s"
    by (cases c) auto
  from assms(1) p c have "timestamp (hd p) \<le> timestamp (hd c)"
    by (cases u; cases c) (auto simp: sorted_append)
  moreover from assms(2) p assms(4) have "timestamp s - timestamp (hd p) < 86400" by auto
  ultimately show ?thesis using lo by linarith
qed

lemma cluster_rows_max:
  assumes "c \<noteq> []" and "\<forall>s\<in>set c. 0 \<le> timestamp s - timestamp (hd c) \<and> timestamp s - timestamp (hd c) < 86400"
  shows "fold max (map (\<lambda>t. hms_seconds (snd (snd t))) (cluster_rows g c)) 0 = spec_max_delta c"
proof -
  obtain a m where c: "c = a # m" using assms(1) by (cases c) auto
  have "map (\<lambda>s. hms_seconds (Some (timestamp s - timestamp a))) m = map (\<lambda>s. timestamp s - timestamp a) m"
    using assms(2) c by (auto simp: hms_seconds_def)
  then show ?thesis
    using c by (simp add: spec_max_delta_def fold_max_eq_Max hms_seconds_def comp_def)
qed

lemma group_max_tags:
  "group_max df g = fold max (map (\<lambda>t. hms_seconds (snd (snd t))) (filter (\<lambda>t. fst (snd t) = g) (map row_tag df))) 0"
  by (simp add: group_max_def filter_map comp_def row_tag_def)

lemma map_zip_snd: "length ks = length cs \<Longrightarrow> map (\<lambda>(i, c). F c) (zip ks cs) = map F cs"
  by (induction ks cs rule: list_induct2) simp_all


section \<open>Properties\<close>

text \<open>
  C3 (refinement). For a frame holding one (tracker, session) partition whose
  timestamps are sorted and span less than a day, every row is labelled with the spec's
  label of its cluster: \<open>Stop\<close> iff the largest delta from the cluster's base point
  reaches \<open>T\<close> (so a maximum equal to \<open>T\<close> is a stop).
\<close>

theorem classify_partition_refines_spec:
  assumes sorted: "sorted (map timestamp p)"
    and span: "\<forall>s\<in>set p. timestamp s - timestamp (hd p) < 86400"
  shows "map (\<lambda>r. (sample.truncate r, rtype r)) (tag_types T (snd (cluster_partition D fs p)))
         = spec_labelled T (spec_clusters D p)"
proof -
  let ?df = "snd (cluster_partition D fs p)"
  let ?cs = "spec_clusters D p"
  let ?G = "group_max ?df"
  let ?h = "\<lambda>t::sample \<times> nat \<times> seconds option. hms_seconds (snd (snd t))"
  have tags: "map row_tag ?df = number_clusters fs ?cs"
    using cluster_partition_tags by blast
  have "map (\<lambda>r. (sample.truncate r, rtype r)) (tag_types T ?df)
      = map (\<lambda>t. (fst t, tag_type T (?G (fst (snd t))))) (map row_tag ?df)"
    by (simp add: tag_types_def row_tag_def)
  also have "\<dots> = concat (map (\<lambda>(i, c). map (\<lambda>s. (s, tag_type T (?G i))) c)
                    (zip [fs..<fs + length ?cs] ?cs))"
    by (simp only: tags number_clusters_relabel [where f = "\<lambda>i. tag_type T (?G i)"])
  also have "\<dots> = concat (map (\<lambda>(i, c). map (\<lambda>s. (s, spec_label T c)) c)
                    (zip [fs..<fs + length ?cs] ?cs))"
  proof (rule arg_cong [where f = concat], rule map_cong [OF refl])
    fix ic
    assume "ic \<in> set (zip [fs..<fs + length ?cs] ?cs)"
    then obtain k where k: "k < length ?cs" and ic: "ic = (fs + k, ?cs ! k)"
      by (auto simp: set_zip)
    have c: "?cs ! k \<in> set ?cs" using k by simp
    have "?G (fs + k) = fold max (map ?h (filter (\<lambda>t. fst (snd t) = fs + k) (number_clusters fs ?cs))) 0"
      by (simp only: group_max_tags tags)
    also have "\<dots> = fold max (map ?h (cluster_rows (fs + k) (?cs ! k))) 0"
      using k by (simp add: filter_number_clusters)
    also have "\<dots> = spec_max_delta (?cs ! k)"
      using c spec_clusters_nonempty [OF c] spec_clusters_deltas [OF sorted span c]
      by (intro cluster_rows_max) auto
    finally show "(\<lambda>(i, c). map (\<lambda>s. (s, tag_type T (?G i))) c) ic
                = (\<lambda>(i, c). map (\<lambda>s. (s, spec_label T c)) c) ic"
      using ic by (simp add: spec_label_def tag_type_def)
  qed
  also have "\<dots> = spec_labelled T ?cs"
    by (simp add: spec_labelled_def map_zip_snd)
  finally show ?thesis .
qed

lemma classify_partition_refines_spec_witness:
  "map (\<lambda>r. (sample.truncate r, rtype r))
     (tag_types 10 (snd (cluster_partition 1000 1 [sample.make 1 1 0 0 0 1 1, sample.make 1 1 10 0 0 1 1])))
   = [(sample.make 1 1 0 0 0 1 1, Stop), (sample.make 1 1 10 0 0 1 1, Stop)]"
proof -
  have "map (\<lambda>r. (sample.truncate r, rtype r))
     (tag_types 10 (snd (cluster_partition 1000 1 [sample.make 1 1 0 0 0 1 1, sample.make 1 1 10 0 0 1 1])))
   = spec_labelled 10 (spec_clusters 1000 [sample.make 1 1 0 0 0 1 1, sample.make 1 1 10 0 0 1 1])"
    by (rule classify_partition_refines_spec) (simp_all add: sample.defs)
  then show ?thesis
    by (simp add: spec_labelled_def spec_label_def spec_max_delta_def near_base_def pipeline_simps
        sample.defs)
qed

text \<open>
  C10 (functional). A row is labelled a stop exactly when some row of the whole frame with
  the same cluster id, of any tracker or session, has a \<open>time_diff2\<close> reaching the
  threshold: the maximum of line 277 is grouped by cluster id alone, and ids are shared
  across partitions (C13), so one partition's stop can relabel another partition's row.
\<close>

theorem classify_leaks_across_partitions:
  assumes "r \<in> set df"
  shows "rtype (tag_row T df r) = Stop
     \<longleftrightarrow> (\<exists>r'\<in>set df. group r' = group r \<and> T \<le> hms_seconds (time_diff r'))"
proof -
  let ?A = "(\<lambda>r'. hms_seconds (time_diff r')) ` {r' \<in> set df. group r' = group r}"
  have "finite ?A" "?A \<noteq> {}" using assms by auto
  then have "T \<le> Max ?A \<longleftrightarrow> (\<exists>a\<in>?A. T \<le> a)" by (rule Max_ge_iff)
  then show ?thesis
    by (auto simp: group_max_Max [OF assms] tag_type_def)
qed

lemma classify_leaks_across_partitions_witness:
  "rtype (tag_row 10 (generate_positioning_clusters 1000
      [sample.make 1 1 0 0 0 1 1, sample.make 1 1 20 0 0 1 1, sample.make 2 1 0 0 0 1 1])
      (mk_crow 1 (sample.make 2 1 0 0 0 1 1) 0 0 None)) = Stop
   \<and> spec_label 10 [sample.make 2 1 0 0 0 1 1] = Transition"
proof -
  let ?df = "generate_positioning_clusters 1000
      [sample.make 1 1 0 0 0 1 1, sample.make 1 1 20 0 0 1 1, sample.make 2 1 0 0 0 1 1]"
  have df: "?df = [mk_crow 1 (sample.make 1 1 0 0 0 1 1) 0 0 None,
      mk_crow 1 (sample.make 1 1 20 0 0 1 1) 0 0 (Some 20), mk_crow 1 (sample.make 2 1 0 0 0 1 1) 0 0 None]"
    by (simp add: generate_positioning_clusters_def tracker_session_parts_def partition_by_def
        pipeline_simps cb_first_def cb_step_def sample.defs)
  have r: "mk_crow 1 (sample.make 2 1 0 0 0 1 1) 0 0 None \<in> set ?df" by (simp add: df)
  have "\<exists>r'\<in>set ?df. group r' = group (mk_crow 1 (sample.make 2 1 0 0 0 1 1) 0 0 None)
      \<and> 10 \<le> hms_seconds (time_diff r')"
    by (simp add: df hms_seconds_def)
  with classify_leaks_across_partitions [OF r] show ?thesis
    by (simp add: spec_label_def spec_max_delta_def)
qed

text \<open>
  C11 (functional). Labels are blind to whole days: adding any number of days to the
  delta of any row changes no label, because \<open>time_diff2\<close> keeps only the time of day of
  the delta (a tracker that stays put for a day and 5 seconds is a transition with
  \<open>T = 10\<close>), where the spec compares the full \<open>max_delta\<close> with the threshold.
\<close>

theorem classify_wraps_at_one_day:
  "map rtype (tag_types T (map (\<lambda>r. r\<lparr>time_diff := map_option (\<lambda>d. d + 86400 * k r) (time_diff r)\<rparr>) df))
   = map rtype (tag_types T df)"
proof -
  let ?sh = "\<lambda>r::crow. r\<lparr>time_diff := map_option (\<lambda>d. d + 86400 * k r) (time_diff r)\<rparr>"
  have h: "hms_seconds (map_option (\<lambda>d. d + 86400 * k r) (time_diff r)) = hms_seconds (time_diff r)" for r
    by (cases "time_diff r") (simp_all add: hms_seconds_def)
  have g: "group_max (map ?sh df) = group_max df"
    by (rule ext) (simp add: group_max_def filter_map comp_def h)
  show ?thesis by (simp add: tag_types_def comp_def g)
qed


end
