(* ===== verification/Block_Merger.thy ===== *)
theory Block_Merger
  imports Cluster_Classifier
begin

text \<open>
  BlockMerger: the second and third parts of \<open>tag_clusters\<close> in
  \<open>_stopsAndTransitions.py\<close>. Lines 310--331 number blocks inside every (tracker,
  session) sub-frame with \<open>(type.shift(1) != type).astype(int).cumsum()\<close>: a new block
  starts at the first row and at every change of label. Lines 337--372 split every
  sub-frame again by block (over the frame-wide list \<open>df_dur.block.unique()\<close>) and add
  \<open>delta\<close>, the time since the previous row of the same block (0 on a block's first
  row). The theory proves that blocks are exactly the maximal runs of one label, that
  the deltas of a block add up to its span, and that no row is lost.
\<close>

section \<open>Rows\<close>

record brow = trow +
  block :: nat

record drow = brow +
  delta :: seconds

section \<open>Operations\<close>

text \<open>
  Line 328 on one sub-frame: \<open>prev\<close> is the label of the row above (\<open>None\<close> before
  the first row, where \<open>shift(1)\<close> gives NaN and the comparison is true) and \<open>b\<close> the
  running sum.
\<close>

fun assign_blocks :: "label option \<Rightarrow> nat \<Rightarrow> trow list \<Rightarrow> brow list" where
  "assign_blocks prev b [] = []"
| "assign_blocks prev b (r # rs) =
     (let b' = (if prev \<noteq> Some (rtype r) then Suc b else b)
      in trow.extend r (brow.fields b') # assign_blocks (Some (rtype r)) b' rs)"

text \<open>Lines 310--331: the tracker/session loops around line 328.\<close>

definition tag_blocks :: "trow list \<Rightarrow> brow list" where
  "tag_blocks df_group = concat (map (assign_blocks None 0) (tracker_session_parts tracker session df_group))"

text \<open>
  Line 369 on one block: \<open>(timestamp - timestamp.shift()).fillna(0)\<close>, the
  difference to the previous row of the block.
\<close>

fun add_delta :: "seconds option \<Rightarrow> brow list \<Rightarrow> drow list" where
  "add_delta prev [] = []"
| "add_delta prev (r # rs) =
     brow.extend r (drow.fields (case prev of None \<Rightarrow> 0 | Some t \<Rightarrow> timestamp r - t))
     # add_delta (Some (timestamp r)) rs"

text \<open>Lines 339--366: the tracker, session and block loops, blocks from the whole frame.\<close>

definition block_parts :: "brow list \<Rightarrow> brow list list" where
  "block_parts df_dur =
     concat (map (partition_by block (unique (map block df_dur))) (tracker_session_parts tracker session df_dur))"

text \<open>\<open>tag_clusters\<close> as a whole: labels, blocks, deltas.\<close>

definition tag_clusters :: "seconds \<Rightarrow> crow list \<Rightarrow> drow list" where
  "tag_clusters stop df_dist =
     concat (map (add_delta None) (block_parts (tag_blocks (tag_types stop df_dist))))"

section \<open>Lemmas\<close>

lemma assign_blocks_truncate [simp]: "map trow.truncate (assign_blocks prev b rs) = rs"
  by (induction rs arbitrary: prev b) (simp_all add: Let_def trow.defs crow.defs sample.defs)

lemma assign_blocks_fields [simp]:
  "map rtype (assign_blocks prev b rs) = map rtype rs"
  "map sample.truncate (assign_blocks prev b rs) = map sample.truncate rs"
  "map tracker (assign_blocks prev b rs) = map tracker rs"
  "map session (assign_blocks prev b rs) = map session rs"
  by (induction rs arbitrary: prev b) (simp_all add: Let_def trow.defs crow.defs sample.defs)

lemma add_delta_truncate [simp]: "map brow.truncate (add_delta prev rs) = rs"
  by (induction rs arbitrary: prev) (simp_all add: brow.defs trow.defs crow.defs sample.defs)

lemma add_delta_fields [simp]:
  "map sample.truncate (add_delta prev rs) = map sample.truncate rs"
  "map timestamp (add_delta prev rs) = map timestamp rs"
  by (induction rs arbitrary: prev) (simp_all add: brow.defs trow.defs crow.defs sample.defs)


lemma brow_extend_fields [simp]:
  "block (trow.extend r (brow.fields b)) = b"
  "rtype (trow.extend r (brow.fields b)) = rtype r"
  by (simp_all add: trow.defs brow.defs)

lemma assign_blocks_hd:
  "rs \<noteq> [] \<Longrightarrow> block (hd (assign_blocks prev b rs)) = (if prev \<noteq> Some (rtype (hd rs)) then Suc b else b)"
  "rs \<noteq> [] \<Longrightarrow> rtype (hd (assign_blocks prev b rs)) = rtype (hd rs)"
  by (cases rs; simp add: Let_def)+

lemma assign_blocks_Nil_iff [simp]: "assign_blocks prev b rs = [] \<longleftrightarrow> rs = []"
  by (cases rs) (simp_all add: Let_def)

lemma assign_blocks_steps:
  "successively (\<lambda>r r'. block r' = (if rtype r' = rtype r then block r else Suc (block r)))
     (assign_blocks prev b rs)"
proof (induction rs arbitrary: prev b)
  case (Cons r rs)
  then show ?case
    by (cases "rs = []") (auto simp: Let_def successively_Cons assign_blocks_hd)
qed simp

lemma rtype_trow_truncate [simp]: "rtype (trow.truncate r) = rtype r"
  by (simp add: trow.defs)

lemma crow_truncate_brow [simp]: "crow.truncate (brow.truncate r) = crow.truncate r"
  by (simp add: brow.defs crow.defs)

lemma crow_truncate_trow [simp]: "crow.truncate (trow.truncate r) = crow.truncate r"
  by (simp add: trow.defs crow.defs)

lemma crow_truncate_tag_row [simp]: "crow.truncate (tag_row stop df r) = crow.truncate r"
  by (simp add: tag_row_def crow.defs)



lemma drow_extend_fields [simp]:
  "delta (brow.extend r (drow.fields d)) = d"
  "timestamp (brow.extend r (drow.fields d)) = timestamp r"
  by (simp_all add: brow.defs drow.defs)

lemma add_delta_Some_steps:
  "map delta (add_delta (Some t) rs) = map2 (\<lambda>a b. b - a) (t # map timestamp rs) (map timestamp rs)"
  by (induction rs arbitrary: t) simp_all

lemma add_delta_Some_sum:
  "rs \<noteq> [] \<Longrightarrow> sum_list (map delta (add_delta (Some t) rs)) = timestamp (last rs) - t"
proof (induction rs arbitrary: t)
  case (Cons r rs)
  then show ?case by (cases "rs = []") simp_all
qed simp

lemma mset_block_parts: "mset (concat (block_parts df)) = mset df"
proof -
  have "mset (concat (block_parts df)) = mset (concat (tracker_session_parts tracker session df))"
    unfolding block_parts_def
  proof (rule mset_concat_concat_map, rule mset_concat_partition_by)
    fix p assume "p \<in> set (tracker_session_parts tracker session df)"
    then have "set p \<subseteq> set (concat (tracker_session_parts tracker session df))" by auto
    also have "\<dots> = set df" using mset_tracker_session_parts [of tracker session df]
      by (metis set_mset_mset)
    finally show "set (map block p) \<subseteq> set (unique (map block df))" by auto
  qed simp
  also have "\<dots> = mset df" by (rule mset_tracker_session_parts)
  finally show ?thesis .
qed

lemma tag_blocks_truncate:
  "map trow.truncate (tag_blocks df) = concat (tracker_session_parts tracker session df)"
  by (simp add: tag_blocks_def map_concat comp_def)

lemma tag_types_truncate [simp]: "map crow.truncate (tag_types stop df) = map crow.truncate df"
  by (simp add: tag_types_def)

lemma mset_tag_clusters_blocks:
  "mset (map brow.truncate (tag_clusters stop df)) = mset (tag_blocks (tag_types stop df))"
proof -
  have "map brow.truncate (tag_clusters stop df) = concat (block_parts (tag_blocks (tag_types stop df)))"
    by (simp add: tag_clusters_def map_concat comp_def)
  then show ?thesis by (simp only: mset_block_parts)
qed

lemma mset_tag_clusters:
  "mset (map crow.truncate (tag_clusters stop df)) = mset (map crow.truncate df)"
proof -
  let ?B = "tag_blocks (tag_types stop df)"
  have "map crow.truncate (tag_clusters stop df)
      = map crow.truncate (map brow.truncate (tag_clusters stop df))"
    by simp
  then have "mset (map crow.truncate (tag_clusters stop df)) = image_mset crow.truncate (mset ?B)"
    by (simp only: mset_map mset_tag_clusters_blocks [symmetric])
  also have "\<dots> = image_mset crow.truncate (mset (map trow.truncate ?B))"
    by (simp add: image_mset.compositionality comp_def)
  also have "\<dots> = image_mset crow.truncate (mset (tag_types stop df))"
    by (simp only: tag_blocks_truncate mset_tracker_session_parts)
  also have "\<dots> = mset (map crow.truncate df)"
    by (simp only: mset_map [symmetric] tag_types_truncate)
  finally show ?thesis .
qed

lemma assign_blocks_uniform:
  "a \<in> set (assign_blocks None 0 p) \<Longrightarrow> b \<in> set (assign_blocks None 0 p) \<Longrightarrow> block a = block b \<Longrightarrow>
   rtype a = rtype b"
  by (rule successively_steps_uniform [OF assign_blocks_steps])

lemma tag_blocks_uniform:
  assumes "a \<in> set (tag_blocks df)" "b \<in> set (tag_blocks df)"
    and "tracker a = tracker b" "session a = session b" "block a = block b"
  shows "rtype a = rtype b"
proof -
  let ?F = "\<lambda>t s. filter (\<lambda>r. tracker r = t \<and> session r = s) df"
  have tb: "tag_blocks df = concat (map (\<lambda>(t, s). assign_blocks None 0 (?F t s))
      (List.product (unique (map tracker df)) (unique (map session df))))"
    by (simp add: tag_blocks_def tracker_session_parts_product comp_def split_def)
  have part: "r \<in> set (assign_blocks None 0 (?F t s)) \<Longrightarrow> tracker r = t \<and> session r = s" for r t s
  proof -
    assume r: "r \<in> set (assign_blocks None 0 (?F t s))"
    have "tracker r \<in> set (map tracker (assign_blocks None 0 (?F t s)))"
      and "session r \<in> set (map session (assign_blocks None 0 (?F t s)))"
      using r by (simp_all only: set_map imageI)
    then have "tracker r \<in> set (map tracker (?F t s))" and "session r \<in> set (map session (?F t s))"
      by (simp_all only: assign_blocks_fields)
    then show ?thesis by auto
  qed
  have src: "r \<in> set (tag_blocks df) \<Longrightarrow>
      \<exists>t s. r \<in> set (assign_blocks None 0 (?F t s))" for r
  proof -
    assume "r \<in> set (tag_blocks df)"
    then obtain ts where "r \<in> set ((\<lambda>(t, s). assign_blocks None 0 (?F t s)) ts)"
      unfolding tb by (simp only: set_concat set_map) blast
    then show ?thesis by (cases ts) auto
  qed
  obtain t s where a: "a \<in> set (assign_blocks None 0 (?F t s))"
    using src [OF assms(1)] by blast
  obtain t' s' where b: "b \<in> set (assign_blocks None 0 (?F t' s'))"
    using src [OF assms(2)] by blast
  have "t' = t" "s' = s" using part [OF a] part [OF b] assms(3,4) by simp_all
  then have b': "b \<in> set (assign_blocks None 0 (?F t s))" using b by simp
  show ?thesis by (rule assign_blocks_uniform [OF a b' assms(5)])
qed

section \<open>Properties\<close>

text \<open>
  Block ids in a sub-frame: the first row is in block 1, and each
  later row stays in the block of the row above when it has the same label and
  starts the next block when the label changes.
\<close>

theorem assign_blocks_numbering:
  "successively (\<lambda>r r'. block r' = (if rtype r' = rtype r then block r else Suc (block r)))
     (assign_blocks None 0 p)
   \<and> map block (take 1 (assign_blocks None 0 p)) = map (\<lambda>_. 1) (take 1 p)"
  using assign_blocks_steps [of None 0 p] by (cases p) (simp_all add: Let_def)

text \<open>
  C2 (refinement). A sub-frame's blocks are exactly the maximal runs of consecutive
  rows with the same label: a block spans one or more clusters but one label, block
  boundaries lie exactly at label changes, and the runs are numbered 1, 2, 3, ... in
  order, so two runs never share a block id (spec section 4.3).
\<close>

theorem blocks_are_label_runs:
  "map (map trow.truncate) (runs_by block (assign_blocks None 0 p)) = runs_by rtype p
   \<and> map (block \<circ> hd) (runs_by block (assign_blocks None 0 p)) = [1..<Suc (length (runs_by rtype p))]"
proof -
  let ?A = "assign_blocks None 0 p"
  have "successively (\<lambda>a b. block a = block b \<longleftrightarrow> rtype a = rtype b) ?A"
    by (rule successively_mono [OF assign_blocks_steps]) auto
  then have eq: "runs_by block ?A = runs_by rtype ?A" by (rule runs_by_cong)
  also have "\<dots> = runs_by (rtype \<circ> trow.truncate) ?A"
    by (simp add: comp_def)
  finally have "map (map trow.truncate) (runs_by block ?A)
      = map (map trow.truncate) (runs_by (rtype \<circ> trow.truncate) ?A)"
    by simp
  also have "\<dots> = runs_by rtype (map trow.truncate ?A)"
    by (rule runs_by_map [symmetric])
  finally have runs: "map (map trow.truncate) (runs_by block ?A) = runs_by rtype p" by simp
  have "map (block \<circ> hd) (runs_by block ?A) = [1..<Suc (length (runs_by rtype p))]"
  proof (cases p)
    case Nil
    then show ?thesis by simp
  next
    case (Cons r rs)
    have ne: "?A \<noteq> []" using Cons by (simp add: Let_def)
    have h1: "block (hd ?A) = 1" using Cons by (simp add: Let_def)
    have l: "length (runs_by rtype ?A) = length (runs_by rtype p)"
      using arg_cong [OF runs, of length] eq by simp
    have "map (block \<circ> hd) (runs_by rtype ?A) = [1..<1 + length (runs_by rtype ?A)]"
      using runs_by_heads [OF assign_blocks_steps ne] h1 by (simp only:)
    then show ?thesis by (simp only: eq l) simp
  qed
  with runs show ?thesis by simp
qed

text \<open>
  Within a block the deltas add up to the block's span: the last
  timestamp minus the first.
\<close>

theorem add_delta_sum:
  "sum_list (map delta (add_delta None bp))
     = (if bp = [] then 0 else timestamp (last bp) - timestamp (hd bp))"
proof (cases bp)
  case (Cons r rs)
  then show ?thesis by (cases "rs = []") (simp_all add: add_delta_Some_sum)
qed simp

text \<open>
  C36 (functional). \<open>delta\<close> is the time since the previous row of the block (0 on
  the block's first row), not the time elapsed since the block's start that the spec
  describes (sections 3 and 4.3).
\<close>

theorem add_delta_steps:
  "map delta (add_delta None bp)
     = map (\<lambda>_. 0) (take 1 bp) @ map2 (\<lambda>a b. b - a) (map timestamp bp) (tl (map timestamp bp))"
  by (cases bp) (simp_all add: add_delta_Some_steps)

text \<open>
  \<open>tag_clusters\<close> keeps every row of the clustered frame exactly once,
  with the columns of \<open>generate_positioning_clusters\<close> unchanged.
\<close>

theorem tag_clusters_covers:
  "mset (map crow.truncate (tag_clusters stop df)) = mset (map crow.truncate df)"
  by (rule mset_tag_clusters)

end
