(* ===== verification/Block_Summarizer.thy ===== *)
theory Block_Summarizer
  imports Block_Merger
begin

text \<open>
  BlockSummarizer: \<open>get_stops_and_transitions\<close> in \<open>_stopsAndTransitions.py\<close>
  (lines 404--502). Every row gets its block's span (last minus first timestamp,
  computed per tracker and session); stop rows are reduced to one record per
  (tracker, session, block) with the smallest phase, the first quantile, the first and
  last timestamp, the centroid and the sample standard deviation of the coordinates;
  transition rows are kept one per sample; the two are appended and sorted by
  (tracker, session, block, timestamp), and missing cells read as 0.
\<close>

section \<open>Output rows\<close>

text \<open>One row of the merged stop frame (lines 490--493).\<close>

record stop_rec =
  sr_tracker :: tracker_id
  sr_session :: session_id
  sr_block :: nat
  sr_phase :: int
  sr_quantile :: int
  sr_max_duration :: seconds
  sr_timestamp :: seconds
  sr_last :: seconds
  sr_x :: real
  sr_y :: real
  sr_x_stdev :: real
  sr_y_stdev :: real

text \<open>A row of the final frame: a stop record or a kept transition row.\<close>

datatype out_row = StopRow stop_rec | TransRow drow

section \<open>Operations\<close>

definition block_key :: "'a drow_scheme \<Rightarrow> tracker_id \<times> session_id \<times> nat" where
  "block_key r = (tracker r, session r, block r)"

text \<open>Line 424 on one sub-frame: \<open>x.iat[-1] - x.iat[0]\<close> over the block's rows.\<close>

definition block_span :: "drow list \<Rightarrow> nat \<Rightarrow> seconds" where
  "block_span part b =
     (let rs = filter (\<lambda>r. block r = b) part in timestamp (last rs) - timestamp (hd rs))"

text \<open>Lines 412--429: the span written into \<open>max_duration\<close>, sub-frame by sub-frame.\<close>

definition with_block_durations :: "drow list \<Rightarrow> drow list" where
  "with_block_durations df =
     concat (map (\<lambda>part. map (\<lambda>r. r\<lparr>max_duration := block_span part (block r)\<rparr>) part)
       (tracker_session_parts tracker session df))"

text \<open>
  Lines 438--478 for one stop block: \<open>phase\<close> is the minimum over its stop rows
  (\<open>'phase': min\<close>), \<open>quantile\<close> and \<open>max_duration\<close> those of its first stop row
  (\<open>'first'\<close> after \<open>drop_duplicates\<close>), the centroid the \<open>mean\<close> and the spread the
  \<open>std\<close> of \<open>x\<close> and \<open>y\<close> over its stop rows; the timestamps are the \<open>first\<close> and
  \<open>last\<close> of all rows of the block, stops and transitions alike (lines 455--460), given
  here as \<open>rows\<close>.
\<close>

definition stop_record :: "drow list \<Rightarrow> drow list \<Rightarrow> stop_rec" where
  "stop_record rows rs =
     \<lparr>sr_tracker = tracker (hd rs), sr_session = session (hd rs), sr_block = block (hd rs),
      sr_phase = fold min (map phase rs) (phase (hd rs)), sr_quantile = quantile (hd rs),
      sr_max_duration = max_duration (hd rs),
      sr_timestamp = timestamp (hd rows), sr_last = timestamp (last rows),
      sr_x = mean (map x rs), sr_y = mean (map y rs),
      sr_x_stdev = std_sample (map x rs), sr_y_stdev = std_sample (map y rs)\<rparr>"

text \<open>The sort key of line 498.\<close>

fun out_key :: "out_row \<Rightarrow> tracker_id \<times> session_id \<times> nat \<times> seconds" where
  "out_key (StopRow s) = (sr_tracker s, sr_session s, sr_block s, sr_timestamp s)"
| "out_key (TransRow r) = (tracker r, session r, block r, timestamp r)"

definition get_stops_and_transitions :: "drow list \<Rightarrow> out_row list" where
  "get_stops_and_transitions df_dist =
     (let df_max_duration = with_block_durations df_dist;
          df_dur_fixation = filter (\<lambda>r. rtype r = Stop) df_max_duration;
          df_dur_saccades = filter (\<lambda>r. rtype r = Transition) df_max_duration;
          keys = sort (remdups (map block_key df_dur_fixation))
      in sort_key out_key
           (map (\<lambda>k. StopRow (stop_record (filter (\<lambda>r. block_key r = k) df_max_duration)
                                       (filter (\<lambda>r. block_key r = k) df_dur_fixation))) keys
            @ map TransRow df_dur_saccades))"

text \<open>Columns of the final frame after \<open>fillna(0)\<close> (lines 499--500).\<close>

fun out_type :: "out_row \<Rightarrow> label" where
  "out_type (StopRow s) = Stop"
| "out_type (TransRow r) = rtype r"

fun out_max_duration_sec :: "out_row \<Rightarrow> real" where
  "out_max_duration_sec (StopRow s) = real_of_int (sr_max_duration s)"
| "out_max_duration_sec (TransRow r) = real_of_int (max_duration r)"

fun out_xy :: "out_row \<Rightarrow> real \<times> real" where
  "out_xy (StopRow s) = (sr_x s, sr_y s)"
| "out_xy (TransRow r) = (x r, y r)"

fun out_stdev :: "out_row \<Rightarrow> real \<times> real" where
  "out_stdev (StopRow s) = (sr_x_stdev s, sr_y_stdev s)"
| "out_stdev (TransRow r) = (0, 0)"

text \<open>The key of a stop record.\<close>

definition sr_key :: "stop_rec \<Rightarrow> tracker_id \<times> session_id \<times> nat" where
  "sr_key s = (sr_tracker s, sr_session s, sr_block s)"

text \<open>The span of a block's rows, last timestamp minus first.\<close>

definition span :: "drow list \<Rightarrow> seconds" where
  "span rs = timestamp (last rs) - timestamp (hd rs)"

section \<open>Lemmas\<close>

lemma block_span_single_block:
  "filter (\<lambda>r. block r = b) part = rs \<Longrightarrow> rs \<noteq> [] \<Longrightarrow>
   block_span part b = timestamp (last rs) - timestamp (hd rs)"
  by (simp add: block_span_def)


lemma block_key_upd [simp]: "block_key (r\<lparr>max_duration := v\<rparr>) = block_key r"
  by (simp add: block_key_def)

lemma tracker_session_parts_uniform:
  "part \<in> set (tracker_session_parts tr se df) \<Longrightarrow> r \<in> set part \<Longrightarrow> r' \<in> set part \<Longrightarrow>
   tr r = tr r' \<and> se r = se r'"
  by (auto simp: tracker_session_parts_def partition_by_def)

lemma filter_ts_with_block_durations:
  "filter (\<lambda>r. tracker r = t \<and> session r = s) (with_block_durations df)
     = map (\<lambda>r. r\<lparr>max_duration := block_span (filter (\<lambda>r. tracker r = t \<and> session r = s) df) (block r)\<rparr>)
         (filter (\<lambda>r. tracker r = t \<and> session r = s) df)"
proof -
  let ?F = "\<lambda>t' s'. filter (\<lambda>r::drow. tracker r = t' \<and> session r = s') df"
  let ?g = "\<lambda>t' s'. map (\<lambda>r. r\<lparr>max_duration := block_span (?F t' s') (block r)\<rparr>) (?F t' s')"
  have wbd: "with_block_durations df
      = concat (map (\<lambda>(t', s'). ?g t' s') (List.product (unique (map tracker df)) (unique (map session df))))"
    by (simp add: with_block_durations_def tracker_session_parts_product comp_def split_def)
  have "filter (\<lambda>r. tracker r = t \<and> session r = s) (with_block_durations df)
      = (if t \<in> set (unique (map tracker df)) \<and> s \<in> set (unique (map session df)) then ?g t s else [])"
  proof -
    have "filter (\<lambda>r. tracker r = t \<and> session r = s)
        (concat (map (\<lambda>(t', s'). ?g t' s') (List.product (unique (map tracker df)) (unique (map session df)))))
      = (if t \<in> set (unique (map tracker df)) \<and> s \<in> set (unique (map session df)) then ?g t s else [])"
      by (rule filter_concat_product) auto
    then show ?thesis by (simp only: wbd)
  qed
  also have "\<dots> = ?g t s"
    by (auto simp: filter_empty_conv)
  finally show ?thesis .
qed

lemma filter_key_with_block_durations:
  "filter (\<lambda>r. block_key r = k) (with_block_durations df)
     = map (\<lambda>r. r\<lparr>max_duration := span (filter (\<lambda>r. block_key r = k) df)\<rparr>) (filter (\<lambda>r. block_key r = k) df)"
proof -
  obtain t s b where k: "k = (t, s, b)" by (cases k) auto
  let ?TS = "\<lambda>r::drow. tracker r = t \<and> session r = s"
  let ?K = "\<lambda>r::drow. block_key r = k"
  let ?P = "filter ?TS df"
  have sub: "filter ?K xs = filter ?K (filter ?TS xs)" for xs :: "drow list"
    by (simp add: k block_key_def conj_commute conj_left_commute)
  have blk: "filter (\<lambda>r. block r = b) ?P = filter ?K df"
    by (simp add: k block_key_def conj_commute conj_left_commute)
  have "filter ?K (with_block_durations df)
      = filter ?K (map (\<lambda>r. r\<lparr>max_duration := block_span ?P (block r)\<rparr>) ?P)"
    by (simp only: sub [of "with_block_durations df"] filter_ts_with_block_durations)
  also have "\<dots> = map (\<lambda>r. r\<lparr>max_duration := block_span ?P (block r)\<rparr>) (filter ?K ?P)"
    by (simp add: filter_map comp_def)
  also have "\<dots> = map (\<lambda>r. r\<lparr>max_duration := span (filter ?K df)\<rparr>) (filter ?K df)"
  proof -
    have "filter ?K ?P = filter ?K df" using sub [of df] by simp
    moreover have "block_span ?P (block r) = span (filter ?K df)" if "r \<in> set (filter ?K df)" for r
    proof -
      from that have "block r = b" by (simp add: k block_key_def)
      then show ?thesis using blk by (simp add: block_span_def span_def Let_def)
    qed
    ultimately show ?thesis by simp
  qed
  finally show ?thesis .
qed


lemma key_rows_with_block_durations:
  "r \<in> set (filter (\<lambda>r. block_key r = k) (with_block_durations df)) \<Longrightarrow>
   max_duration r = span (filter (\<lambda>r. block_key r = k) df)"
  by (auto simp: filter_key_with_block_durations)

lemma span_key_rows:
  "filter (\<lambda>r. block_key r = k) (with_block_durations df) \<noteq> [] \<Longrightarrow>
   timestamp (last (filter (\<lambda>r. block_key r = k) (with_block_durations df)))
     - timestamp (hd (filter (\<lambda>r. block_key r = k) (with_block_durations df)))
   = span (filter (\<lambda>r. block_key r = k) df)"
  by (simp add: filter_key_with_block_durations span_def hd_map last_map)

lemma mset_erase_with_block_durations:
  "mset (map (\<lambda>r. r\<lparr>max_duration := 0\<rparr>) (with_block_durations df))
     = mset (map (\<lambda>r. r\<lparr>max_duration := 0\<rparr>) df)"
proof -
  have "map (\<lambda>r. r\<lparr>max_duration := 0\<rparr>) (with_block_durations df)
      = map (\<lambda>r. r\<lparr>max_duration := 0\<rparr>) (concat (tracker_session_parts tracker session df))"
    by (simp add: with_block_durations_def map_concat comp_def)
  then show ?thesis by (simp only: mset_map mset_tracker_session_parts)
qed

lemma mset_filter_map_with_block_durations:
  assumes f: "\<And>r v. f (r\<lparr>max_duration := v\<rparr>) = f r"
    and g: "\<And>r v. g (r\<lparr>max_duration := v\<rparr>) = g r"
  shows "mset (map f (filter g (with_block_durations df))) = mset (map f (filter g df))"
proof -
  have er: "map f (filter g xs) = map f (filter g (map (\<lambda>r. r\<lparr>max_duration := 0\<rparr>) xs))"
    for xs :: "drow list"
    by (induction xs) (simp_all add: f g)
  have e: "image_mset (\<lambda>r. r\<lparr>max_duration := 0\<rparr>) (mset (with_block_durations df))
      = image_mset (\<lambda>r. r\<lparr>max_duration := 0\<rparr>) (mset df)"
    using mset_erase_with_block_durations [of df] by simp
  show ?thesis
    by (simp only: er [of "with_block_durations df"] er [of df] mset_map mset_filter e)
qed

lemma sr_key_stop_record:
  "rs \<noteq> [] \<Longrightarrow> sr_key (stop_record rows rs) = block_key (hd rs)"
  by (simp add: sr_key_def stop_record_def block_key_def)

lemma mset_get_stops_and_transitions:
  "mset (get_stops_and_transitions df)
     = mset (map (\<lambda>k. StopRow (stop_record (filter (\<lambda>r. block_key r = k) (with_block_durations df))
                    (filter (\<lambda>r. block_key r = k) (filter (\<lambda>r. rtype r = Stop) (with_block_durations df)))))
          (sort (remdups (map block_key (filter (\<lambda>r. rtype r = Stop) (with_block_durations df))))))
       + mset (map TransRow (filter (\<lambda>r. rtype r = Transition) (with_block_durations df)))"
  by (simp add: get_stops_and_transitions_def Let_def)

lemma stop_key_rows_nonempty:
  "k \<in> set (map block_key (filter (\<lambda>r. rtype r = Stop) xs)) \<Longrightarrow>
   filter (\<lambda>r. block_key r = k) (filter (\<lambda>r. rtype r = Stop) xs) \<noteq> []
   \<and> block_key (hd (filter (\<lambda>r. block_key r = k) (filter (\<lambda>r. rtype r = Stop) xs))) = k"
proof -
  assume "k \<in> set (map block_key (filter (\<lambda>r. rtype r = Stop) xs))"
  then have ne: "filter (\<lambda>r. block_key r = k) (filter (\<lambda>r. rtype r = Stop) xs) \<noteq> []"
    by (auto simp: filter_empty_conv)
  then have "hd (filter (\<lambda>r. block_key r = k) (filter (\<lambda>r. rtype r = Stop) xs))
      \<in> set (filter (\<lambda>r. block_key r = k) (filter (\<lambda>r. rtype r = Stop) xs))"
    by (rule hd_in_set)
  with ne show ?thesis by simp
qed


lemma get_stops_and_transitions_eq:
  "get_stops_and_transitions df
     = sort_key out_key
         (map StopRow (map (\<lambda>k. stop_record (filter (\<lambda>r. block_key r = k) (with_block_durations df))
                    (filter (\<lambda>r. block_key r = k) (filter (\<lambda>r. rtype r = Stop) (with_block_durations df))))
          (sort (remdups (map block_key (filter (\<lambda>r. rtype r = Stop) (with_block_durations df))))))
          @ map TransRow (filter (\<lambda>r. rtype r = Transition) (with_block_durations df)))"
  by (simp add: get_stops_and_transitions_def Let_def comp_def)

lemma stop_rows_of:
  "[f s. StopRow s \<leftarrow> map StopRow xs @ map TransRow ys] = map f xs"
proof -
  have "[f s. StopRow s \<leftarrow> map TransRow ys] = []" by (induction ys) simp_all
  then show ?thesis by (induction xs) simp_all
qed

lemma trans_rows_of:
  "[f r. TransRow r \<leftarrow> map StopRow xs @ map TransRow ys] = map f ys"
proof -
  have "[f r. TransRow r \<leftarrow> map StopRow xs @ zs] = [f r. TransRow r \<leftarrow> zs]" for zs
    by (induction xs) simp_all
  moreover have "[f r. TransRow r \<leftarrow> map TransRow ys] = map f ys" by (induction ys) simp_all
  ultimately show ?thesis by simp
qed

lemma set_get_stops_and_transitions:
  "set (get_stops_and_transitions df)
     = (\<lambda>k. StopRow (stop_record (filter (\<lambda>r. block_key r = k) (with_block_durations df))
                    (filter (\<lambda>r. block_key r = k) (filter (\<lambda>r. rtype r = Stop) (with_block_durations df)))))
          ` set (map block_key (filter (\<lambda>r. rtype r = Stop) (with_block_durations df)))
       \<union> TransRow ` set (filter (\<lambda>r. rtype r = Transition) (with_block_durations df))"
  using arg_cong [OF mset_get_stops_and_transitions [of df], of set_mset] by simp

lemma partitions_with_block_durations:
  "set (map (\<lambda>r. (tracker r, session r)) (with_block_durations df))
     = set (map (\<lambda>r. (tracker r, session r)) df)"
proof -
  have "mset (map (\<lambda>r. (tracker r, session r)) (filter (\<lambda>_. True) (with_block_durations df)))
      = mset (map (\<lambda>r. (tracker r, session r)) (filter (\<lambda>_. True) df))"
    by (rule mset_filter_map_with_block_durations) simp_all
  then have "mset (map (\<lambda>r. (tracker r, session r)) (with_block_durations df))
      = mset (map (\<lambda>r. (tracker r, session r)) df)" by simp
  then show ?thesis by (simp only: set_mset_mset [symmetric])
qed

lemma get_stops_and_transitions_partition:
  assumes "w \<in> set (get_stops_and_transitions df)"
  shows "(fst (out_key w), fst (snd (out_key w))) \<in> set (map (\<lambda>r. (tracker r, session r)) df)"
proof -
  let ?W = "with_block_durations df"
  from assms consider
      (stop) k where "k \<in> set (map block_key (filter (\<lambda>r. rtype r = Stop) ?W))"
        "w = StopRow (stop_record (filter (\<lambda>r. block_key r = k) ?W)
               (filter (\<lambda>r. block_key r = k) (filter (\<lambda>r. rtype r = Stop) ?W)))"
    | (trans) r where "r \<in> set (filter (\<lambda>r. rtype r = Transition) ?W)" "w = TransRow r"
    unfolding set_get_stops_and_transitions by blast
  then have "(fst (out_key w), fst (snd (out_key w))) \<in> set (map (\<lambda>r. (tracker r, session r)) ?W)"
  proof cases
    case stop
    let ?S = "filter (\<lambda>r. block_key r = k) (filter (\<lambda>r. rtype r = Stop) ?W)"
    have "?S \<noteq> []" using stop_key_rows_nonempty [OF stop(1)] by blast
    then have "hd ?S \<in> set ?S" by (rule hd_in_set)
    then have "hd ?S \<in> set ?W" by simp
    then have "(\<lambda>r. (tracker r, session r)) (hd ?S) \<in> (\<lambda>r. (tracker r, session r)) ` set ?W"
      by (rule imageI)
    then show ?thesis using stop(2) by (simp add: stop_record_def)
  next
    case trans
    then have "r \<in> set ?W" by simp
    then have "(\<lambda>r. (tracker r, session r)) r \<in> (\<lambda>r. (tracker r, session r)) ` set ?W"
      by (rule imageI)
    then show ?thesis using trans(2) by simp
  qed
  then show ?thesis by (simp only: partitions_with_block_durations)
qed

text \<open>
  C4 (stop duration is the block's span). Every stop record of the output carries as
  \<open>max_duration\<close> exactly its \<open>last\<close> minus its first \<open>timestamp\<close>: the span written
  per tracker and session in step 1 is the span read back in step 2.
\<close>

theorem stop_duration_is_span:
  assumes "StopRow s \<in> set (get_stops_and_transitions df)"
  shows "sr_max_duration s = sr_last s - sr_timestamp s"
proof -
  let ?W = "with_block_durations df"
  obtain k where kin: "k \<in> set (map block_key (filter (\<lambda>r. rtype r = Stop) ?W))"
    and s: "s = stop_record (filter (\<lambda>r. block_key r = k) ?W)
                 (filter (\<lambda>r. block_key r = k) (filter (\<lambda>r. rtype r = Stop) ?W))"
    using assms by (auto simp: set_get_stops_and_transitions)
  let ?S = "filter (\<lambda>r. block_key r = k) (filter (\<lambda>r. rtype r = Stop) ?W)"
  have ne: "?S \<noteq> []" using stop_key_rows_nonempty [OF kin] by blast
  then have hdS: "hd ?S \<in> set (filter (\<lambda>r. block_key r = k) ?W)"
    using hd_in_set [OF ne] by auto
  then have "filter (\<lambda>r. block_key r = k) ?W \<noteq> []" by (metis empty_iff empty_set)
  then show ?thesis
    using s key_rows_with_block_durations [OF hdS] span_key_rows
    by (simp add: stop_record_def)
qed

text \<open>
  C7 (one stop record per stop block). The stop records of the output are keyed by the
  (tracker, session, block) triples that carry a stop row, each exactly once.
\<close>

theorem stop_records_one_per_block:
  "mset [sr_key s. StopRow s \<leftarrow> get_stops_and_transitions df]
     = mset (remdups (map block_key (filter (\<lambda>r. rtype r = Stop) df)))"
proof -
  let ?W = "with_block_durations df"
  let ?keys = "sort (remdups (map block_key (filter (\<lambda>r. rtype r = Stop) ?W)))"
  have keys: "map (\<lambda>k. sr_key (stop_record (filter (\<lambda>r. block_key r = k) ?W)
                 (filter (\<lambda>r. block_key r = k) (filter (\<lambda>r. rtype r = Stop) ?W)))) ?keys = ?keys"
  proof (rule map_idI)
    fix k assume "k \<in> set ?keys"
    then have "k \<in> set (map block_key (filter (\<lambda>r. rtype r = Stop) ?W))" by (simp only: set_sort set_remdups)
    from stop_key_rows_nonempty [OF this] show "sr_key (stop_record (filter (\<lambda>r. block_key r = k) ?W)
                 (filter (\<lambda>r. block_key r = k) (filter (\<lambda>r. rtype r = Stop) ?W))) = k"
      using sr_key_stop_record by metis
  qed
  have perm: "mset [sr_key s. StopRow s \<leftarrow> sort_key out_key xs] = mset [sr_key s. StopRow s \<leftarrow> xs]"
    for xs by (simp only: mset_concat_map mset_sort)
  let ?g = "\<lambda>k. stop_record (filter (\<lambda>r. block_key r = k) ?W)
                 (filter (\<lambda>r. block_key r = k) (filter (\<lambda>r. rtype r = Stop) ?W))"
  have "mset [sr_key s. StopRow s \<leftarrow> get_stops_and_transitions df]
      = mset [sr_key s. StopRow s \<leftarrow> map StopRow (map ?g ?keys)
                 @ map TransRow (filter (\<lambda>r. rtype r = Transition) ?W)]"
    by (simp only: get_stops_and_transitions_eq perm)
  also have "\<dots> = mset (map sr_key (map ?g ?keys))"
    by (simp only: stop_rows_of)
  also have "\<dots> = mset ?keys"
    using keys by (simp only: map_map comp_def)
  also have "\<dots> = mset (remdups (map block_key (filter (\<lambda>r. rtype r = Stop) df)))"
  proof -
    have "mset (map block_key (filter (\<lambda>r. rtype r = Stop) ?W))
        = mset (map block_key (filter (\<lambda>r. rtype r = Stop) df))"
      by (rule mset_filter_map_with_block_durations) simp_all
    then have "set (map block_key (filter (\<lambda>r. rtype r = Stop) ?W))
        = set (map block_key (filter (\<lambda>r. rtype r = Stop) df))"
      by (metis set_mset_mset)
    then show ?thesis by (simp add: set_eq_iff_mset_remdups_eq [symmetric])
  qed
  finally show ?thesis .
qed


text \<open>
  C8 (transitions kept). The transition rows of the output are the transition rows of the
  input, one per sample, unchanged but for their \<open>max_duration\<close>.
\<close>

theorem transitions_kept:
  "mset [r\<lparr>max_duration := 0\<rparr>. TransRow r \<leftarrow> get_stops_and_transitions df]
     = mset (map (\<lambda>r. r\<lparr>max_duration := 0\<rparr>) (filter (\<lambda>r. rtype r = Transition) df))"
proof -
  let ?W = "with_block_durations df"
  have perm: "mset [r\<lparr>max_duration := 0\<rparr>. TransRow r \<leftarrow> sort_key out_key xs]
      = mset [r\<lparr>max_duration := 0\<rparr>. TransRow r \<leftarrow> xs]" for xs
    by (simp only: mset_concat_map mset_sort)
  have "mset [r\<lparr>max_duration := 0\<rparr>. TransRow r \<leftarrow> get_stops_and_transitions df]
      = mset (map (\<lambda>r. r\<lparr>max_duration := 0\<rparr>) (filter (\<lambda>r. rtype r = Transition) ?W))"
    by (simp only: get_stops_and_transitions_eq perm trans_rows_of)
  also have "\<dots> = mset (map (\<lambda>r. r\<lparr>max_duration := 0\<rparr>) (filter (\<lambda>r. rtype r = Transition) df))"
    by (rule mset_filter_map_with_block_durations) simp_all
  finally show ?thesis .
qed

text \<open>
  A transition row of the output carries as \<open>max_duration\<close>
  the span of its (tracker, session, block) in the input: last minus first timestamp.
\<close>

theorem transition_duration_is_span:
  assumes "TransRow r \<in> set (get_stops_and_transitions df)"
  shows "max_duration r = span (filter (\<lambda>r'. block_key r' = block_key r) df)"
proof -
  from assms have "r \<in> set (filter (\<lambda>r'. block_key r' = block_key r) (with_block_durations df))"
    by (auto simp: set_get_stops_and_transitions)
  then show ?thesis by (rule key_rows_with_block_durations)
qed


lemmas summary_eval = get_stops_and_transitions_def Let_def with_block_durations_def
  tracker_session_parts_def partition_by_def block_span_def block_key_def stop_record_def
  span_def mean_def std_sample_def drow.defs brow.defs trow.defs crow.defs sample.defs stop_rec.defs

theorem stop_duration_is_span_witness:
  "StopRow (stop_rec.make 1 1 1 1 1 4 0 4 0 0 0 0) \<in> set (get_stops_and_transitions [drow.make 1 1 0 0 0 1 1 1 0 0 None 0 0 Stop 1 0,
       drow.make 1 1 4 0 0 1 1 1 0 0 (Some 4) 4 0 Stop 1 4,
       drow.make 1 1 5 3 0 1 1 2 3 3 None 0 7 Transition 2 0,
       drow.make 1 1 6 6 0 1 1 3 6 3 None 0 7 Transition 2 1])
   \<and> sr_max_duration (stop_rec.make 1 1 1 1 1 4 0 4 0 0 0 0) = sr_last (stop_rec.make 1 1 1 1 1 4 0 4 0 0 0 0) - sr_timestamp (stop_rec.make 1 1 1 1 1 4 0 4 0 0 0 0) \<and> sr_max_duration (stop_rec.make 1 1 1 1 1 4 0 4 0 0 0 0) = 4"
  using stop_duration_is_span [of "(stop_rec.make 1 1 1 1 1 4 0 4 0 0 0 0)" "[drow.make 1 1 0 0 0 1 1 1 0 0 None 0 0 Stop 1 0,
       drow.make 1 1 4 0 0 1 1 1 0 0 (Some 4) 4 0 Stop 1 4,
       drow.make 1 1 5 3 0 1 1 2 3 3 None 0 7 Transition 2 0,
       drow.make 1 1 6 6 0 1 1 3 6 3 None 0 7 Transition 2 1]"]
  by (simp add: summary_eval)

theorem transition_duration_is_span_witness:
  "TransRow (drow.make 1 1 6 6 0 1 1 3 6 3 None 0 1 Transition 2 1) \<in> set (get_stops_and_transitions [drow.make 1 1 0 0 0 1 1 1 0 0 None 0 0 Stop 1 0,
       drow.make 1 1 4 0 0 1 1 1 0 0 (Some 4) 4 0 Stop 1 4,
       drow.make 1 1 5 3 0 1 1 2 3 3 None 0 7 Transition 2 0,
       drow.make 1 1 6 6 0 1 1 3 6 3 None 0 7 Transition 2 1])
   \<and> max_duration (drow.make 1 1 6 6 0 1 1 3 6 3 None 0 1 Transition 2 1) = span (filter (\<lambda>r'. block_key r' = block_key (drow.make 1 1 6 6 0 1 1 3 6 3 None 0 1 Transition 2 1)) [drow.make 1 1 0 0 0 1 1 1 0 0 None 0 0 Stop 1 0,
       drow.make 1 1 4 0 0 1 1 1 0 0 (Some 4) 4 0 Stop 1 4,
       drow.make 1 1 5 3 0 1 1 2 3 3 None 0 7 Transition 2 0,
       drow.make 1 1 6 6 0 1 1 3 6 3 None 0 7 Transition 2 1])
   \<and> max_duration (drow.make 1 1 6 6 0 1 1 3 6 3 None 0 1 Transition 2 1) = 1"
  using transition_duration_is_span [of "(drow.make 1 1 6 6 0 1 1 3 6 3 None 0 1 Transition 2 1)" "[drow.make 1 1 0 0 0 1 1 1 0 0 None 0 0 Stop 1 0,
       drow.make 1 1 4 0 0 1 1 1 0 0 (Some 4) 4 0 Stop 1 4,
       drow.make 1 1 5 3 0 1 1 2 3 3 None 0 7 Transition 2 0,
       drow.make 1 1 6 6 0 1 1 3 6 3 None 0 7 Transition 2 1]"]
  by (simp add: summary_eval)

end
