(* ===== verification/Preprocessing.thy ===== *)
theory Preprocessing
  imports Prelude
begin

text \<open>
  Preprocessing: \<open>add_phases\<close>, \<open>add_quantiles\<close> and \<open>calculate_rotation\<close> in
  \<open>_preprocessing.py\<close> (lines 177--316). A phase table lists per session the numbered
  phases with their start and end; \<open>add_phases\<close> writes into each sample the number of the
  first non-zero phase of its session whose closed interval holds its timestamp, or the
  sentinel \<open>-100\<close>, and drops the sentinel rows unless \<open>_include_all_data\<close> is set;
  \<open>add_quantiles\<close> splits each phase into \<open>numberOfQuantiles\<close> parts of equal duration
  and writes the part number, clipped to the number of parts. The pandas failures of
  \<open>add_quantiles\<close> (a \<open>Series\<close> of several rows passed to \<open>math.floor\<close>, an infinite
  or NaN quotient passed to \<open>math.floor\<close>) are \<open>Inl\<close> values.
\<close>

section \<open>Phase table\<close>

text \<open>One row of \<open>dfPhases\<close> (lines 233--240); \<open>comment\<close> is not read.\<close>

record phase_row =
  ph_session :: session_id
  ph_phase :: int
  ph_start :: seconds
  ph_end :: seconds

text \<open>
  The exceptions \<open>add_quantiles\<close> can raise: \<open>AmbiguousPhase\<close> is the
  \<open>TypeError\<close> of \<open>math.floor\<close> applied to a Series of several rows (several phase
  rows share the row's session and phase); \<open>NonFiniteQuantile\<close> is the
  \<open>OverflowError\<close> or \<open>ValueError\<close> of \<open>math.floor\<close> applied to inf or NaN.
\<close>

datatype pp_error = AmbiguousPhase | NonFiniteQuantile

section \<open>add_phases\<close>

text \<open>Lines 253--260 for one row: the first match of the \<open>loc\<close> filter, or \<open>-100\<close>.\<close>

definition phase_of :: "phase_row list \<Rightarrow> sample \<Rightarrow> int" where
  "phase_of dfPhases r =
     (case filter (\<lambda>p. session r = ph_session p \<and> timestamp r \<ge> ph_start p
                      \<and> timestamp r \<le> ph_end p \<and> ph_phase p \<noteq> 0) dfPhases of
        [] \<Rightarrow> -100
      | p # _ \<Rightarrow> ph_phase p)"

text \<open>Lines 226--267.\<close>

definition add_phases :: "sample list \<Rightarrow> phase_row list \<Rightarrow> int \<Rightarrow> sample list" where
  "add_phases df dfPhases include_all_data =
     (let df' = map (\<lambda>r. r\<lparr>phase := phase_of dfPhases r\<rparr>) df
      in if include_all_data = 0 then filter (\<lambda>r. phase r \<noteq> -100) df' else df')"

section \<open>add_quantiles\<close>

text \<open>
  Lines 298--313 for one row, \<open>nq\<close> being \<open>_numberOfQuantiles\<close>. With one matching
  phase the quantile duration is \<open>(end - start) / nq\<close>; a zero duration makes the
  quotient infinite or NaN and \<open>math.floor\<close> raise. With \<open>nq = 0\<close> the duration is
  infinite (or NaN when \<open>end = start\<close>), the quotient is 0 and \<open>q = 1 > 0\<close> is clipped
  to 0. \<open>numberOfQuantiles\<close> is read as a float; fractional values are not modelled.
\<close>

definition quantile_of :: "nat \<Rightarrow> phase_row list \<Rightarrow> sample \<Rightarrow> pp_error + int" where
  "quantile_of nq dfPhases r =
     (case filter (\<lambda>p. session r = ph_session p \<and> phase r = ph_phase p) dfPhases of
        [] \<Rightarrow> Inr (-100)
      | [p] \<Rightarrow>
          (if nq = 0 then (if ph_end p = ph_start p then Inl NonFiniteQuantile else Inr 0)
           else
             (let qd = real_of_int (ph_end p - ph_start p) / real nq
              in if qd = 0 then Inl NonFiniteQuantile
                 else (let q = \<lfloor>real_of_int (timestamp r - ph_start p) / qd + 1\<rfloor>
                       in Inr (if q > int nq then int nq else q))))
      | _ \<Rightarrow> Inl AmbiguousPhase)"

text \<open>Lines 304--315: the loop over the rows; the first exception aborts it.\<close>

fun add_quantiles_rows :: "nat \<Rightarrow> phase_row list \<Rightarrow> sample list \<Rightarrow> pp_error + sample list" where
  "add_quantiles_rows nq dfPhases [] = Inr []"
| "add_quantiles_rows nq dfPhases (r # rs) =
     (case quantile_of nq dfPhases r of
        Inl e \<Rightarrow> Inl e
      | Inr q \<Rightarrow> (case add_quantiles_rows nq dfPhases rs of
                   Inl e \<Rightarrow> Inl e
                 | Inr rs' \<Rightarrow> Inr (r\<lparr>quantile := q\<rparr> # rs')))"

definition add_quantiles :: "nat \<Rightarrow> sample list \<Rightarrow> phase_row list \<Rightarrow> pp_error + sample list" where
  "add_quantiles nq df dfPhases = add_quantiles_rows nq dfPhases df"

section \<open>Rotation\<close>

text \<open>Lines 208--224 and 177--206: radians to degrees relative to \<open>north\<close>.\<close>

definition calculate_rotation :: "real \<Rightarrow> real \<Rightarrow> real" where
  "calculate_rotation radians north = radians * 57.2958 - north * 57.2958"

definition add_rotation :: "real list \<Rightarrow> real \<Rightarrow> real list" where
  "add_rotation target_column north = map (\<lambda>v. calculate_rotation v north) target_column"

section \<open>Lemmas\<close>

lemma phase_of_cases:
  "(phase_of dfPhases r = -100
      \<and> (\<forall>p\<in>set dfPhases. \<not> (session r = ph_session p \<and> ph_start p \<le> timestamp r
                                \<and> timestamp r \<le> ph_end p \<and> ph_phase p \<noteq> 0)))
   \<or> (\<exists>p\<in>set dfPhases. session r = ph_session p \<and> ph_start p \<le> timestamp r
          \<and> timestamp r \<le> ph_end p \<and> ph_phase p \<noteq> 0 \<and> phase_of dfPhases r = ph_phase p)"
proof (cases "filter (\<lambda>p. session r = ph_session p \<and> timestamp r \<ge> ph_start p
                      \<and> timestamp r \<le> ph_end p \<and> ph_phase p \<noteq> 0) dfPhases")
  case Nil
  then show ?thesis by (auto simp: phase_of_def filter_empty_conv)
next
  case (Cons p ps)
  then have "p \<in> set (filter (\<lambda>p. session r = ph_session p \<and> timestamp r \<ge> ph_start p
                      \<and> timestamp r \<le> ph_end p \<and> ph_phase p \<noteq> 0) dfPhases)" by simp
  then have mem: "p \<in> set dfPhases" and c: "session r = ph_session p \<and> ph_start p \<le> timestamp r
      \<and> timestamp r \<le> ph_end p \<and> ph_phase p \<noteq> 0" by simp_all
  have "phase_of dfPhases r = ph_phase p" using Cons by (simp add: phase_of_def)
  then show ?thesis using mem c by blast
qed

lemma quantile_range:
  fixes start stop ts :: int
  assumes "start < stop" "start \<le> ts" "0 < nq"
  defines "q \<equiv> \<lfloor>real_of_int (ts - start) / (real_of_int (stop - start) / real nq) + 1\<rfloor>"
  shows "1 \<le> (if q > int nq then int nq else q)" and "(if q > int nq then int nq else q) \<le> int nq"
proof -
  have qd: "0 < real_of_int (stop - start) / real nq" using assms(1,3) by simp
  have "0 \<le> real_of_int (ts - start) / (real_of_int (stop - start) / real nq)"
    using assms(2) qd by (intro divide_nonneg_pos) simp_all
  then have "1 \<le> q" unfolding q_def by (simp add: le_floor_iff)
  then show "1 \<le> (if q > int nq then int nq else q)" using assms(3) by simp
  show "(if q > int nq then int nq else q) \<le> int nq" by simp
qed

lemma quantile_of_single:
  assumes "filter (\<lambda>p. session r = ph_session p \<and> phase r = ph_phase p) dfPhases = [p]"
    and "ph_start p < ph_end p" "0 < nq"
  shows "quantile_of nq dfPhases r
           = Inr (let q = \<lfloor>real_of_int (timestamp r - ph_start p)
                           / (real_of_int (ph_end p - ph_start p) / real nq) + 1\<rfloor>
                  in if q > int nq then int nq else q)"
  using assms by (simp add: quantile_of_def Let_def)

lemma filter_distinct_key:
  "distinct (map f xs) \<Longrightarrow> z \<in> set xs \<Longrightarrow> filter (\<lambda>y. f y = f z) xs = [z]"
proof (induction xs)
  case (Cons a xs)
  show ?case
  proof (cases "a = z")
    case True
    with Cons.prems(1) have nz: "f z \<notin> f ` set xs" by simp
    have "\<forall>y\<in>set xs. f y \<noteq> f z"
    proof
      fix y assume "y \<in> set xs"
      then have "f y \<in> f ` set xs" by (rule imageI)
      with nz show "f y \<noteq> f z" by auto
    qed
    then have "filter (\<lambda>y. f y = f z) xs = []" by (simp add: filter_empty_conv)
    with True show ?thesis by simp
  next
    case False
    with Cons.prems have "f a \<noteq> f z" "z \<in> set xs" "distinct (map f xs)" by auto
    with Cons.IH show ?thesis by simp
  qed
qed simp

lemma add_quantiles_rows_Inr:
  "(\<And>r. r \<in> set rs \<Longrightarrow> quantile_of nq dfPhases r = Inr (g r)) \<Longrightarrow>
   add_quantiles_rows nq dfPhases rs = Inr (map (\<lambda>r. r\<lparr>quantile := g r\<rparr>) rs)"
  by (induction rs) auto

lemma add_quantiles_rows_Inl:
  "(\<exists>e. add_quantiles_rows nq dfPhases rs = Inl e)
     \<longleftrightarrow> (\<exists>r\<in>set rs. \<exists>e. quantile_of nq dfPhases r = Inl e)"
proof (induction rs)
  case (Cons r rs)
  then show ?case by (cases "quantile_of nq dfPhases r"; cases "add_quantiles_rows nq dfPhases rs") auto
qed simp


lemma set_add_phases:
  "r \<in> set (add_phases df dfPhases inc) \<longleftrightarrow>
   (\<exists>r0\<in>set df. r = r0\<lparr>phase := phase_of dfPhases r0\<rparr> \<and> (inc = 0 \<longrightarrow> phase_of dfPhases r0 \<noteq> -100))"
  by (auto simp: add_phases_def Let_def)

lemma clip_mono: "a \<le> b \<Longrightarrow> (if a > n then n else a) \<le> (if b > n then (n::int) else b)"
  by auto

lemma quantile_of_Inl_iff:
  "(\<exists>e. quantile_of nq dfPhases r = Inl e)
     \<longleftrightarrow> (let m = filter (\<lambda>p. session r = ph_session p \<and> phase r = ph_phase p) dfPhases
          in 2 \<le> length m \<or> (length m = 1 \<and> ph_end (hd m) = ph_start (hd m)))"
proof (cases "filter (\<lambda>p. session r = ph_session p \<and> phase r = ph_phase p) dfPhases")
  case Nil
  then show ?thesis by (simp add: quantile_of_def)
next
  case (Cons p ps)
  then show ?thesis
  proof (cases ps)
    case Nil
    have "(real_of_int (ph_end p - ph_start p) / real nq = 0) \<longleftrightarrow> ph_end p = ph_start p"
      if "nq \<noteq> 0" using that by simp
    then show ?thesis using Cons Nil by (auto simp: quantile_of_def Let_def)
  next
    case (Cons p' ps')
    with \<open>_ = p # ps\<close> show ?thesis by (simp add: quantile_of_def)
  qed
qed

section \<open>Properties\<close>

text \<open>
  Every row \<open>add_phases\<close> returns is an input row with only
  its phase rewritten: either the number of a non-zero phase of its session whose closed
  interval holds its timestamp, or \<open>-100\<close> when there is none, and then only when
  \<open>_include_all_data\<close> is not 0.
\<close>

theorem add_phases_assigns:
  assumes "r \<in> set (add_phases df dfPhases inc)"
  shows "\<exists>r0\<in>set df. r = r0\<lparr>phase := phase r\<rparr>
           \<and> ((phase r = -100 \<and> inc \<noteq> 0
                \<and> (\<forall>p\<in>set dfPhases. \<not> (session r0 = ph_session p \<and> ph_start p \<le> timestamp r0
                                          \<and> timestamp r0 \<le> ph_end p \<and> ph_phase p \<noteq> 0)))
              \<or> (\<exists>p\<in>set dfPhases. session r0 = ph_session p \<and> ph_start p \<le> timestamp r0
                    \<and> timestamp r0 \<le> ph_end p \<and> ph_phase p \<noteq> 0 \<and> phase r = ph_phase p))"
proof -
  obtain r0 where r0: "r0 \<in> set df" "r = r0\<lparr>phase := phase_of dfPhases r0\<rparr>"
    and keep: "inc = 0 \<longrightarrow> phase_of dfPhases r0 \<noteq> -100"
    using assms by (auto simp: set_add_phases)
  have "phase r = phase_of dfPhases r0" using r0(2) by simp
  then show ?thesis
    using r0 keep phase_of_cases [of dfPhases r0] by auto
qed

lemma quantile_of_after_add_phases:
  assumes uniq: "distinct (map (\<lambda>p. (ph_session p, ph_phase p)) dfPhases)"
    and wf: "\<forall>p\<in>set dfPhases. ph_start p < ph_end p \<and> ph_phase p \<noteq> -100"
    and nq: "0 < nq"
    and r: "r \<in> set (add_phases df dfPhases inc)"
  shows "\<exists>q. quantile_of nq dfPhases r = Inr q
      \<and> ((phase r = -100 \<and> q = -100) \<or> (phase r \<noteq> -100 \<and> 1 \<le> q \<and> q \<le> int nq))"
proof -
  obtain r0 where r0: "r = r0\<lparr>phase := phase_of dfPhases r0\<rparr>"
    using r by (auto simp: set_add_phases)
  consider "phase_of dfPhases r0 = -100"
    | p where "p \<in> set dfPhases" "session r0 = ph_session p" "ph_start p \<le> timestamp r0"
        "timestamp r0 \<le> ph_end p" "phase_of dfPhases r0 = ph_phase p"
    using phase_of_cases [of dfPhases r0] by blast
  then show ?thesis
  proof cases
    case 1
    then have "filter (\<lambda>p. session r = ph_session p \<and> phase r = ph_phase p) dfPhases = []"
      using wf r0 by (auto simp: filter_empty_conv)
    then show ?thesis using 1 r0 by (simp add: quantile_of_def)
  next
    case 2
    have "filter (\<lambda>p'. (ph_session p', ph_phase p') = (ph_session p, ph_phase p)) dfPhases = [p]"
      by (rule filter_distinct_key [OF uniq 2(1)])
    then have single: "filter (\<lambda>p'. session r = ph_session p' \<and> phase r = ph_phase p') dfPhases = [p]"
      using 2 r0 by (simp add: eq_commute)
    have lt: "ph_start p < ph_end p" and ne: "ph_phase p \<noteq> -100" using wf 2(1) by auto
    have ts: "ph_start p \<le> timestamp r" using 2 r0 by simp
    let ?q = "let q = \<lfloor>real_of_int (timestamp r - ph_start p)
                         / (real_of_int (ph_end p - ph_start p) / real nq) + 1\<rfloor>
              in if q > int nq then int nq else q"
    have Q: "quantile_of nq dfPhases r = Inr ?q" by (rule quantile_of_single [OF single lt nq])
    have "1 \<le> ?q" "?q \<le> int nq" using quantile_range [OF lt ts nq] by (simp_all only: Let_def)
    moreover have "phase r \<noteq> -100" using ne 2(5) r0 by simp
    ultimately show ?thesis using Q by blast
  qed
qed

text \<open>
  When the phase table has one row per session and phase,
  every phase ends after it starts and none is numbered \<open>-100\<close>, and
  \<open>numberOfQuantiles\<close> is positive, \<open>add_quantiles\<close> on the output of \<open>add_phases\<close>
  raises nothing, changes only the quantile column, and writes \<open>-100\<close> exactly on the
  rows without a phase and a part number between 1 and \<open>numberOfQuantiles\<close> on the others.
\<close>

theorem add_quantiles_after_add_phases:
  assumes uniq: "distinct (map (\<lambda>p. (ph_session p, ph_phase p)) dfPhases)"
    and wf: "\<forall>p\<in>set dfPhases. ph_start p < ph_end p \<and> ph_phase p \<noteq> -100"
    and nq: "0 < nq"
  shows "\<exists>out. add_quantiles nq (add_phases df dfPhases inc) dfPhases = Inr out
           \<and> map (\<lambda>r. r\<lparr>quantile := 0\<rparr>) out = map (\<lambda>r. r\<lparr>quantile := 0\<rparr>) (add_phases df dfPhases inc)
           \<and> (\<forall>r\<in>set out. (phase r = -100 \<and> quantile r = -100)
                           \<or> (phase r \<noteq> -100 \<and> 1 \<le> quantile r \<and> quantile r \<le> int nq))"
proof -
  let ?A = "add_phases df dfPhases inc"
  let ?g = "\<lambda>r. case quantile_of nq dfPhases r of Inr q \<Rightarrow> q | Inl _ \<Rightarrow> 0"
  have each: "\<exists>q. quantile_of nq dfPhases r = Inr q
      \<and> ((phase r = -100 \<and> q = -100) \<or> (phase r \<noteq> -100 \<and> 1 \<le> q \<and> q \<le> int nq))"
    if r: "r \<in> set ?A" for r
    by (rule quantile_of_after_add_phases [OF uniq wf nq r])
  have "add_quantiles nq ?A dfPhases = Inr (map (\<lambda>r. r\<lparr>quantile := ?g r\<rparr>) ?A)"
    unfolding add_quantiles_def
  proof (rule add_quantiles_rows_Inr)
    fix r assume "r \<in> set ?A"
    then obtain q where "quantile_of nq dfPhases r = Inr q" using each by blast
    then show "quantile_of nq dfPhases r = Inr (?g r)" by simp
  qed
  moreover have "\<forall>r\<in>set (map (\<lambda>r. r\<lparr>quantile := ?g r\<rparr>) ?A).
      (phase r = -100 \<and> quantile r = -100) \<or> (phase r \<noteq> -100 \<and> 1 \<le> quantile r \<and> quantile r \<le> int nq)"
    using each by fastforce
  ultimately show ?thesis by (auto simp: comp_def)
qed


text \<open>
  Within a session and phase whose table rows all end no
  earlier than they start, a later sample never gets a smaller quantile.
\<close>

theorem quantile_monotone:
  assumes "\<forall>p\<in>set dfPhases. ph_start p \<le> ph_end p"
    and "session r1 = session r2" "phase r1 = phase r2" "timestamp r1 \<le> timestamp r2"
    and "quantile_of nq dfPhases r1 = Inr q1" "quantile_of nq dfPhases r2 = Inr q2"
  shows "q1 \<le> q2"
proof -
  let ?m = "\<lambda>r. filter (\<lambda>p. session r = ph_session p \<and> phase r = ph_phase p) dfPhases"
  have m: "?m r2 = ?m r1" using assms(2,3) by simp
  show ?thesis
  proof (cases "?m r1")
    case Nil
    then show ?thesis using assms(5,6) m by (simp add: quantile_of_def)
  next
    case (Cons p ps)
    show ?thesis
    proof (cases "ps = [] \<and> nq \<noteq> 0 \<and> ph_end p \<noteq> ph_start p")
      case True
      have "p \<in> set (?m r1)" using Cons by simp
      then have "p \<in> set dfPhases" by simp
      then have lt: "ph_start p < ph_end p" using assms(1) True by fastforce
      then have qd: "0 < real_of_int (ph_end p - ph_start p) / real nq" using True by simp
      have nq: "0 < nq" using True by simp
      have m1: "?m r1 = [p]" and m2: "?m r2 = [p]" using Cons True m by simp_all
      let ?f = "\<lambda>t. \<lfloor>real_of_int (t - ph_start p) / (real_of_int (ph_end p - ph_start p) / real nq) + 1\<rfloor>"
      have "Inr q1 = (Inr (let q = ?f (timestamp r1) in if q > int nq then int nq else q) :: pp_error + int)"
        using assms(5) quantile_of_single [OF m1 lt nq] by simp
      then have q1: "q1 = (if ?f (timestamp r1) > int nq then int nq else ?f (timestamp r1))"
        by (simp only: sum.inject Let_def)
      have "Inr q2 = (Inr (let q = ?f (timestamp r2) in if q > int nq then int nq else q) :: pp_error + int)"
        using assms(6) quantile_of_single [OF m2 lt nq] by simp
      then have q2: "q2 = (if ?f (timestamp r2) > int nq then int nq else ?f (timestamp r2))"
        by (simp only: sum.inject Let_def)
      have "?f (timestamp r1) \<le> ?f (timestamp r2)"
        using assms(4) qd by (intro floor_mono add_right_mono divide_right_mono) simp_all
      then show ?thesis unfolding q1 q2 by (rule clip_mono)
    next
      case False
      then show ?thesis using assms(5,6) Cons m
        by (cases ps) (auto simp: quantile_of_def split: if_splits)
    qed
  qed
qed

text \<open>
  C38 (when add_quantiles raises). \<open>add_quantiles\<close> aborts exactly when some row's
  session and phase match several phase rows (\<open>math.floor\<close> of a Series) or one phase
  row of zero duration (\<open>math.floor\<close> of inf or NaN); a row matching no phase row gets
  \<open>-100\<close> and does not abort.
\<close>

theorem add_quantiles_fails_iff:
  "(\<exists>e. add_quantiles nq df dfPhases = Inl e)
     \<longleftrightarrow> (\<exists>r\<in>set df. let m = filter (\<lambda>p. session r = ph_session p \<and> phase r = ph_phase p) dfPhases
                      in 2 \<le> length m \<or> (length m = 1 \<and> ph_end (hd m) = ph_start (hd m)))"
  by (simp only: add_quantiles_def add_quantiles_rows_Inl quantile_of_Inl_iff)


lemmas preprocessing_eval = add_phases_def phase_of_def add_quantiles_def quantile_of_def Let_def
  sample.defs phase_row.defs

theorem add_phases_assigns_witness:
  "(sample.make 1 1 50 0 0 1 0) \<in> set (add_phases [sample.make 1 1 50 0 0 0 0, sample.make 1 1 500 0 0 0 0] [phase_row.make 1 1 0 100, phase_row.make 1 2 101 200] 1)
   \<and> (\<exists>r0\<in>set [sample.make 1 1 50 0 0 0 0, sample.make 1 1 500 0 0 0 0]. (sample.make 1 1 50 0 0 1 0) = r0\<lparr>phase := phase (sample.make 1 1 50 0 0 1 0)\<rparr>
           \<and> ((phase (sample.make 1 1 50 0 0 1 0) = -100 \<and> (1::int) \<noteq> 0
                \<and> (\<forall>p\<in>set [phase_row.make 1 1 0 100, phase_row.make 1 2 101 200]. \<not> (session r0 = ph_session p \<and> ph_start p \<le> timestamp r0
                                          \<and> timestamp r0 \<le> ph_end p \<and> ph_phase p \<noteq> 0)))
              \<or> (\<exists>p\<in>set [phase_row.make 1 1 0 100, phase_row.make 1 2 101 200]. session r0 = ph_session p \<and> ph_start p \<le> timestamp r0
                    \<and> timestamp r0 \<le> ph_end p \<and> ph_phase p \<noteq> 0 \<and> phase (sample.make 1 1 50 0 0 1 0) = ph_phase p)))
   \<and> phase (sample.make 1 1 50 0 0 1 0) = 1"
  using add_phases_assigns [of "sample.make 1 1 50 0 0 1 0" "[sample.make 1 1 50 0 0 0 0, sample.make 1 1 500 0 0 0 0]"
      "[phase_row.make 1 1 0 100, phase_row.make 1 2 101 200]" 1]
  by (simp add: preprocessing_eval)

theorem add_quantiles_after_add_phases_witness:
  "distinct (map (\<lambda>p. (ph_session p, ph_phase p)) [phase_row.make 1 1 0 100, phase_row.make 1 2 101 200])
   \<and> 0 < (4::nat)
   \<and> add_quantiles 4 (add_phases [sample.make 1 1 50 0 0 0 0, sample.make 1 1 500 0 0 0 0] [phase_row.make 1 1 0 100, phase_row.make 1 2 101 200] 1) [phase_row.make 1 1 0 100, phase_row.make 1 2 101 200]
       = Inr [sample.make 1 1 50 0 0 1 3, sample.make 1 1 500 0 0 (-100) (-100)]"
  using add_quantiles_after_add_phases [of "[phase_row.make 1 1 0 100, phase_row.make 1 2 101 200]" 4 "[sample.make 1 1 50 0 0 0 0, sample.make 1 1 500 0 0 0 0]" 1]
  by (simp add: preprocessing_eval)

theorem quantile_monotone_witness:
  "quantile_of 4 [phase_row.make 1 1 0 100, phase_row.make 1 2 101 200] (sample.make 1 1 10 0 0 1 0) = Inr 1
   \<and> quantile_of 4 [phase_row.make 1 1 0 100, phase_row.make 1 2 101 200] (sample.make 1 1 60 0 0 1 0) = Inr 3
   \<and> (1::int) \<le> 3"
  using quantile_monotone [of "[phase_row.make 1 1 0 100, phase_row.make 1 2 101 200]" "sample.make 1 1 10 0 0 1 0" "sample.make 1 1 60 0 0 1 0" 4 1 3]
  by (simp add: preprocessing_eval)

end
