(* ===== verification/Classroom_Objects.thy ===== *)
theory Classroom_Objects
  imports Block_Summarizer
begin

text \<open>
  Classroom objects: \<open>gini\<close>, \<open>calculate_gini_by_tracker\<close>,
  \<open>calculate_gini_trackers_together\<close> and \<open>get_closer_fixedpoint_stop\<close> in
  \<open>_classroomObjects.py\<close> (lines 159--319). \<open>gini\<close> is the StatsDirect formula over
  the sorted, shifted and offset values; the two groupings apply it to the visit counts
  of student fixed points per (session, tracker, phase) and per (session, phase).
  \<open>get_closer_fixedpoint_stop\<close> keeps the distance rows whose distance is one of the
  per-stop minima and joins them with the stop records of \<open>get_stops_and_transitions\<close>.
\<close>

section \<open>Gini coefficient\<close>

text \<open>
  Lines 237--269. \<open>np.amin\<close> of an empty array raises, which is \<open>None\<close>; negative
  values are shifted by the minimum, every value is raised by \<open>0.0000001\<close>, and the
  values are sorted before the weighted sum.
\<close>

definition gini_weighted_sum :: "real list \<Rightarrow> real" where
  "gini_weighted_sum a =
     sum_list (map2 (\<lambda>i v. (2 * real i - real (length a) - 1) * v) [1..<length a + 1] a)"

definition gini :: "real list \<Rightarrow> real option" where
  "gini array =
     (if array = [] then None
      else
        (let a1 = (if Min (set array) < 0 then map (\<lambda>v. v - Min (set array)) array else array);
             a2 = map (\<lambda>v. v + 1 / 10000000) a1;
             a3 = sort a2;
             n = length a3
         in Some (gini_weighted_sum a3 / (real n * sum_list a3))))"

section \<open>Gini groupings\<close>

text \<open>One row of \<open>df_fixed_points_stats\<close> (lines 134--144).\<close>

record fp_stat =
  fs_session :: session_id
  fs_tracker :: tracker_id
  fs_phase :: int
  fs_tag :: string
  fs_sum :: real
  fs_count :: real
  fs_obj_type :: string

text \<open>
  Lines 192--194 and 230--232: the student rows grouped by key (pandas sorts the keys),
  \<open>gini\<close> of the \<open>count\<close> column of each group.
\<close>

definition gini_groups :: "(fp_stat \<Rightarrow> 'k::linorder) \<Rightarrow> fp_stat list \<Rightarrow> ('k \<times> real option) list" where
  "gini_groups key df_fixed_points_stats =
     (let df_gini = filter (\<lambda>r. fs_obj_type r = ''student'') df_fixed_points_stats
      in map (\<lambda>k. (k, gini (map fs_count (filter (\<lambda>r. key r = k) df_gini))))
             (sort (remdups (map key df_gini))))"

definition calculate_gini_by_tracker ::
    "fp_stat list \<Rightarrow> ((session_id \<times> tracker_id \<times> int) \<times> real option) list" where
  "calculate_gini_by_tracker = gini_groups (\<lambda>r. (fs_session r, fs_tracker r, fs_phase r))"

definition calculate_gini_trackers_together ::
    "fp_stat list \<Rightarrow> ((session_id \<times> int) \<times> real option) list" where
  "calculate_gini_trackers_together = gini_groups (\<lambda>r. (fs_session r, fs_phase r))"

section \<open>Closest fixed point of a stop\<close>

text \<open>One row of \<open>df_dist\<close>: a stop paired with a fixed point of its session.\<close>

record dist_row =
  dr_block :: nat
  dr_tracker :: tracker_id
  dr_session :: session_id
  dr_tag :: string
  dr_dist :: real
  dr_timestamp :: seconds
  dr_obj_type :: string

definition dr_key :: "dist_row \<Rightarrow> nat \<times> tracker_id \<times> session_id" where
  "dr_key r = (dr_block r, dr_tracker r, dr_session r)"

text \<open>
  \<open>df_dist.groupby(('block','tracker','session')).min()['dist_student'].values\<close>
  (line 310): the smallest distance of each stop, keys in sorted order.
\<close>

definition group_min_dists :: "dist_row list \<Rightarrow> real list" where
  "group_min_dists df_dist =
     map (\<lambda>k. Min (set (map dr_dist (filter (\<lambda>r. dr_key r = k) df_dist))))
       (sort (remdups (map dr_key df_dist)))"

text \<open>Line 310: the rows whose distance \<open>isin\<close> the list of minima.\<close>

definition closest_rows :: "dist_row list \<Rightarrow> dist_row list" where
  "closest_rows df_dist = filter (\<lambda>r. dr_dist r \<in> set (group_min_dists df_dist)) df_dist"

text \<open>
  Lines 310--319: the selection sorted by session and inner-joined with the stop records
  on (tracker, session, block), in the order of the left frame.
\<close>

definition get_closer_fixedpoint_stop :: "dist_row list \<Rightarrow> stop_rec list \<Rightarrow> (dist_row \<times> stop_rec) list" where
  "get_closer_fixedpoint_stop df_dist df_stops =
     (let df_min_dis = sort_key dr_session (closest_rows df_dist)
      in concat (map (\<lambda>r. map (\<lambda>s. (r, s))
                          (filter (\<lambda>s. (sr_tracker s, sr_session s, sr_block s)
                                       = (dr_tracker r, dr_session r, dr_block r)) df_stops))
                   df_min_dis))"

section \<open>Lemmas\<close>

lemma sum_map2_minus:
  "length is = length xs \<Longrightarrow>
   sum_list (map2 (\<lambda>i u. f i u - u) is xs) = sum_list (map2 f is xs) - sum_list (xs :: real list)"
  by (induction "is" xs rule: list_induct2) auto

lemma weighted_shift:
  "length is = length xs \<Longrightarrow>
   sum_list (map2 (\<lambda>i u. (2 * real i - (c + 1)) * u) is xs)
     = sum_list (map2 (\<lambda>i u. (2 * real i - c) * u) is xs) - sum_list (xs :: real list)"
  by (induction "is" xs rule: list_induct2) (auto simp: algebra_simps)

lemma weighted_snoc:
  "sum_list (map2 (\<lambda>i u. (2 * real i - c) * u) [1..<length xs + 2] (xs @ [v]))
     = sum_list (map2 (\<lambda>i u. (2 * real i - c) * u) [1..<length xs + 1] xs)
       + (2 * real (length xs + 1) - c) * v"
proof -
  have "[1..<length xs + 2] = [1..<length xs + 1] @ [length xs + 1]" by simp
  moreover have "zip ([1..<length xs + 1] @ [length xs + 1]) (xs @ [v])
      = zip [1..<length xs + 1] xs @ [(length xs + 1, v)]"
    by (simp del: upt_Suc add: zip_append)
  ultimately show ?thesis by (simp del: upt_Suc)
qed

lemma gini_weighted_sum_snoc:
  "gini_weighted_sum (xs @ [v]) = gini_weighted_sum xs + sum_list (map (\<lambda>u. v - u) xs)"
proof -
  let ?n = "length xs"
  have "gini_weighted_sum (xs @ [v])
      = sum_list (map2 (\<lambda>i u. (2 * real i - (real ?n + 1 + 1)) * u) [1..<?n + 2] (xs @ [v]))"
    by (simp del: upt_Suc add: gini_weighted_sum_def algebra_simps)
  also have "\<dots> = sum_list (map2 (\<lambda>i u. (2 * real i - (real ?n + 1 + 1)) * u) [1..<?n + 1] xs)
      + real ?n * v"
    by (simp only: weighted_snoc) (simp add: algebra_simps)
  also have "\<dots> = sum_list (map2 (\<lambda>i u. (2 * real i - (real ?n + 1)) * u) [1..<?n + 1] xs)
      - sum_list xs + real ?n * v"
  proof -
    have len: "length [1..<?n + 1] = length xs" by (simp del: upt_Suc)
    show ?thesis by (simp only: weighted_shift [OF len])
  qed
  also have "\<dots> = gini_weighted_sum xs - sum_list xs + real ?n * v"
    by (simp del: upt_Suc add: gini_weighted_sum_def diff_diff_eq)
  also have "\<dots> = gini_weighted_sum xs + sum_list (map (\<lambda>u. v - u) xs)"
  proof -
    have "sum_list (map (\<lambda>u. v - u) ys) = real (length ys) * v - sum_list ys" for ys :: "real list"
      by (induction ys) (simp_all add: algebra_simps)
    then show ?thesis by simp
  qed
  finally show ?thesis .
qed

lemma gini_weighted_sum_sorted_nonneg:
  "sorted xs \<Longrightarrow> 0 \<le> gini_weighted_sum xs"
proof (induction xs rule: rev_induct)
  case Nil
  then show ?case by (simp add: gini_weighted_sum_def)
next
  case (snoc v xs)
  then have "sorted xs" "\<forall>u\<in>set xs. u \<le> v" by (simp_all add: sorted_append)
  then have "0 \<le> sum_list (map (\<lambda>u. v - u) xs)" by (intro sum_list_nonneg) auto
  with snoc.IH \<open>sorted xs\<close> show ?case by (simp add: gini_weighted_sum_snoc)
qed

lemma gini_weighted_sum_less:
  assumes pos: "\<forall>v\<in>set xs. 0 < v" and ne: "xs \<noteq> []"
  shows "gini_weighted_sum xs < real (length xs) * sum_list xs"
proof -
  let ?n = "length xs"
  let ?Z = "zip [1..<?n + 1] xs"
  have le: "(\<lambda>(i, u). (2 * real i - real ?n - 1) * u) p \<le> (\<lambda>(i, u). (real ?n - 1) * u) p"
    if "p \<in> set ?Z" for p
  proof -
    obtain i u where p: "p = (i, u)" by (cases p)
    with that have "i \<in> set [1..<?n + 1]" "u \<in> set xs" by (auto dest: set_zip_leftD set_zip_rightD)
    then have "i \<le> ?n" "u \<in> set xs" by (simp_all del: upt_Suc)
    with pos have "2 * real i - real ?n - 1 \<le> real ?n - 1" "0 < u" by auto
    then show ?thesis unfolding p by (simp add: mult_right_mono)
  qed
  have "gini_weighted_sum xs = sum_list (map (\<lambda>(i, u). (2 * real i - real ?n - 1) * u) ?Z)"
    by (simp del: upt_Suc add: gini_weighted_sum_def)
  also have "\<dots> \<le> sum_list (map (\<lambda>(i, u). (real ?n - 1) * u) ?Z)"
    by (rule sum_list_mono) (rule le)
  also have "\<dots> = (real ?n - 1) * sum_list xs"
  proof -
    have "sum_list (map (\<lambda>(i, u). c * u) Z) = c * sum_list (map snd Z)" for c :: real and Z :: "(nat \<times> real) list"
      by (induction Z) (auto simp: algebra_simps)
    moreover have "map snd ?Z = xs" by (simp del: upt_Suc)
    ultimately show ?thesis by metis
  qed
  also have "\<dots> < real ?n * sum_list xs"
  proof -
    obtain y ys where xs: "xs = y # ys" using ne by (cases xs) auto
    have "0 \<le> sum_list ys" using pos xs by (intro sum_list_nonneg) auto
    then have "0 < sum_list xs" using pos xs by simp
    then show ?thesis by (simp add: algebra_simps)
  qed
  finally show ?thesis .
qed

lemma gini_weighted_sum_replicate: "gini_weighted_sum (replicate n d) = 0"
proof (induction n)
  case 0
  then show ?case by (simp add: gini_weighted_sum_def)
next
  case (Suc n)
  have "replicate (Suc n) d = replicate n d @ [d]" by (simp add: replicate_append_same)
  with Suc show ?case by (simp add: gini_weighted_sum_snoc sum_list_replicate)
qed

lemma gini_range:
  assumes "array \<noteq> []"
  shows "\<exists>g. gini array = Some g \<and> 0 \<le> g \<and> g < 1"
proof -
  let ?m = "Min (set array)"
  let ?a1 = "if ?m < 0 then map (\<lambda>v. v - ?m) array else array"
  let ?a3 = "sort (map (\<lambda>v. v + 1 / 10000000) ?a1)"
  have a1: "\<forall>v\<in>set ?a1. 0 \<le> v"
  proof (cases "?m < 0")
    case True
    then show ?thesis by auto
  next
    case False
    have mv: "\<forall>v\<in>set array. ?m \<le> v" by simp
    have "?a1 = array" using False by simp
    moreover have "\<forall>v\<in>set array. 0 \<le> v"
    proof
      fix v assume "v \<in> set array"
      with mv have "?m \<le> v" by blast
      with False show "0 \<le> v" by linarith
    qed
    ultimately show ?thesis by simp
  qed
  have pos: "\<forall>v\<in>set ?a3. 0 < v"
  proof
    fix v assume "v \<in> set ?a3"
    then obtain w where w: "w \<in> set ?a1" "v = w + 1 / 10000000"
      by (simp only: set_sort set_map) blast
    have "0 \<le> w" using a1 w(1) by blast
    then show "0 < v" using w(2) by simp
  qed
  have len: "length ?a3 = length array" by simp
  then have ne: "?a3 \<noteq> []" using assms by (metis length_0_conv)
  have W0: "0 \<le> gini_weighted_sum ?a3" by (rule gini_weighted_sum_sorted_nonneg) simp
  have W1: "gini_weighted_sum ?a3 < real (length ?a3) * sum_list ?a3"
    by (rule gini_weighted_sum_less [OF pos ne])
  have "0 \<le> gini_weighted_sum ?a3 / (real (length ?a3) * sum_list ?a3)"
    using W0 W1 by (intro divide_nonneg_pos) simp_all
  moreover have "gini_weighted_sum ?a3 / (real (length ?a3) * sum_list ?a3) < 1"
    using W0 W1 by simp
  moreover have "gini array = Some (gini_weighted_sum ?a3 / (real (length ?a3) * sum_list ?a3))"
    using assms by (simp add: gini_def Let_def)
  ultimately show ?thesis by blast
qed

lemma closest_rows_mem:
  "r \<in> set (closest_rows df_dist) \<longleftrightarrow>
   r \<in> set df_dist \<and> (\<exists>r'\<in>set df_dist.
      dr_dist r = Min (set (map dr_dist (filter (\<lambda>r''. dr_key r'' = dr_key r') df_dist))))"
  by (auto simp: closest_rows_def group_min_dists_def)


section \<open>Properties\<close>

text \<open>
  Every Gini value \<open>calculate_gini_by_tracker\<close> produces is defined
  (no group is empty, so \<open>np.amin\<close> never raises) and lies in [0, 1).
\<close>

theorem calculate_gini_by_tracker_range:
  assumes "(k, g) \<in> set (calculate_gini_by_tracker df)"
  shows "\<exists>v. g = Some v \<and> 0 \<le> v \<and> v < 1"
proof -
  let ?key = "\<lambda>r. (fs_session r, fs_tracker r, fs_phase r)"
  let ?S = "filter (\<lambda>r. fs_obj_type r = ''student'') df"
  from assms have k: "k \<in> set (map ?key ?S)" and g: "g = gini (map fs_count (filter (\<lambda>r. ?key r = k) ?S))"
    by (auto simp: calculate_gini_by_tracker_def gini_groups_def Let_def)
  from k have "filter (\<lambda>r. ?key r = k) ?S \<noteq> []" by (auto simp: filter_empty_conv)
  then have "map fs_count (filter (\<lambda>r. ?key r = k) ?S) \<noteq> []" by simp
  then show ?thesis unfolding g by (rule gini_range)
qed

text \<open>
  When every student group got the same number of visits the
  Gini coefficient is 0.
\<close>

theorem gini_equal_values:
  assumes "0 < n"
  shows "gini (replicate n c) = Some 0"
proof -
  have m: "Min (set (replicate n c)) = c" using assms by simp
  have s: "sort (replicate n d) = replicate n d" for d :: real
    by (simp add: sorted_sort_id)
  show ?thesis
  proof (cases "c < 0")
    case True
    have "map (\<lambda>v. v + 1 / 10000000) (map (\<lambda>v. v - c) (replicate n c)) = replicate n (1 / 10000000)"
      by simp
    then show ?thesis using assms True m s by (simp add: gini_def Let_def gini_weighted_sum_replicate)
  next
    case False
    then show ?thesis using assms m s by (simp add: gini_def Let_def gini_weighted_sum_replicate)
  qed
qed

text \<open>
  A distance row at the smallest distance of its stop is
  always selected by \<open>get_closer_fixedpoint_stop\<close>.
\<close>

theorem closest_rows_complete:
  assumes "r \<in> set df_dist"
    and "dr_dist r = Min (set (map dr_dist (filter (\<lambda>r'. dr_key r' = dr_key r) df_dist)))"
  shows "r \<in> set (closest_rows df_dist)"
  using assms by (auto simp: closest_rows_mem)

text \<open>
  C25 (functional). The selection tests the distance against the minima of all stops at
  once: a row is kept whenever its distance equals the minimum distance of any stop of
  the frame, its own or another one.
\<close>

theorem closest_rows_isin_counterexample:
  assumes "r \<in> set df_dist" and "r' \<in> set df_dist"
    and "dr_dist r = Min (set (map dr_dist (filter (\<lambda>r''. dr_key r'' = dr_key r') df_dist)))"
  shows "r \<in> set (closest_rows df_dist)"
  using assms by (auto simp: closest_rows_mem)

lemma closest_rows_isin_counterexample_witness:
  "dist_row.make 1 1 1 ''b'' 5 0 ''student''
     \<in> set (closest_rows [dist_row.make 1 1 1 ''a'' 1 0 ''student'', dist_row.make 1 1 1 ''b'' 5 0 ''student'',
      dist_row.make 2 1 1 ''a'' 5 0 ''student''])
   \<and> dr_dist (dist_row.make 1 1 1 ''b'' 5 0 ''student'')
       > Min (set (map dr_dist (filter (\<lambda>r. dr_key r = dr_key (dist_row.make 1 1 1 ''b'' 5 0 ''student''))
           [dist_row.make 1 1 1 ''a'' 1 0 ''student'', dist_row.make 1 1 1 ''b'' 5 0 ''student'',
            dist_row.make 2 1 1 ''a'' 5 0 ''student''])))"
proof -
  have "dist_row.make 1 1 1 ''b'' 5 0 ''student''
     \<in> set (closest_rows [dist_row.make 1 1 1 ''a'' 1 0 ''student'', dist_row.make 1 1 1 ''b'' 5 0 ''student'',
      dist_row.make 2 1 1 ''a'' 5 0 ''student''])"
    by (rule closest_rows_isin_counterexample [where r' = "dist_row.make 2 1 1 ''a'' 5 0 ''student''"])
      (simp_all add: dr_key_def dist_row.defs)
  then show ?thesis by (simp add: dr_key_def dist_row.defs)
qed

text \<open>
  If no two stops share a distance value, the rows
  selected are exactly the rows at their own stop's minimum distance, as intended.
\<close>

theorem closest_rows_exact:
  assumes "\<forall>r\<in>set df_dist. \<forall>r'\<in>set df_dist. dr_key r \<noteq> dr_key r' \<longrightarrow> dr_dist r \<noteq> dr_dist r'"
  shows "closest_rows df_dist
           = filter (\<lambda>r. dr_dist r = Min (set (map dr_dist (filter (\<lambda>r'. dr_key r' = dr_key r) df_dist)))) df_dist"
proof -
  have "dr_dist r \<in> set (group_min_dists df_dist)
      \<longleftrightarrow> dr_dist r = Min (set (map dr_dist (filter (\<lambda>r'. dr_key r' = dr_key r) df_dist)))"
    if r: "r \<in> set df_dist" for r
  proof
    assume "dr_dist r \<in> set (group_min_dists df_dist)"
    then obtain k where k: "k \<in> set (map dr_key df_dist)"
      and d: "dr_dist r = Min (set (map dr_dist (filter (\<lambda>r'. dr_key r' = k) df_dist)))"
      by (auto simp: group_min_dists_def)
    have "set (map dr_dist (filter (\<lambda>r'. dr_key r' = k) df_dist)) \<noteq> {}"
      using k by (auto simp: filter_empty_conv)
    then have "Min (set (map dr_dist (filter (\<lambda>r'. dr_key r' = k) df_dist)))
        \<in> set (map dr_dist (filter (\<lambda>r'. dr_key r' = k) df_dist))" by (intro Min_in) simp_all
    then obtain r' where r': "r' \<in> set df_dist" "dr_key r' = k" "dr_dist r' = dr_dist r"
      using d by auto
    then have "dr_key r = k" using assms r by metis
    then show "dr_dist r = Min (set (map dr_dist (filter (\<lambda>r'. dr_key r' = dr_key r) df_dist)))"
      using d by simp
  next
    assume "dr_dist r = Min (set (map dr_dist (filter (\<lambda>r'. dr_key r' = dr_key r) df_dist)))"
    then show "dr_dist r \<in> set (group_min_dists df_dist)"
      using r by (auto simp: group_min_dists_def)
  qed
  then show ?thesis unfolding closest_rows_def by (rule filter_cong [OF refl])
qed

lemmas classroom_eval = calculate_gini_by_tracker_def gini_groups_def gini_def gini_weighted_sum_def
  Let_def fp_stat.defs closest_rows_def group_min_dists_def dr_key_def dist_row.defs

theorem calculate_gini_by_tracker_range_witness:
  "((1, 1, 1), gini [1, 3]) \<in> set (calculate_gini_by_tracker [fp_stat.make 1 1 1 ''a'' 60 1 ''student'', fp_stat.make 1 1 1 ''b'' 180 3 ''student'',
      fp_stat.make 1 1 1 ''door'' 30 2 ''zone''])
   \<and> (\<exists>v. gini [1, 3] = Some v \<and> 0 \<le> v \<and> v < 1)"
  using calculate_gini_by_tracker_range [of "(1, 1, 1)" "gini [1, 3]" "[fp_stat.make 1 1 1 ''a'' 60 1 ''student'', fp_stat.make 1 1 1 ''b'' 180 3 ''student'',
      fp_stat.make 1 1 1 ''door'' 30 2 ''zone'']"]
  by (simp add: classroom_eval)

theorem gini_equal_values_witness:
  "0 < (3::nat) \<and> gini (replicate 3 2) = Some 0"
  using gini_equal_values [of 3 2] by simp

theorem closest_rows_complete_witness:
  "dist_row.make 2 1 1 ''a'' 5 0 ''student'' \<in> set [dist_row.make 1 1 1 ''a'' 1 0 ''student'', dist_row.make 1 1 1 ''b'' 5 0 ''student'',
      dist_row.make 2 1 1 ''a'' 5 0 ''student'']
   \<and> dr_dist (dist_row.make 2 1 1 ''a'' 5 0 ''student'')
       = Min (set (map dr_dist (filter (\<lambda>r'. dr_key r' = dr_key (dist_row.make 2 1 1 ''a'' 5 0 ''student'')) [dist_row.make 1 1 1 ''a'' 1 0 ''student'', dist_row.make 1 1 1 ''b'' 5 0 ''student'',
      dist_row.make 2 1 1 ''a'' 5 0 ''student''])))
   \<and> dist_row.make 2 1 1 ''a'' 5 0 ''student'' \<in> set (closest_rows [dist_row.make 1 1 1 ''a'' 1 0 ''student'', dist_row.make 1 1 1 ''b'' 5 0 ''student'',
      dist_row.make 2 1 1 ''a'' 5 0 ''student''])"
  using closest_rows_complete [of "dist_row.make 2 1 1 ''a'' 5 0 ''student''" "[dist_row.make 1 1 1 ''a'' 1 0 ''student'', dist_row.make 1 1 1 ''b'' 5 0 ''student'',
      dist_row.make 2 1 1 ''a'' 5 0 ''student'']"]
  by (simp add: classroom_eval)

theorem closest_rows_exact_witness:
  "closest_rows [dist_row.make 1 1 1 ''a'' 1 0 ''student'', dist_row.make 1 1 1 ''b'' 5 0 ''student'',
            dist_row.make 2 1 1 ''a'' 4 0 ''student'']
     = [dist_row.make 1 1 1 ''a'' 1 0 ''student'', dist_row.make 2 1 1 ''a'' 4 0 ''student'']"
  using closest_rows_exact [of "[dist_row.make 1 1 1 ''a'' 1 0 ''student'', dist_row.make 1 1 1 ''b'' 5 0 ''student'',
            dist_row.make 2 1 1 ''a'' 4 0 ''student'']"]
  by (simp add: classroom_eval)

end
