(* ===== verification/Entropy_Grid.thy ===== *)
theory Entropy_Grid
  imports Prelude
begin

text \<open>
  The occupancy grids of \<open>_entropy.py\<close>: \<open>calculate_entropy_session_tracker_phase\<close>
  (lines 36--129) and \<open>calculate_entropy_session_tracker\<close> (lines 133--230) build, for
  every group of rows, an \<open>m \<times> n\<close> grid of counts of the group's samples per cell
  (cell \<open>floor(x / size)\<close>, \<open>floor(y / size)\<close>), then turn the counts into percentages
  of the group's size. Cells are addressed by Python list indexing: a negative index
  counts from the end and an index below \<open>-len\<close> raises \<open>IndexError\<close>, which is
  \<open>None\<close> here. \<open>n_gridsquares\<close> and \<open>m_gridsquares\<close> (rounded from \<open>info.ini\<close>) are
  the parameters \<open>n\<close> and \<open>m\<close>; the entropy of a grid is in \<open>Entropy_Value\<close>.
\<close>

section \<open>Python list indexing\<close>

text \<open>\<open>xs[i]\<close> for a list of length \<open>len\<close>: the position read, or \<open>IndexError\<close>.\<close>

definition py_index :: "int \<Rightarrow> nat \<Rightarrow> nat option" where
  "py_index i len =
     (if 0 \<le> i \<and> i < int len then Some (nat i)
      else if - int len \<le> i \<and> i < 0 then Some (nat (int len + i))
      else None)"

section \<open>Grid of counts\<close>

text \<open>Lines 84--86: the zero grid, \<open>m\<close> rows of \<open>n\<close> cells.\<close>

definition zero_grid :: "nat \<Rightarrow> nat \<Rightarrow> nat list list" where
  "zero_grid n m = replicate m (replicate n 0)"

text \<open>Lines 91--92: \<open>int(math.floor(v / size_of_grid_cells))\<close>.\<close>

definition cell_of :: "real \<Rightarrow> real \<Rightarrow> int" where
  "cell_of cell_size v = \<lfloor>v / cell_size\<rfloor>"

text \<open>
  Lines 90--99 for one row: a row of the group whose indices pass the \<open>< n\<close> and
  \<open>< m\<close> tests increments \<open>new_grid[y_var][x_var]\<close>.
\<close>

definition grid_incr :: "nat list list \<Rightarrow> int \<Rightarrow> int \<Rightarrow> nat list list option" where
  "grid_incr g yv xv =
     (case py_index yv (length g) of
        None \<Rightarrow> None
      | Some j \<Rightarrow> (case py_index xv (length (g ! j)) of
                    None \<Rightarrow> None
                  | Some i \<Rightarrow> Some (g[j := (g ! j)[i := g ! j ! i + 1]])))"

fun fill_grid ::
    "real \<Rightarrow> nat \<Rightarrow> nat \<Rightarrow> (sample \<Rightarrow> bool) \<Rightarrow> sample list \<Rightarrow> nat list list \<Rightarrow> nat list list option" where
  "fill_grid cell_size n m sel [] g = Some g"
| "fill_grid cell_size n m sel (r # rs) g =
     (let x_var = cell_of cell_size (x r); y_var = cell_of cell_size (y r)
      in if x_var < int n \<and> y_var < int m \<and> sel r
         then (case grid_incr g y_var x_var of
                 None \<Rightarrow> None
               | Some g' \<Rightarrow> fill_grid cell_size n m sel rs g')
         else fill_grid cell_size n m sel rs g)"

text \<open>Lines 107--116: every cell as a percentage of the group's \<open>count\<close>.\<close>

definition proportions :: "nat \<Rightarrow> nat list list \<Rightarrow> real list list" where
  "proportions cnt g = map (map (\<lambda>c. real c * 100 / real cnt)) g"

text \<open>Lines 82--121 for one group: the selection \<open>sel\<close> and its size \<open>cnt\<close>.\<close>

definition group_grid ::
    "real \<Rightarrow> nat \<Rightarrow> nat \<Rightarrow> sample list \<Rightarrow> (sample \<Rightarrow> bool) \<Rightarrow> nat \<Rightarrow> real list list option" where
  "group_grid cell_size n m df_dist sel cnt =
     map_option (proportions cnt) (fill_grid cell_size n m sel df_dist (zero_grid n m))"

section \<open>The two groupings\<close>

text \<open>The first exception aborts the loop over the groups.\<close>

fun all_some :: "'a option list \<Rightarrow> 'a list option" where
  "all_some [] = Some []"
| "all_some (o1 # os) =
     (case o1 of None \<Rightarrow> None
      | Some v \<Rightarrow> (case all_some os of None \<Rightarrow> None | Some vs \<Rightarrow> Some (v # vs)))"

text \<open>
  Lines 78--124: \<open>groupby(['session','tracker','phase']).size()\<close> gives the keys in
  sorted order with their counts; each key gets the grid of its rows.
\<close>

definition entropy_grids_phase ::
    "real \<Rightarrow> nat \<Rightarrow> nat \<Rightarrow> sample list
     \<Rightarrow> ((session_id \<times> tracker_id \<times> int) \<times> nat \<times> real list list) list option" where
  "entropy_grids_phase cell_size n m df_dist =
     all_some (map (\<lambda>k. let sel = (\<lambda>r. (session r, tracker r, phase r) = k);
                           cnt = length (filter sel df_dist)
                       in map_option (\<lambda>g. (k, cnt, g)) (group_grid cell_size n m df_dist sel cnt))
       (sort (remdups (map (\<lambda>r. (session r, tracker r, phase r)) df_dist))))"

text \<open>Lines 182--224: the same per (session, tracker).\<close>

definition entropy_grids ::
    "real \<Rightarrow> nat \<Rightarrow> nat \<Rightarrow> sample list
     \<Rightarrow> ((session_id \<times> tracker_id) \<times> nat \<times> real list list) list option" where
  "entropy_grids cell_size n m df_dist =
     all_some (map (\<lambda>k. let sel = (\<lambda>r. (session r, tracker r) = k);
                           cnt = length (filter sel df_dist)
                       in map_option (\<lambda>g. (k, cnt, g)) (group_grid cell_size n m df_dist sel cnt))
       (sort (remdups (map (\<lambda>r. (session r, tracker r)) df_dist))))"

section \<open>Lemmas\<close>

definition grid_shape :: "nat \<Rightarrow> nat \<Rightarrow> nat list list \<Rightarrow> bool" where
  "grid_shape n m g \<longleftrightarrow> length g = m \<and> (\<forall>row\<in>set g. length row = n)"

definition grid_total :: "nat list list \<Rightarrow> nat" where
  "grid_total g = sum_list (map sum_list g)"

lemma grid_shape_zero [simp]: "grid_shape n m (zero_grid n m)"
  by (simp add: grid_shape_def zero_grid_def)

lemma grid_total_zero [simp]: "grid_total (zero_grid n m) = 0"
  by (simp add: grid_total_def zero_grid_def)

lemma py_index_Some:
  "py_index i len = Some k \<Longrightarrow> k < len"
  by (auto simp: py_index_def split: if_splits)

lemma py_index_Some_range:
  "py_index i len = Some k \<Longrightarrow> - int len \<le> i \<and> i < int len"
  by (auto simp: py_index_def split: if_splits)

lemma py_index_None_iff:
  "py_index i len = None \<longleftrightarrow> i < - int len \<or> int len \<le> i"
  by (auto simp: py_index_def)

lemma sum_list_incr:
  "k < length xs \<Longrightarrow> sum_list (xs[k := xs ! k + 1]) = sum_list xs + (1::nat)"
proof (induction xs arbitrary: k)
  case (Cons a xs)
  then show ?case by (cases k) auto
qed simp

lemma grid_incr_shape:
  assumes "grid_shape n m g" "grid_incr g yv xv = Some g'"
  shows "grid_shape n m g' \<and> grid_total g' = grid_total g + 1"
proof -
  obtain j i where j: "py_index yv (length g) = Some j" and i: "py_index xv (length (g ! j)) = Some i"
    and g': "g' = g[j := (g ! j)[i := g ! j ! i + 1]]"
    using assms(2) by (auto simp: grid_incr_def split: option.splits)
  have jl: "j < length g" using py_index_Some [OF j] .
  have il: "i < length (g ! j)" using py_index_Some [OF i] .
  have "grid_shape n m g'"
    using assms(1) jl unfolding g' grid_shape_def by (auto simp: set_update_subset_insert [THEN subsetD] nth_mem dest!: set_update_subset_insert [THEN subsetD])
  moreover have "grid_total g' = grid_total g + 1"
  proof -
    have row: "sum_list ((g ! j)[i := g ! j ! i + 1]) = sum_list (g ! j) + 1"
      by (rule sum_list_incr [OF il])
    have "map sum_list g' = (map sum_list g)[j := (map sum_list g) ! j + 1]"
      using jl by (simp only: g' map_update row nth_map)
    moreover have "sum_list ((map sum_list g)[j := (map sum_list g) ! j + 1]) = sum_list (map sum_list g) + 1"
      by (rule sum_list_incr) (simp add: jl)
    ultimately show ?thesis by (simp only: grid_total_def)
  qed
  ultimately show ?thesis ..
qed

lemma grid_incr_None_iff:
  assumes "grid_shape n m g"
  shows "grid_incr g yv xv = None \<longleftrightarrow>
           yv < - int m \<or> int m \<le> yv \<or> xv < - int n \<or> int n \<le> xv"
proof (cases "py_index yv (length g)")
  case None
  then have "yv < - int m \<or> int m \<le> yv" using assms by (simp add: grid_shape_def py_index_None_iff)
  moreover have "grid_incr g yv xv = None" using None by (simp add: grid_incr_def)
  ultimately show ?thesis by blast
next
  case (Some j)
  then have "j < m" "length (g ! j) = n" using assms py_index_Some [OF Some]
    by (auto simp: grid_shape_def)
  then show ?thesis using assms Some
    by (auto simp: grid_incr_def grid_shape_def py_index_None_iff split: option.splits
        dest: py_index_Some_range)
qed


lemma fill_grid_Some:
  "grid_shape n m g \<Longrightarrow> fill_grid cs n m sel rs g = Some g' \<Longrightarrow>
   grid_shape n m g' \<and> grid_total g' = grid_total g
     + length (filter (\<lambda>r. sel r \<and> cell_of cs (x r) < int n \<and> cell_of cs (y r) < int m) rs)"
proof (induction rs arbitrary: g)
  case Nil
  then show ?case by simp
next
  case (Cons r rs)
  show ?case
  proof (cases "cell_of cs (x r) < int n \<and> cell_of cs (y r) < int m \<and> sel r")
    case True
    then obtain g1 where g1: "grid_incr g (cell_of cs (y r)) (cell_of cs (x r)) = Some g1"
      and rest: "fill_grid cs n m sel rs g1 = Some g'"
      using Cons.prems(2) by (auto simp: Let_def split: option.splits)
    have "grid_shape n m g1 \<and> grid_total g1 = grid_total g + 1"
      by (rule grid_incr_shape [OF Cons.prems(1) g1])
    with Cons.IH [OF _ rest] True show ?thesis by simp
  next
    case False
    then have "fill_grid cs n m sel (r # rs) g = fill_grid cs n m sel rs g"
      by (simp only: fill_grid.simps Let_def if_not_P if_False)
    then have "fill_grid cs n m sel rs g = Some g'" using Cons.prems(2) by simp
    with Cons.IH [OF Cons.prems(1)] False show ?thesis by auto
  qed
qed

lemma fill_grid_None_iff:
  "grid_shape n m g \<Longrightarrow>
   fill_grid cs n m sel rs g = None \<longleftrightarrow>
   (\<exists>r\<in>set rs. sel r \<and> cell_of cs (x r) < int n \<and> cell_of cs (y r) < int m
               \<and> (cell_of cs (x r) < - int n \<or> cell_of cs (y r) < - int m))"
proof (induction rs arbitrary: g)
  case Nil
  then show ?case by simp
next
  case (Cons r rs)
  let ?xv = "cell_of cs (x r)" and ?yv = "cell_of cs (y r)"
  show ?case
  proof (cases "?xv < int n \<and> ?yv < int m \<and> sel r")
    case True
    show ?thesis
    proof (cases "grid_incr g ?yv ?xv")
      case None
      then have "?xv < - int n \<or> ?yv < - int m"
        using grid_incr_None_iff [OF Cons.prems] True by auto
      then show ?thesis using None True by (auto simp: Let_def)
    next
      case (Some g1)
      then have sh: "grid_shape n m g1" using grid_incr_shape [OF Cons.prems] by blast
      have "\<not> (?xv < - int n \<or> ?yv < - int m)"
        using grid_incr_None_iff [OF Cons.prems, of ?yv ?xv] Some True by auto
      then show ?thesis using Some True Cons.IH [OF sh] by (auto simp: Let_def)
    qed
  next
    case False
    then show ?thesis using Cons.IH [OF Cons.prems] by (auto simp: Let_def)
  qed
qed

lemma sum_proportion_row:
  "sum_list (map (\<lambda>c. real c * 100 / real cnt) row) = real (sum_list row) * 100 / real cnt"
  by (induction row) (simp_all add: add_divide_distrib algebra_simps)

lemma sum_proportions:
  "sum_list (map sum_list (proportions cnt g)) = real (grid_total g) * 100 / real cnt"
  by (induction g) (simp_all add: proportions_def grid_total_def sum_proportion_row add_divide_distrib algebra_simps)

lemma length_filter_eq_iff: "length (filter P xs) = length xs \<longleftrightarrow> (\<forall>v\<in>set xs. P v)"
proof (induction xs)
  case (Cons a xs)
  have "length (filter P xs) \<le> length xs" by (rule length_filter_le)
  then have "length (filter P xs) \<noteq> Suc (length xs)" by linarith
  with Cons.IH show ?case by auto
qed simp

section \<open>Properties\<close>

text \<open>
  When the fill succeeds, the grid holds one count
  per sample of the group whose cell indices pass the \<open>< n\<close> and \<open>< m\<close> tests, negative
  indices included.
\<close>

theorem fill_grid_counts:
  assumes "fill_grid cs n m sel rs (zero_grid n m) = Some g"
  shows "grid_total g = length (filter (\<lambda>r. sel r \<and> cell_of cs (x r) < int n \<and> cell_of cs (y r) < int m) rs)"
  using fill_grid_Some [OF grid_shape_zero assms] by simp

text \<open>
  C27 (IndexError). The fill raises exactly when a sample of the group passes the upper
  tests with a cell index below \<open>-n\<close> or \<open>-m\<close>: the upper bound is checked, the lower one
  is left to Python's list indexing.
\<close>

theorem fill_grid_index_error:
  "fill_grid cs n m sel rs (zero_grid n m) = None \<longleftrightarrow>
   (\<exists>r\<in>set rs. sel r \<and> cell_of cs (x r) < int n \<and> cell_of cs (y r) < int m
               \<and> (cell_of cs (x r) < - int n \<or> cell_of cs (y r) < - int m))"
  by (rule fill_grid_None_iff [OF grid_shape_zero])

text \<open>
  C28 (functional). A sample whose cell column is negative but not below \<open>-n\<close> is not
  dropped like one beyond the upper walls: Python's negative indexing counts it in column
  \<open>n + x_var\<close>, at the opposite wall of the room.
\<close>

theorem negative_coordinate_wraps:
  assumes "- int n \<le> cell_of cs (x r)" and "cell_of cs (x r) < 0"
    and "0 \<le> cell_of cs (y r)" and "cell_of cs (y r) < int m"
  shows "fill_grid cs n m (\<lambda>_. True) [r] (zero_grid n m)
    = Some ((zero_grid n m)[nat (cell_of cs (y r)) := (replicate n 0)[nat (int n + cell_of cs (x r)) := 1]])"
proof -
  have j: "nat (cell_of cs (y r)) < m" using assms(3,4) by linarith
  show ?thesis
    using assms j by (simp add: Let_def grid_incr_def py_index_def zero_grid_def)
qed

lemma negative_coordinate_wraps_witness:
  "fill_grid 1 3 2 (\<lambda>_. True) [sample.make 1 1 0 (-1) 0 1 1] (zero_grid 3 2) = Some [[0, 0, 1], [0, 0, 0]]"
proof -
  have f: "\<lfloor>(- 1 :: real)\<rfloor> = - 1" by (simp add: floor_eq_iff)
  have c: "cell_of 1 (x (sample.make 1 1 0 (-1) 0 1 1)) = -1" "cell_of 1 (y (sample.make 1 1 0 (-1) 0 1 1)) = 0"
    by (simp_all add: cell_of_def f sample.defs)
  show ?thesis
    using negative_coordinate_wraps [of 3 1 "sample.make 1 1 0 (-1) 0 1 1" 2]
    by (simp add: c zero_grid_def numeral_2_eq_2 numeral_3_eq_3)
qed

text \<open>
  The percentages of a group's grid add up to at most
  100, and to exactly 100 only when no sample of the group lies beyond the grid's upper
  bounds: samples beyond them are dropped from the cells but still counted in the
  denominator.
\<close>

theorem group_grid_percentages:
  assumes "group_grid cs n m rs sel (length (filter sel rs)) = Some pg"
    and "filter sel rs \<noteq> []"
  shows "sum_list (map sum_list pg) \<le> 100
         \<and> (sum_list (map sum_list pg) = 100
              \<longleftrightarrow> (\<forall>r\<in>set rs. sel r \<longrightarrow> cell_of cs (x r) < int n \<and> cell_of cs (y r) < int m))"
proof -
  let ?P = "\<lambda>r. cell_of cs (x r) < int n \<and> cell_of cs (y r) < int m"
  obtain g where g: "fill_grid cs n m sel rs (zero_grid n m) = Some g"
    and pg: "pg = proportions (length (filter sel rs)) g"
    using assms(1) by (auto simp: group_grid_def)
  have tot: "grid_total g = length (filter ?P (filter sel rs))"
    using fill_grid_Some [OF grid_shape_zero g] by (simp add: conj_commute conj_left_commute)
  have le: "length (filter ?P (filter sel rs)) \<le> length (filter sel rs)" by (rule length_filter_le)
  have pos: "0 < real (length (filter sel rs))" using assms(2) by simp
  have sum: "sum_list (map sum_list pg)
      = real (length (filter ?P (filter sel rs))) * 100 / real (length (filter sel rs))"
    by (simp add: pg sum_proportions tot)
  have "sum_list (map sum_list pg) \<le> 100"
    unfolding sum using le pos by (simp add: divide_le_eq)
  moreover have "sum_list (map sum_list pg) = 100 \<longleftrightarrow> (\<forall>r\<in>set rs. sel r \<longrightarrow> ?P r)"
  proof -
    have "sum_list (map sum_list pg) = 100
        \<longleftrightarrow> length (filter ?P (filter sel rs)) = length (filter sel rs)"
      unfolding sum using pos by (simp add: divide_eq_eq)
    also have "\<dots> \<longleftrightarrow> (\<forall>r\<in>set (filter sel rs). ?P r)" by (rule length_filter_eq_iff)
    finally show ?thesis by auto
  qed
  ultimately show ?thesis ..
qed


lemmas grid_eval = cell_of_def grid_incr_def py_index_def zero_grid_def sample.defs numeral_2_eq_2
  numeral_3_eq_3 group_grid_def proportions_def grid_total_def

theorem fill_grid_counts_witness:
  "fill_grid 1 3 2 (\<lambda>_. True) [sample.make 1 1 0 0 0 1 1, sample.make 1 1 1 5 0 1 1] (zero_grid 3 2) = Some [[1, 0, 0], [0, 0, 0]]
   \<and> grid_total [[1, 0, 0], [0, 0, 0]]
       = length (filter (\<lambda>r. True \<and> cell_of 1 (x r) < int 3 \<and> cell_of 1 (y r) < int 2) [sample.make 1 1 0 0 0 1 1, sample.make 1 1 1 5 0 1 1])"
  using fill_grid_counts [of 1 3 2 "\<lambda>_. True" "[sample.make 1 1 0 0 0 1 1, sample.make 1 1 1 5 0 1 1]" "[[1, 0, 0], [0, 0, 0]]"]
  by (simp add: grid_eval)

theorem group_grid_percentages_witness:
  "group_grid 1 3 2 [sample.make 1 1 0 0 0 1 1, sample.make 1 1 1 5 0 1 1] (\<lambda>_. True) (length (filter (\<lambda>_. True) [sample.make 1 1 0 0 0 1 1, sample.make 1 1 1 5 0 1 1])) = Some [[50, 0, 0], [0, 0, 0]]
   \<and> filter (\<lambda>_. True) [sample.make 1 1 0 0 0 1 1, sample.make 1 1 1 5 0 1 1] \<noteq> []
   \<and> sum_list (map sum_list [[50, 0, 0], [0, 0, 0 :: real]]) \<le> 100
   \<and> sum_list (map sum_list [[50, 0, 0], [0, 0, 0 :: real]]) \<noteq> 100"
  using group_grid_percentages [of 1 3 2 "[sample.make 1 1 0 0 0 1 1, sample.make 1 1 1 5 0 1 1]" "\<lambda>_. True" "[[50, 0, 0], [0, 0, 0]]"]
  by (simp add: grid_eval)

end
