(* ===== verification/Metrics.thy ===== *)
theory Metrics
  imports Classroom_Objects Preprocessing "HOL-Library.While_Combinator"
begin

text \<open>
  The metrics of \<open>_metricsMain.get_metrics\<close> (lines 30--237) over the frame of stops and
  transitions: stop durations in minutes aggregated per (session, tracker, phase)
  (lines 72--89); the walked distance, a loop over the frame sorted by session, tracker
  and block that measures each row's distance to the row before it within the same
  session and tracker (lines 96--115); the transition metrics per block and per
  (session, tracker, phase) (lines 117--128); the first merge (line 186); the phase
  filter (lines 196--199); and the weighting of each output row by the shortest duration
  of its phase (lines 202--234). A float that pandas leaves as NaN or infinite is
  \<open>None\<close>; the \<open>IndexError\<close> of the weighting loop is an \<open>Inl\<close> value.
\<close>

section \<open>Columns of the frame of stops and transitions\<close>

fun out_session :: "out_row \<Rightarrow> session_id" where
  "out_session (StopRow s) = sr_session s"
| "out_session (TransRow r) = session r"

fun out_tracker :: "out_row \<Rightarrow> tracker_id" where
  "out_tracker (StopRow s) = sr_tracker s"
| "out_tracker (TransRow r) = tracker r"

fun out_phase :: "out_row \<Rightarrow> int" where
  "out_phase (StopRow s) = sr_phase s"
| "out_phase (TransRow r) = phase r"

fun out_block :: "out_row \<Rightarrow> nat" where
  "out_block (StopRow s) = sr_block s"
| "out_block (TransRow r) = block r"

text \<open>Lines 72--77: \<open>max_duration\<close> in minutes.\<close>

definition duration_minutes :: "out_row \<Rightarrow> real" where
  "duration_minutes w = out_max_duration_sec w / 60"

section \<open>Aggregations\<close>

text \<open>pandas \<open>mean\<close>, \<open>median\<close> and \<open>std\<close> (ddof 1, NaN below two values).\<close>

definition median :: "real list \<Rightarrow> real" where
  "median vs =
     (let s = sort vs; n = length s
      in if odd n then s ! (n div 2) else (s ! (n div 2 - 1) + s ! (n div 2)) / 2)"

definition std_opt :: "real list \<Rightarrow> real option" where
  "std_opt vs = (if length vs \<le> 1 then None else Some (std_sample vs))"

text \<open>The keys of a \<open>groupby\<close>, in sorted order.\<close>

definition group_keys :: "('a \<Rightarrow> 'k::linorder) \<Rightarrow> 'a list \<Rightarrow> 'k list" where
  "group_keys key rows = sort (remdups (map key rows))"

section \<open>Stop metrics\<close>

record stop_metrics =
  number_of_stops :: nat
  stopping_time_mins :: real
  max_stop_mins :: real
  avg_stopping_time :: real
  median_stopping_time :: real
  std_stopping_time :: "real option"

definition stop_metrics_of :: "real list \<Rightarrow> stop_metrics" where
  "stop_metrics_of ds =
     \<lparr>number_of_stops = length ds, stopping_time_mins = sum_list ds, max_stop_mins = Max (set ds),
      avg_stopping_time = mean ds, median_stopping_time = median ds, std_stopping_time = std_opt ds\<rparr>"

text \<open>The key \<open>['session','tracker','phase']\<close> of the metric tables.\<close>

definition fs_key3 :: "out_row \<Rightarrow> session_id \<times> tracker_id \<times> int" where
  "fs_key3 w = (out_session w, out_tracker w, out_phase w)"

text \<open>Lines 82--89: the stop rows grouped by (session, tracker, phase).\<close>

definition get_stop_metrics :: "out_row list \<Rightarrow> ((session_id \<times> tracker_id \<times> int) \<times> stop_metrics) list" where
  "get_stop_metrics df_fs =
     (let stops = filter (\<lambda>w. out_type w = Stop) df_fs
      in map (\<lambda>k. (k, stop_metrics_of (map duration_minutes (filter (\<lambda>w. fs_key3 w = k) stops))))
             (group_keys fs_key3 stops))"

section \<open>Walked distance\<close>

text \<open>Line 96: \<open>sort_values(by=['session','tracker','block'])\<close>, a stable sort.\<close>

definition fs_order :: "out_row \<Rightarrow> session_id \<times> tracker_id \<times> nat" where
  "fs_order w = (out_session w, out_tracker w, out_block w)"

definition sorted_fs :: "out_row list \<Rightarrow> out_row list" where
  "sorted_fs df_fs = sort_key fs_order df_fs"

text \<open>
  Lines 106--114: the distance from the previous row, in metres, when both rows belong
  to the same session and tracker, and 0 when a new session or tracker begins.
\<close>

definition hop :: "out_row \<Rightarrow> out_row \<Rightarrow> real" where
  "hop prevRow w =
     (if out_session prevRow = out_session w \<and> out_tracker prevRow = out_tracker w
      then euclid (fst (out_xy w)) (snd (out_xy w)) (fst (out_xy prevRow)) (snd (out_xy prevRow)) / 1000
      else 0)"

text \<open>
  Lines 97--115: the loop over the sorted frame; its state is \<open>prevRow\<close>, empty
  (\<open>None\<close>) before the first row, and every row becomes the next \<open>prevRow\<close>.
\<close>

fun walk :: "out_row option \<Rightarrow> out_row list \<Rightarrow> real list" where
  "walk prevRow [] = []"
| "walk prevRow (w # ws) = (case prevRow of None \<Rightarrow> 0 | Some p \<Rightarrow> hop p w) # walk (Some w) ws"

text \<open>The frame with its new column \<open>distance_previous_point_meter\<close> (line 115).\<close>

definition distance_previous_point :: "out_row list \<Rightarrow> (out_row \<times> real) list" where
  "distance_previous_point df_fs = zip (sorted_fs df_fs) (walk None (sorted_fs df_fs))"

text \<open>
  The reference the loop computes: each row's distance to the row before it in the
  sorted frame (a \<open>shift(1)\<close> of the frame), 0 for the first row.
\<close>

definition dist_shift :: "out_row list \<Rightarrow> real list" where
  "dist_shift ws = (case ws of [] \<Rightarrow> [] | w # _ \<Rightarrow> 0 # map2 hop ws (tl ws))"

section \<open>Transition metrics\<close>

definition fs_key4 :: "out_row \<Rightarrow> session_id \<times> tracker_id \<times> int \<times> nat" where
  "fs_key4 w = (out_session w, out_tracker w, out_phase w, out_block w)"

definition drop_block :: "session_id \<times> tracker_id \<times> int \<times> nat \<Rightarrow> session_id \<times> tracker_id \<times> int" where
  "drop_block k = (case k of (s, t, p, b) \<Rightarrow> (s, t, p))"

record block_walk =
  distance_walked :: real
  speed_meter_per_sec :: real

text \<open>Lines 118--121: the aggregates of one transition block, sum and mean of the distances.\<close>

definition block_walk_of :: "(out_row \<times> real) list \<Rightarrow> session_id \<times> tracker_id \<times> int \<times> nat \<Rightarrow> block_walk" where
  "block_walk_of ts k =
     (let ds = map snd (filter (\<lambda>wd. fs_key4 (fst wd) = k) ts)
      in \<lparr>distance_walked = sum_list ds, speed_meter_per_sec = mean ds\<rparr>)"

text \<open>Lines 118--122: the transition rows grouped by (session, tracker, phase, block).\<close>

definition transition_blocks ::
    "out_row list \<Rightarrow> ((session_id \<times> tracker_id \<times> int \<times> nat) \<times> block_walk) list" where
  "transition_blocks df_fs =
     (let ts = filter (\<lambda>wd. out_type (fst wd) = Transition) (distance_previous_point df_fs)
      in map (\<lambda>k. (k, block_walk_of ts k)) (group_keys (\<lambda>wd. fs_key4 (fst wd)) ts))"

record transition_metrics =
  number_of_transitions :: nat
  total_distance_walked :: real
  avg_speed_meter_per_sec :: real

text \<open>Lines 124--128: the aggregates over the blocks of one (session, tracker, phase).\<close>

definition transition_metrics_of :: "block_walk list \<Rightarrow> transition_metrics" where
  "transition_metrics_of g =
     \<lparr>number_of_transitions = length g, total_distance_walked = sum_list (map distance_walked g),
      avg_speed_meter_per_sec = mean (map speed_meter_per_sec g)\<rparr>"

definition get_transition_metrics ::
    "out_row list \<Rightarrow> ((session_id \<times> tracker_id \<times> int) \<times> transition_metrics) list" where
  "get_transition_metrics df_fs =
     (let bs = transition_blocks df_fs
      in map (\<lambda>k. (k, transition_metrics_of (map snd (filter (\<lambda>bm. drop_block (fst bm) = k) bs))))
             (group_keys (\<lambda>bm. drop_block (fst bm)) bs))"

section \<open>Merging, phase selection and weighting\<close>

text \<open>\<open>pd.merge(left, right, on=keys)\<close>: an inner join, in the order of the left keys.\<close>

definition inner_merge :: "('k \<times> 'a) list \<Rightarrow> ('k \<times> 'b) list \<Rightarrow> ('k \<times> 'a \<times> 'b) list" where
  "inner_merge l r = concat (map (\<lambda>(k, a). map (\<lambda>(k', b). (k, a, b)) (filter (\<lambda>kb. fst kb = k) r)) l)"

text \<open>Line 186: \<open>merge1\<close>, the stop metrics joined with the transition metrics.\<close>

definition merge1 :: "out_row list \<Rightarrow> ((session_id \<times> tracker_id \<times> int) \<times> stop_metrics \<times> transition_metrics) list" where
  "merge1 df_fs = inner_merge (get_stop_metrics df_fs) (get_transition_metrics df_fs)"

text \<open>
  A row of the merged output as the weighting loop reads it: the named columns
  \<open>session\<close>, \<open>tracker\<close> and \<open>phase\<close>, and all columns by position, each a float
  (\<open>None\<close> is NaN or an infinity).
\<close>

record metric_row =
  mr_session :: session_id
  mr_tracker :: tracker_id
  mr_phase :: int
  mr_cols :: "real option list"

text \<open>Lines 196--199: keep one phase unless \<open>selectedPhase\<close> is \<open>-99\<close>.\<close>

definition select_phase :: "int \<Rightarrow> metric_row list \<Rightarrow> metric_row list" where
  "select_phase selectedPhase rows =
     (if selectedPhase \<noteq> -99 then filter (\<lambda>r. mr_phase r = selectedPhase) rows else rows)"

text \<open>Line 206: the duration of a phase in minutes.\<close>

definition phase_diff :: "phase_row \<Rightarrow> real" where
  "phase_diff p = real_of_int (ph_end p - ph_start p) / 60"

text \<open>Lines 209--214: the shortest duration of a phase over all sessions.\<close>

definition min_phase_duration :: "phase_row list \<Rightarrow> int \<Rightarrow> real" where
  "min_phase_duration df_phases ph = Min (phase_diff ` set (filter (\<lambda>p. ph_phase p = ph) df_phases))"

text \<open>numpy's float division: a zero divisor gives an infinity or NaN.\<close>

definition np_div :: "real \<Rightarrow> real \<Rightarrow> real option" where
  "np_div a b = (if b = 0 then None else Some (a / b))"

definition np_mul :: "real option \<Rightarrow> real option \<Rightarrow> real option" where
  "np_mul a b = (case (a, b) of (Some u, Some v) \<Rightarrow> Some (u * v) | _ \<Rightarrow> None)"

datatype metrics_error = PhaseIndexError

text \<open>
  Lines 221--227: the weighting factor of a row; \<open>values[0]\<close> of an empty selection
  raises \<open>IndexError\<close> when the row's session has no entry for its phase.
\<close>

definition weight_factor :: "phase_row list \<Rightarrow> metric_row \<Rightarrow> metrics_error + real option" where
  "weight_factor df_phases row =
     (case filter (\<lambda>p. ph_phase p = mr_phase row \<and> ph_session p = mr_session row) df_phases of
        [] \<Rightarrow> Inl PhaseIndexError
      | p # _ \<Rightarrow> Inr (np_div (min_phase_duration df_phases (mr_phase row)) (phase_diff p)))"

text \<open>Lines 229--232: every column from position 3 on is multiplied by the factor.\<close>

definition weight_row :: "real option \<Rightarrow> metric_row \<Rightarrow> metric_row" where
  "weight_row factor row = row\<lparr>mr_cols := take 3 (mr_cols row) @ map (\<lambda>c. np_mul c factor) (drop 3 (mr_cols row))\<rparr>"

text \<open>
  Lines 228--231 as written: the \<open>while\<close> loop over the column positions \<open>col\<close> from 3
  while \<open>col < len(Output.columns)\<close>, writing position \<open>col\<close> of the output row from the
  row read by \<open>iterrows\<close>; its state is the pair of \<open>col\<close> and the output row.
\<close>

definition weight_cols_loop :: "real option \<Rightarrow> real option list \<Rightarrow> (nat \<times> real option list) option" where
  "weight_cols_loop factor row =
     while_option (\<lambda>(col, out). col < length row)
                  (\<lambda>(col, out). (col + 1, out[col := np_mul (row ! col) factor]))
                  (3, row)"

text \<open>Lines 218--234: the loop over the output rows, stopped by the first exception.\<close>

fun weight_rows :: "phase_row list \<Rightarrow> metric_row list \<Rightarrow> metrics_error + metric_row list" where
  "weight_rows df_phases [] = Inr []"
| "weight_rows df_phases (row # rows) =
     (case weight_factor df_phases row of
        Inl e \<Rightarrow> Inl e
      | Inr f \<Rightarrow> (case weight_rows df_phases rows of
                   Inl e \<Rightarrow> Inl e
                 | Inr rows' \<Rightarrow> Inr (weight_row f row # rows')))"

text \<open>Lines 196--234: phase selection, then weighting when the parameter \<open>weighted\<close> is 1.\<close>

definition finish_output :: "int \<Rightarrow> int \<Rightarrow> phase_row list \<Rightarrow> metric_row list \<Rightarrow> metrics_error + metric_row list" where
  "finish_output weighted selectedPhase df_phases merged =
     (let output = select_phase selectedPhase merged
      in if weighted = 1 then weight_rows df_phases output else Inr output)"

section \<open>Lemmas\<close>

subsection \<open>Grouping\<close>

lemma set_group_keys [simp]: "set (group_keys key rows) = key ` set rows"
  by (simp add: group_keys_def)

lemma distinct_group_keys [simp]: "distinct (group_keys key rows)"
  by (simp add: group_keys_def)

lemma fst_image_pair [simp]: "fst ` (\<lambda>k. (k, f k)) ` A = A"
  by (simp add: image_image)

lemma fst_set_filter_fst: "fst ` {x \<in> A. P (fst x)} = {w \<in> fst ` A. P w}"
  by force

lemma mem_image_Collect: "k \<in> f ` {w \<in> A. P w} \<longleftrightarrow> (\<exists>w\<in>A. P w \<and> f w = k)"
  by auto

lemma mem_image_pair: "(k, m) \<in> (\<lambda>k. (k, f k)) ` A \<longleftrightarrow> k \<in> A \<and> m = f k"
  by auto

lemma sum_list_map_mset_eq:
  fixes f :: "'a \<Rightarrow> 'b::comm_monoid_add"
  shows "mset as = mset bs \<Longrightarrow> sum_list (map f as) = sum_list (map f bs)"
proof -
  assume "mset as = mset bs"
  then have "sum_mset (mset (map f as)) = sum_mset (mset (map f bs))" by simp
  then show ?thesis by (simp only: sum_mset_sum_list)
qed

text \<open>Summing a column group by group and then over the groups sums the column.\<close>

lemma sum_list_groups:
  fixes f :: "'a \<Rightarrow> 'b::comm_monoid_add"
  assumes "distinct ks" and "set ks = {j \<in> key ` set xs. P j}"
  shows "sum_list (map (\<lambda>j. sum_list (map f (filter (\<lambda>x. key x = j) xs))) ks)
         = sum_list (map f (filter (\<lambda>x. P (key x)) xs))"
proof -
  have "sum_list (map (\<lambda>j. sum_list (map f (filter (\<lambda>x. key x = j) xs))) ks)
        = sum_list (map f (concat (partition_by key ks xs)))"
    by (induction ks) (simp_all add: partition_by_def)
  also have "\<dots> = sum_list (map f (filter (\<lambda>x. key x \<in> set ks) xs))"
    by (rule sum_list_map_mset_eq [OF mset_concat_partition_by_filter [OF assms(1)]])
  also have "filter (\<lambda>x. key x \<in> set ks) xs = filter (\<lambda>x. P (key x)) xs"
    using assms(2) by (intro filter_cong) auto
  finally show ?thesis .
qed

subsection \<open>The walked-distance loop\<close>

lemma walk_Some: "walk (Some p) ws = map2 hop (p # ws) ws"
  by (induction ws arbitrary: p) auto

lemma length_walk [simp]: "length (walk prevRow ws) = length ws"
  by (induction ws arbitrary: prevRow) auto

lemma hop_other: "(out_session p, out_tracker p) \<noteq> (out_session w, out_tracker w) \<Longrightarrow> hop p w = 0"
  by (auto simp: hop_def)

lemma walk_filter_from:
  assumes "sorted (map (\<lambda>w. (out_session w, out_tracker w)) (p # ws))"
  shows "filter (\<lambda>(w, d). (out_session w, out_tracker w) = k) (zip ws (walk (Some p) ws))
         = zip (filter (\<lambda>w. (out_session w, out_tracker w) = k) ws)
               (walk (if (out_session p, out_tracker p) = k then Some p else None)
                     (filter (\<lambda>w. (out_session w, out_tracker w) = k) ws))"
  using assms
proof (induction ws arbitrary: p)
  case Nil
  then show ?case by simp
next
  case (Cons w ws)
  let ?g = "\<lambda>w. (out_session w, out_tracker w)"
  from Cons.prems have le: "?g p \<le> ?g w" and srt: "sorted (map ?g (w # ws))" by simp_all
  show ?case
  proof (cases "?g w = k")
    case True
    moreover have "?g p \<noteq> k \<Longrightarrow> hop p w = 0" using True by (metis hop_other)
    ultimately show ?thesis using Cons.IH [OF srt] by auto
  next
    case False
    have "filter (\<lambda>v. ?g v = k) ws = []" if "?g p = k"
    proof -
      have "?g v \<noteq> k" if "v \<in> set ws" for v
      proof
        assume "?g v = k"
        moreover from srt \<open>v \<in> set ws\<close> have "?g w \<le> ?g v" by simp
        ultimately show False using le \<open>?g p = k\<close> False by simp
      qed
      then show ?thesis by (simp add: filter_empty_conv)
    qed
    with False Cons.IH [OF srt] show ?thesis by auto
  qed
qed

lemma walk_filter:
  assumes "sorted (map (\<lambda>w. (out_session w, out_tracker w)) ws)"
  shows "filter (\<lambda>(w, d). (out_session w, out_tracker w) = k) (zip ws (walk None ws))
         = zip (filter (\<lambda>w. (out_session w, out_tracker w) = k) ws)
               (walk None (filter (\<lambda>w. (out_session w, out_tracker w) = k) ws))"
proof (cases ws)
  case (Cons p ws')
  with walk_filter_from [of p ws' k] assms show ?thesis by auto
qed simp

lemma sorted_fs_sorted: "sorted (map (\<lambda>w. (out_session w, out_tracker w)) (sorted_fs df_fs))"
proof -
  have "sorted_wrt (\<lambda>v w. fs_order v \<le> fs_order w) (sorted_fs df_fs)"
    using sorted_sort_key [of fs_order df_fs] by (simp add: sorted_fs_def sorted_map)
  then have "sorted_wrt (\<lambda>v w. (out_session v, out_tracker v) \<le> (out_session w, out_tracker w)) (sorted_fs df_fs)"
    by (rule sorted_wrt_mono_rel [rotated]) (auto simp: fs_order_def less_eq_prod_def)
  then show ?thesis by (simp add: sorted_map)
qed

lemma filter_sorted_fs: "filter P (sorted_fs df_fs) = sorted_fs (filter P df_fs)"
  by (simp add: sorted_fs_def filter_sort)

lemma set_sorted_fs [simp]: "set (sorted_fs df_fs) = set df_fs"
  by (simp add: sorted_fs_def)

lemma map_fst_distance_previous_point [simp]: "map fst (distance_previous_point df_fs) = sorted_fs df_fs"
  by (simp add: distance_previous_point_def)

lemma fst_set_distance_previous_point [simp]: "fst ` set (distance_previous_point df_fs) = set df_fs"
proof -
  have "set (map fst (distance_previous_point df_fs)) = set df_fs" by simp
  then show ?thesis by (simp only: set_map)
qed

subsection \<open>Aggregates of a non-empty group\<close>

lemma sort_nth_le_Max: "i < length ds \<Longrightarrow> sort ds ! i \<le> Max (set ds)"
  by (metis Max_ge finite_set length_sort nth_mem set_sort)

lemma mean_le_Max: "ds \<noteq> [] \<Longrightarrow> mean ds \<le> Max (set ds)"
proof -
  assume "ds \<noteq> []"
  have "sum_list (map (\<lambda>v. v) ds) \<le> sum_list (map (\<lambda>_. Max (set ds)) ds)"
    by (rule sum_list_mono) simp
  then have "sum_list ds \<le> real (length ds) * Max (set ds)" by (simp add: sum_list_triv)
  with \<open>ds \<noteq> []\<close> show ?thesis by (simp add: mean_def divide_le_eq mult.commute)
qed

lemma median_le_Max: "ds \<noteq> [] \<Longrightarrow> median ds \<le> Max (set ds)"
proof -
  assume "ds \<noteq> []"
  then have n: "0 < length ds" by simp
  show ?thesis
  proof (cases "odd (length ds)")
    case True
    with n show ?thesis by (simp add: median_def sort_nth_le_Max)
  next
    case False
    from n have h: "length ds div 2 < length ds" by simp
    then have "length ds div 2 - 1 < length ds" by (rule less_imp_diff_less)
    with h have "sort ds ! (length ds div 2 - 1) \<le> Max (set ds)" "sort ds ! (length ds div 2) \<le> Max (set ds)"
      by (simp_all add: sort_nth_le_Max)
    with False show ?thesis by (simp add: median_def Let_def)
  qed
qed

lemma stop_metrics_of_props:
  assumes "ds \<noteq> []"
  shows "0 < number_of_stops (stop_metrics_of ds)
    \<and> avg_stopping_time (stop_metrics_of ds) \<le> max_stop_mins (stop_metrics_of ds)
    \<and> median_stopping_time (stop_metrics_of ds) \<le> max_stop_mins (stop_metrics_of ds)
    \<and> stopping_time_mins (stop_metrics_of ds)
        = real (number_of_stops (stop_metrics_of ds)) * avg_stopping_time (stop_metrics_of ds)
    \<and> (std_stopping_time (stop_metrics_of ds) = None \<longleftrightarrow> number_of_stops (stop_metrics_of ds) = 1)"
  using assms mean_le_Max [OF assms] median_le_Max [OF assms]
  by (auto simp: stop_metrics_of_def std_opt_def mean_def le_Suc_eq)

subsection \<open>The metric tables\<close>

lemma drop_block_fs_key4 [simp]: "drop_block (fs_key4 w) = fs_key3 w"
  by (simp add: drop_block_def fs_key4_def fs_key3_def)

lemma get_stop_metrics_mem:
  "(k, m) \<in> set (get_stop_metrics df_fs) \<Longrightarrow>
   m = stop_metrics_of (map duration_minutes (filter (\<lambda>w. out_type w = Stop \<and> fs_key3 w = k) df_fs))
   \<and> (\<exists>w\<in>set df_fs. out_type w = Stop \<and> fs_key3 w = k)"
  by (auto simp: get_stop_metrics_def Let_def)

lemma keys_get_stop_metrics:
  "fst ` set (get_stop_metrics df_fs) = fs_key3 ` {w \<in> set df_fs. out_type w = Stop}"
  by (auto simp: get_stop_metrics_def Let_def)

text \<open>The transition rows with their distances, and the keys of their blocks.\<close>

definition trans_dists :: "out_row list \<Rightarrow> (out_row \<times> real) list" where
  "trans_dists df_fs = filter (\<lambda>wd. out_type (fst wd) = Transition) (distance_previous_point df_fs)"

lemma fst_set_trans_dists [simp]: "fst ` set (trans_dists df_fs) = {w \<in> set df_fs. out_type w = Transition}"
proof -
  have "fst ` set (trans_dists df_fs) = {w \<in> fst ` set (distance_previous_point df_fs). out_type w = Transition}"
    unfolding trans_dists_def set_filter by (rule fst_set_filter_fst)
  then show ?thesis by simp
qed

lemma map_snd_filter_pairs:
  "map snd (filter (\<lambda>bm. g (fst bm) = k) (map (\<lambda>j. (j, f j)) ks)) = map f (filter (\<lambda>j. g j = k) ks)"
  by (induction ks) auto

lemma group_keys_pairs: "group_keys (\<lambda>bm. g (fst bm)) (map (\<lambda>j. (j, f j)) ks) = group_keys g ks"
  by (simp add: group_keys_def comp_def)

lemma get_transition_metrics_eq:
  "get_transition_metrics df_fs =
     map (\<lambda>k. (k, transition_metrics_of (map (block_walk_of (trans_dists df_fs))
                    (filter (\<lambda>j. drop_block j = k) (group_keys (\<lambda>wd. fs_key4 (fst wd)) (trans_dists df_fs))))))
         (group_keys drop_block (group_keys (\<lambda>wd. fs_key4 (fst wd)) (trans_dists df_fs)))"
  unfolding get_transition_metrics_def transition_blocks_def trans_dists_def Let_def
  by (simp only: map_snd_filter_pairs group_keys_pairs)

lemma keys_get_transition_metrics:
  "fst ` set (get_transition_metrics df_fs) = fs_key3 ` {w \<in> set df_fs. out_type w = Transition}"
proof -
  have "fst ` set (get_transition_metrics df_fs) = drop_block ` (\<lambda>wd. fs_key4 (fst wd)) ` set (trans_dists df_fs)"
    by (simp add: get_transition_metrics_eq Let_def)
  also have "\<dots> = fs_key3 ` fst ` set (trans_dists df_fs)"
    by (simp only: image_image drop_block_fs_key4)
  also have "\<dots> = fs_key3 ` {w \<in> set df_fs. out_type w = Transition}"
    by (simp only: fst_set_trans_dists)
  finally show ?thesis .
qed

lemma set_inner_merge_keys: "fst ` set (inner_merge l r) = fst ` set l \<inter> fst ` set r"
  by (force simp: inner_merge_def)

subsection \<open>Weighting\<close>

lemma weight_factor_Inl_iff:
  "(\<exists>e. weight_factor df_phases row = Inl e)
   \<longleftrightarrow> (\<forall>p\<in>set df_phases. \<not> (ph_phase p = mr_phase row \<and> ph_session p = mr_session row))"
proof (cases "filter (\<lambda>p. ph_phase p = mr_phase row \<and> ph_session p = mr_session row) df_phases")
  case Nil
  then show ?thesis by (simp add: weight_factor_def filter_empty_conv)
next
  case (Cons p ps)
  then have "p \<in> set (filter (\<lambda>p. ph_phase p = mr_phase row \<and> ph_session p = mr_session row) df_phases)"
    by simp
  then have "p \<in> set df_phases" "ph_phase p = mr_phase row" "ph_session p = mr_session row" by simp_all
  with Cons show ?thesis by (auto simp: weight_factor_def)
qed

lemma weight_rows_Inl_Cons:
  "(\<exists>e. weight_rows df_phases (row # rows) = Inl e)
   \<longleftrightarrow> (\<exists>e. weight_factor df_phases row = Inl e) \<or> (\<exists>e. weight_rows df_phases rows = Inl e)"
  by (cases "weight_factor df_phases row"; cases "weight_rows df_phases rows") auto

lemma weight_factor_Inr:
  assumes "weight_factor df_phases row = Inr f"
  obtains p where "p \<in> set df_phases" "ph_phase p = mr_phase row"
    and "f = np_div (min_phase_duration df_phases (mr_phase row)) (phase_diff p)"
proof (cases "filter (\<lambda>p. ph_phase p = mr_phase row \<and> ph_session p = mr_session row) df_phases")
  case Nil
  with assms show ?thesis by (simp add: weight_factor_def)
next
  case (Cons p ps)
  then have "p \<in> set (filter (\<lambda>p. ph_phase p = mr_phase row \<and> ph_session p = mr_session row) df_phases)"
    by simp
  then have "p \<in> set df_phases" "ph_phase p = mr_phase row" by simp_all
  moreover from Cons assms have "f = np_div (min_phase_duration df_phases (mr_phase row)) (phase_diff p)"
    by (simp add: weight_factor_def)
  ultimately show ?thesis by (rule that)
qed

lemma min_phase_duration_bounds:
  assumes "\<forall>q\<in>set df_phases. ph_start q < ph_end q" and "p \<in> set df_phases"
  shows "0 < min_phase_duration df_phases (ph_phase p) \<and> min_phase_duration df_phases (ph_phase p) \<le> phase_diff p"
proof -
  let ?S = "phase_diff ` set (filter (\<lambda>q. ph_phase q = ph_phase p) df_phases)"
  have inS: "phase_diff p \<in> ?S" using assms(2) by simp
  have pos: "0 < d" if "d \<in> ?S" for d using that assms(1) by (auto simp: phase_diff_def)
  have "Min ?S \<in> ?S" using inS by (intro Min_in) auto
  with pos have "0 < Min ?S" by blast
  moreover have "Min ?S \<le> phase_diff p" using inS by (simp add: Min_le)
  ultimately show ?thesis by (simp add: min_phase_duration_def)
qed

text \<open>
  The column loop: after the columns \<open>3 .. col - 1\<close> the output row holds the weighted
  values there and the row's own values elsewhere; the distance \<open>len - col\<close> decreases.
\<close>

lemma weight_cols_invariant:
  assumes "3 \<le> col" "col < length row"
  shows "(take 3 row @ map g (take (col - 3) (drop 3 row)) @ drop col row)[col := g (row ! col)]
         = take 3 row @ map g (take (col + 1 - 3) (drop 3 row)) @ drop (col + 1) row"
proof -
  have l: "length (take 3 row @ map g (take (col - 3) (drop 3 row))) = col"
    using assms by simp
  have d: "drop col row = row ! col # drop (col + 1) row"
    using assms(2) by (simp add: Cons_nth_drop_Suc)
  have t: "take (col + 1 - 3) (drop 3 row) = take (col - 3) (drop 3 row) @ [row ! col]"
  proof -
    have "col + 1 - 3 = Suc (col - 3)" "col - 3 < length (drop 3 row)" "drop 3 row ! (col - 3) = row ! col"
      using assms by simp_all
    then show ?thesis by (metis take_Suc_conv_app_nth)
  qed
  have "(take 3 row @ map g (take (col - 3) (drop 3 row)) @ drop col row)[col := g (row ! col)]
        = (take 3 row @ map g (take (col - 3) (drop 3 row))) @ g (row ! col) # drop (col + 1) row"
    unfolding d append_assoc [symmetric] list_update_append l by simp
  then show ?thesis unfolding t by simp
qed

lemma weight_cols_loop_result:
  "weight_cols_loop factor row = Some (max 3 (length row), take 3 row @ map (\<lambda>c. np_mul c factor) (drop 3 row))"
proof -
  let ?g = "\<lambda>c. np_mul c factor"
  let ?P = "\<lambda>(col, out). 3 \<le> col \<and> col \<le> max 3 (length row)
              \<and> out = take 3 row @ map ?g (take (col - 3) (drop 3 row)) @ drop col row"
  let ?b = "\<lambda>(col, out). col < length row"
  let ?c = "\<lambda>(col, out). (col + 1, out[col := np_mul (row ! col) factor])"
  have step: "?P (?c s) \<and> (\<lambda>(col, out). length row - col) (?c s) < (\<lambda>(col, out). length row - col) s"
    if "?P s" "?b s" for s
  proof -
    obtain col out where s: "s = (col, out)" by (cases s)
    with that have "3 \<le> col" "col < length row"
      and out: "out = take 3 row @ map ?g (take (col - 3) (drop 3 row)) @ drop col row" by simp_all
    have "out[col := ?g (row ! col)] = take 3 row @ map ?g (take (col + 1 - 3) (drop 3 row)) @ drop (col + 1) row"
      unfolding out using \<open>3 \<le> col\<close> \<open>col < length row\<close> by (rule weight_cols_invariant [where g = ?g])
    with \<open>3 \<le> col\<close> \<open>col < length row\<close> show ?thesis by (simp add: s)
  qed
  have step2: "?P (?c s)" if "?P s" "?b s" for s
    using step [OF that] by (rule conjunct1)
  have start: "?P (3, row)" by simp
  from measure_while_option_Some [where f = "\<lambda>(col, out). length row - col", OF step start]
  obtain t where t: "while_option ?b ?c (3, row) = Some t" ..
  have "?P t" by (rule while_option_rule [where P = ?P, OF step2 t start])
  moreover have "\<not> ?b t" using while_option_stop [OF t] .
  ultimately show ?thesis
  proof (cases t)
    case (Pair col out)
    assume "?P t" "\<not> ?b t"
    with Pair have "col = max 3 (length row)"
      and "out = take 3 row @ map ?g (take (col - 3) (drop 3 row)) @ drop col row" by auto
    with t Pair show ?thesis by (simp add: weight_cols_loop_def)
  qed
qed

section \<open>Properties\<close>

text \<open>
  The loop of lines 97--115 gives the first row 0 and every later row
  its distance to the row just before it in the sorted frame, 0 across a change of
  session or tracker; the state \<open>prevRow\<close> is always the previous row.
\<close>

theorem walk_equals_shift: "walk None ws = dist_shift ws"
  by (cases ws) (simp_all add: dist_shift_def walk_Some)

text \<open>
  C19 (functional). Row \<open>i\<close> of the frame sorted by session, tracker and block gets
  0 when it is the first row or begins a new session or tracker, and otherwise the
  Euclidean distance in metres (millimetres / 1000) to row \<open>i - 1\<close>.
\<close>

theorem distance_previous_point_nth:
  assumes "i < length df_fs"
  shows "distance_previous_point df_fs ! i
    = (sorted_fs df_fs ! i,
       if i = 0 then 0
       else if out_session (sorted_fs df_fs ! (i - 1)) = out_session (sorted_fs df_fs ! i)
             \<and> out_tracker (sorted_fs df_fs ! (i - 1)) = out_tracker (sorted_fs df_fs ! i)
       then euclid (fst (out_xy (sorted_fs df_fs ! i))) (snd (out_xy (sorted_fs df_fs ! i)))
              (fst (out_xy (sorted_fs df_fs ! (i - 1)))) (snd (out_xy (sorted_fs df_fs ! (i - 1)))) / 1000
       else 0)"
proof -
  let ?s = "sorted_fs df_fs"
  have l: "length ?s = length df_fs" by (simp add: sorted_fs_def)
  have w: "walk None ?s ! i = (if i = 0 then 0 else hop (?s ! (i - 1)) (?s ! i))"
  proof (cases ?s)
    case Nil
    with l assms show ?thesis by simp
  next
    case (Cons a as)
    with l assms show ?thesis
      by (cases i) (simp_all add: walk_Some nth_Cons')
  qed
  show ?thesis using assms l by (simp add: distance_previous_point_def w hop_def)
qed

text \<open>
  The distance column restricted to one (session, tracker) is the column
  computed from that session's and tracker's rows alone, so no distance is measured
  between rows of different trackers or sessions, whatever the other rows of the frame
  are.
\<close>

theorem distance_previous_point_per_tracker:
  "filter (\<lambda>(w, d). (out_session w, out_tracker w) = k) (distance_previous_point df_fs)
   = distance_previous_point (filter (\<lambda>w. (out_session w, out_tracker w) = k) df_fs)"
  using walk_filter [OF sorted_fs_sorted [of df_fs], of k]
  by (simp add: distance_previous_point_def filter_sorted_fs)

text \<open>
  Every row of the stop metrics counts at least one stop, its mean and
  median are at most its maximum, its total is the count times the mean, and its
  standard deviation is NaN exactly when the group has a single stop.
\<close>

theorem get_stop_metrics_bounds:
  assumes "(k, m) \<in> set (get_stop_metrics df_fs)"
  shows "0 < number_of_stops m \<and> avg_stopping_time m \<le> max_stop_mins m
    \<and> median_stopping_time m \<le> max_stop_mins m
    \<and> stopping_time_mins m = real (number_of_stops m) * avg_stopping_time m
    \<and> (std_stopping_time m = None \<longleftrightarrow> number_of_stops m = 1)"
proof -
  from get_stop_metrics_mem [OF assms]
  have m: "m = stop_metrics_of (map duration_minutes (filter (\<lambda>w. out_type w = Stop \<and> fs_key3 w = k) df_fs))"
    and ex: "\<exists>w\<in>set df_fs. out_type w = Stop \<and> fs_key3 w = k" by blast+
  from ex have "map duration_minutes (filter (\<lambda>w. out_type w = Stop \<and> fs_key3 w = k) df_fs) \<noteq> []"
    by (auto simp: filter_empty_conv)
  from stop_metrics_of_props [OF this] show ?thesis by (simp only: m)
qed

text \<open>
  For every row of the transition metrics, the walked distance is the
  sum of the distances of the transition rows of its (session, tracker, phase) and the
  number of transitions is the number of distinct transition blocks among them.
\<close>

theorem get_transition_metrics_totals:
  assumes "(k, m) \<in> set (get_transition_metrics df_fs)"
  shows "total_distance_walked m
           = sum_list (map snd (filter (\<lambda>wd. out_type (fst wd) = Transition \<and> fs_key3 (fst wd) = k)
                                      (distance_previous_point df_fs)))
    \<and> number_of_transitions m = card (fs_key4 ` {w \<in> set df_fs. out_type w = Transition \<and> fs_key3 w = k})"
proof -
  let ?T = "trans_dists df_fs"
  let ?KK = "filter (\<lambda>j. drop_block j = k) (group_keys (\<lambda>wd. fs_key4 (fst wd)) ?T)"
  from assms have m: "m = transition_metrics_of (map (block_walk_of ?T) ?KK)"
    by (simp add: get_transition_metrics_eq mem_image_pair)
  have setKK: "set ?KK = {j \<in> (\<lambda>wd. fs_key4 (fst wd)) ` set ?T. drop_block j = k}" by auto
  have "total_distance_walked m
        = sum_list (map (\<lambda>j. sum_list (map snd (filter (\<lambda>wd. fs_key4 (fst wd) = j) ?T))) ?KK)"
    by (simp add: m transition_metrics_of_def block_walk_of_def Let_def comp_def)
  also have "\<dots> = sum_list (map snd (filter (\<lambda>wd. drop_block (fs_key4 (fst wd)) = k) ?T))"
    by (rule sum_list_groups [OF _ setKK]) simp
  also have "filter (\<lambda>wd. drop_block (fs_key4 (fst wd)) = k) ?T
             = filter (\<lambda>wd. out_type (fst wd) = Transition \<and> fs_key3 (fst wd) = k) (distance_previous_point df_fs)"
    by (simp add: trans_dists_def)
  finally have total: "total_distance_walked m = sum_list (map snd \<dots>)" .
  have "number_of_transitions m = length ?KK"
    by (simp add: m transition_metrics_of_def)
  also have "\<dots> = card (set ?KK)"
    by (rule distinct_card [symmetric]) simp
  also have "set ?KK = fs_key4 ` {w \<in> set df_fs. out_type w = Transition \<and> fs_key3 w = k}"
  proof -
    have "set ?KK = {j \<in> fs_key4 ` fst ` set ?T. drop_block j = k}" by (simp only: setKK image_image)
    then show ?thesis by auto
  qed
  finally show ?thesis using total by simp
qed

text \<open>
  A (session, tracker, phase) is a row of \<open>merge1\<close>
  exactly when the frame has a stop row and a transition row with that key; a tracker
  that only stopped, or only walked, in a phase disappears from the metrics.
\<close>

theorem merge1_keys:
  "k \<in> fst ` set (merge1 df_fs)
   \<longleftrightarrow> (\<exists>w\<in>set df_fs. out_type w = Stop \<and> fs_key3 w = k)
     \<and> (\<exists>w\<in>set df_fs. out_type w = Transition \<and> fs_key3 w = k)"
  unfolding merge1_def set_inner_merge_keys keys_get_stop_metrics keys_get_transition_metrics
  by (simp only: Int_iff mem_image_Collect)

text \<open>
  C22 (error). With weighting on, the loop raises \<open>IndexError\<close> exactly when
  some output row's session has no row for the row's phase in the phases table.
\<close>

theorem weight_rows_error:
  "(\<exists>e. weight_rows df_phases rows = Inl e)
   \<longleftrightarrow> (\<exists>row\<in>set rows. \<forall>p\<in>set df_phases. \<not> (ph_phase p = mr_phase row \<and> ph_session p = mr_session row))"
  by (induction rows) (simp_all add: weight_rows_Inl_Cons weight_factor_Inl_iff del: weight_rows.simps(2))

text \<open>
  When every phase of the phases table ends after it starts, the factor of
  a row is a finite number in (0, 1], the shortest duration of the phase over all
  sessions divided by the duration in the row's own session.
\<close>

theorem weight_factor_bounds:
  assumes "\<forall>q\<in>set df_phases. ph_start q < ph_end q"
    and "weight_factor df_phases row = Inr f"
  shows "\<exists>a. f = Some a \<and> 0 < a \<and> a \<le> 1"
proof -
  obtain p where p: "p \<in> set df_phases" "ph_phase p = mr_phase row"
    and f: "f = np_div (min_phase_duration df_phases (mr_phase row)) (phase_diff p)"
    using weight_factor_Inr [OF assms(2)] by blast
  from min_phase_duration_bounds [OF assms(1) p(1)] p(2)
  have lo: "0 < min_phase_duration df_phases (mr_phase row)"
    and hi: "min_phase_duration df_phases (mr_phase row) \<le> phase_diff p" by simp_all
  with f show ?thesis by (simp add: np_div_def)
qed

text \<open>
  C23 (termination). The \<open>while\<close> loop over the columns of a row (lines 228--231)
  stops for every row, with \<open>col\<close> at the number of columns (or 3 for a row of fewer
  columns), and leaves the row that \<open>weight_row\<close> describes: the first three columns kept,
  every later column multiplied by the factor.
\<close>

theorem weight_cols_loop_terminates:
  "weight_cols_loop factor (mr_cols row) = Some (max 3 (length (mr_cols row)), mr_cols (weight_row factor row))"
  by (simp add: weight_cols_loop_result weight_row_def)

subsection \<open>Witnesses\<close>

text \<open>
  C20 (functional). The stop metrics hold a row for key \<open>k\<close> exactly when some stop row
  has session, tracker and phase \<open>k\<close>, and its columns are the count, sum, maximum, mean,
  median and sample standard deviation (NaN below two stops) of the durations in minutes
  of exactly those stop rows.
\<close>

theorem get_stop_metrics_values:
  "(k, m) \<in> set (get_stop_metrics df_fs) \<longleftrightarrow>
   (let ds = map (\<lambda>w. out_max_duration_sec w / 60)
               (filter (\<lambda>w. out_type w = Stop \<and> (out_session w, out_tracker w, out_phase w) = k) df_fs)
    in ds \<noteq> [] \<and> number_of_stops m = length ds \<and> stopping_time_mins m = sum_list ds
       \<and> max_stop_mins m = Max (set ds) \<and> avg_stopping_time m = sum_list ds / real (length ds)
       \<and> median_stopping_time m = median ds \<and> std_stopping_time m = std_opt ds)"
proof -
  let ?ds = "map duration_minutes (filter (\<lambda>w. out_type w = Stop \<and> fs_key3 w = k) df_fs)"
  have ds: "map (\<lambda>w. out_max_duration_sec w / 60)
        (filter (\<lambda>w. out_type w = Stop \<and> (out_session w, out_tracker w, out_phase w) = k) df_fs) = ?ds"
    by (simp add: duration_minutes_def fs_key3_def)
  have "(k, m) \<in> set (get_stop_metrics df_fs) \<longleftrightarrow> ?ds \<noteq> [] \<and> m = stop_metrics_of ?ds"
  proof
    assume "(k, m) \<in> set (get_stop_metrics df_fs)"
    from get_stop_metrics_mem [OF this] show "?ds \<noteq> [] \<and> m = stop_metrics_of ?ds"
      by (auto simp: filter_empty_conv)
  next
    assume a: "?ds \<noteq> [] \<and> m = stop_metrics_of ?ds"
    then obtain w where "w \<in> set df_fs" "out_type w = Stop" "fs_key3 w = k"
      by (auto simp: filter_empty_conv)
    then have "k \<in> fst ` set (get_stop_metrics df_fs)" by (auto simp: keys_get_stop_metrics)
    then obtain m' where m': "(k, m') \<in> set (get_stop_metrics df_fs)" by auto
    from get_stop_metrics_mem [OF m'] a m' show "(k, m) \<in> set (get_stop_metrics df_fs)" by simp
  qed
  also have "\<dots> \<longleftrightarrow> ?ds \<noteq> [] \<and> number_of_stops m = length ?ds \<and> stopping_time_mins m = sum_list ?ds
       \<and> max_stop_mins m = Max (set ?ds) \<and> avg_stopping_time m = sum_list ?ds / real (length ?ds)
       \<and> median_stopping_time m = median ?ds \<and> std_stopping_time m = std_opt ?ds"
    by (cases m) (auto simp: stop_metrics_of_def mean_def)
  finally show ?thesis by (simp only: ds Let_def)
qed

lemmas metrics_eval = get_stop_metrics_def fs_key3_def duration_minutes_def group_keys_def
  get_transition_metrics_def transition_blocks_def block_walk_of_def distance_previous_point_def
  sorted_fs_def fs_order_def hop_def euclid_def fs_key4_def drop_block_def mean_def Let_def
  weight_factor_def weight_row_def np_mul_def np_div_def min_phase_duration_def phase_diff_def
  block_walk.defs stop_rec.defs drow.defs brow.defs trow.defs crow.defs sample.defs
  phase_row.defs metric_row.defs

theorem get_stop_metrics_bounds_witness:
  "((1, 1, 1), stop_metrics_of [4]) \<in> set (get_stop_metrics [StopRow (stop_rec.make 1 1 1 1 1 240 0 240 0 0 0 0)])
  \<and> avg_stopping_time (stop_metrics_of [4]) \<le> max_stop_mins (stop_metrics_of [4])
  \<and> std_stopping_time (stop_metrics_of [4]) = None"
proof -
  have mem: "((1, 1, 1), stop_metrics_of [4]) \<in> set (get_stop_metrics [StopRow (stop_rec.make 1 1 1 1 1 240 0 240 0 0 0 0)])"
    by (simp add: metrics_eval)
  from get_stop_metrics_bounds [OF mem] mem show ?thesis by (simp add: stop_metrics_of_def)
qed

theorem get_transition_metrics_totals_witness:
  "((1, 1, 1), transition_metrics_of [block_walk.make 1 (1 / 2)])
     \<in> set (get_transition_metrics [StopRow (stop_rec.make 1 1 1 1 1 240 0 240 0 0 0 0),
          TransRow (drow.make 1 1 300 0 0 1 1 2 0 0 None 0 1 Transition 2 0),
          TransRow (drow.make 1 1 301 1000 0 1 1 3 0 0 None 0 1 Transition 2 1)])
   \<and> number_of_transitions (transition_metrics_of [block_walk.make 1 (1 / 2)])
     = card (fs_key4 ` {w \<in> set [StopRow (stop_rec.make 1 1 1 1 1 240 0 240 0 0 0 0),
          TransRow (drow.make 1 1 300 0 0 1 1 2 0 0 None 0 1 Transition 2 0),
          TransRow (drow.make 1 1 301 1000 0 1 1 3 0 0 None 0 1 Transition 2 1)].
          out_type w = Transition \<and> fs_key3 w = (1, 1, 1)})"
proof -
  have sq: "sqrt 1000000 = (1000::real)" by (rule real_sqrt_unique) simp_all
  have mem: "((1, 1, 1), transition_metrics_of [block_walk.make 1 (1 / 2)])
     \<in> set (get_transition_metrics [StopRow (stop_rec.make 1 1 1 1 1 240 0 240 0 0 0 0),
          TransRow (drow.make 1 1 300 0 0 1 1 2 0 0 None 0 1 Transition 2 0),
          TransRow (drow.make 1 1 301 1000 0 1 1 3 0 0 None 0 1 Transition 2 1)])"
    by (simp add: metrics_eval sq)
  from get_transition_metrics_totals [OF mem] mem show ?thesis by blast
qed

theorem merge1_keys_witness:
  "(1, 1, 1) \<notin> fst ` set (merge1 [StopRow (stop_rec.make 1 1 1 1 1 240 0 240 0 0 0 0)])"
  using merge1_keys [of "(1, 1, 1)" "[StopRow (stop_rec.make 1 1 1 1 1 240 0 240 0 0 0 0)]"]
  by (simp add: metrics_eval)

theorem weight_rows_error_witness:
  "(\<exists>e. weight_rows [phase_row.make 1 1 0 600, phase_row.make 2 1 0 1200] [metric_row.make 3 7 1 []] = Inl e)
   \<and> weight_rows [phase_row.make 1 1 0 600, phase_row.make 2 1 0 1200]
       [metric_row.make 2 7 1 [Some 2, Some 7, Some 1, Some 10, None]]
     = Inr [metric_row.make 2 7 1 [Some 2, Some 7, Some 1, Some 5, None]]"
  using weight_rows_error [of "[phase_row.make 1 1 0 600, phase_row.make 2 1 0 1200]" "[metric_row.make 3 7 1 []]"]
  by (simp add: metrics_eval)

theorem weight_factor_bounds_witness:
  "weight_factor [phase_row.make 1 1 0 600, phase_row.make 2 1 0 1200] (metric_row.make 2 7 1 []) = Inr (Some (1 / 2))
   \<and> 0 < (1 / 2 :: real) \<and> (1 / 2 :: real) \<le> 1"
proof -
  have f: "weight_factor [phase_row.make 1 1 0 600, phase_row.make 2 1 0 1200] (metric_row.make 2 7 1 []) = Inr (Some (1 / 2))"
    by (simp add: metrics_eval)
  have "\<forall>q\<in>set [phase_row.make 1 1 0 600, phase_row.make 2 1 0 1200]. ph_start q < ph_end q"
    by (simp add: metrics_eval)
  from weight_factor_bounds [OF this f] f show ?thesis by simp
qed

theorem distance_previous_point_nth_witness:
  "distance_previous_point [StopRow (stop_rec.make 1 1 1 1 1 240 0 240 0 0 0 0),
       StopRow (stop_rec.make 1 1 2 1 1 60 300 360 3000 4000 0 0)] ! 1
   = (StopRow (stop_rec.make 1 1 2 1 1 60 300 360 3000 4000 0 0), euclid 3000 4000 0 0 / 1000)"
proof -
  have s: "sorted_fs [StopRow (stop_rec.make 1 1 1 1 1 240 0 240 0 0 0 0),
       StopRow (stop_rec.make 1 1 2 1 1 60 300 360 3000 4000 0 0)]
     = [StopRow (stop_rec.make 1 1 1 1 1 240 0 240 0 0 0 0),
       StopRow (stop_rec.make 1 1 2 1 1 60 300 360 3000 4000 0 0)]"
    by (simp add: sorted_fs_def fs_order_def stop_rec.defs)
  have "distance_previous_point [StopRow (stop_rec.make 1 1 1 1 1 240 0 240 0 0 0 0),
       StopRow (stop_rec.make 1 1 2 1 1 60 300 360 3000 4000 0 0)] ! 1
    = (sorted_fs [StopRow (stop_rec.make 1 1 1 1 1 240 0 240 0 0 0 0),
         StopRow (stop_rec.make 1 1 2 1 1 60 300 360 3000 4000 0 0)] ! 1,
       if out_session (sorted_fs [StopRow (stop_rec.make 1 1 1 1 1 240 0 240 0 0 0 0),
             StopRow (stop_rec.make 1 1 2 1 1 60 300 360 3000 4000 0 0)] ! 0)
          = out_session (sorted_fs [StopRow (stop_rec.make 1 1 1 1 1 240 0 240 0 0 0 0),
             StopRow (stop_rec.make 1 1 2 1 1 60 300 360 3000 4000 0 0)] ! 1)
        \<and> out_tracker (sorted_fs [StopRow (stop_rec.make 1 1 1 1 1 240 0 240 0 0 0 0),
             StopRow (stop_rec.make 1 1 2 1 1 60 300 360 3000 4000 0 0)] ! 0)
          = out_tracker (sorted_fs [StopRow (stop_rec.make 1 1 1 1 1 240 0 240 0 0 0 0),
             StopRow (stop_rec.make 1 1 2 1 1 60 300 360 3000 4000 0 0)] ! 1)
       then euclid (fst (out_xy (sorted_fs [StopRow (stop_rec.make 1 1 1 1 1 240 0 240 0 0 0 0),
             StopRow (stop_rec.make 1 1 2 1 1 60 300 360 3000 4000 0 0)] ! 1)))
          (snd (out_xy (sorted_fs [StopRow (stop_rec.make 1 1 1 1 1 240 0 240 0 0 0 0),
             StopRow (stop_rec.make 1 1 2 1 1 60 300 360 3000 4000 0 0)] ! 1)))
          (fst (out_xy (sorted_fs [StopRow (stop_rec.make 1 1 1 1 1 240 0 240 0 0 0 0),
             StopRow (stop_rec.make 1 1 2 1 1 60 300 360 3000 4000 0 0)] ! 0)))
          (snd (out_xy (sorted_fs [StopRow (stop_rec.make 1 1 1 1 1 240 0 240 0 0 0 0),
             StopRow (stop_rec.make 1 1 2 1 1 60 300 360 3000 4000 0 0)] ! 0))) / 1000
       else 0)"
    using distance_previous_point_nth [of 1 "[StopRow (stop_rec.make 1 1 1 1 1 240 0 240 0 0 0 0),
       StopRow (stop_rec.make 1 1 2 1 1 60 300 360 3000 4000 0 0)]"]
    by simp
  then show ?thesis unfolding s by (simp add: stop_rec.defs)
qed

theorem get_stop_metrics_values_witness:
  "((1, 1, 1), stop_metrics_of [4]) \<in> set (get_stop_metrics [StopRow (stop_rec.make 1 1 1 1 1 240 0 240 0 0 0 0)])
   \<and> max_stop_mins (stop_metrics_of [4]) = 4"
proof -
  have "let ds = map (\<lambda>w. out_max_duration_sec w / 60)
               (filter (\<lambda>w. out_type w = Stop \<and> (out_session w, out_tracker w, out_phase w) = (1, 1, 1))
                 [StopRow (stop_rec.make 1 1 1 1 1 240 0 240 0 0 0 0)])
    in ds \<noteq> [] \<and> number_of_stops (stop_metrics_of [4]) = length ds
       \<and> stopping_time_mins (stop_metrics_of [4]) = sum_list ds
       \<and> max_stop_mins (stop_metrics_of [4]) = Max (set ds)
       \<and> avg_stopping_time (stop_metrics_of [4]) = sum_list ds / real (length ds)
       \<and> median_stopping_time (stop_metrics_of [4]) = median ds
       \<and> std_stopping_time (stop_metrics_of [4]) = std_opt ds"
    by (simp add: stop_metrics_of_def stop_rec.defs mean_def)
  then show ?thesis
    using get_stop_metrics_values [of "(1, 1, 1)" "stop_metrics_of [4]"
        "[StopRow (stop_rec.make 1 1 1 1 1 240 0 240 0 0 0 0)]"]
    by (simp add: stop_metrics_of_def stop_rec.defs)
qed

end
