(* ===== verification/Fixed_Points.thy ===== *)
theory Fixed_Points
  imports Classroom_Objects "HOL-Library.List_Lexorder" "HOL-Library.Char_ord"
begin

text \<open>
  \<open>generate_fixed_points_stats\<close> (\<open>_classroomObjects.py\<close>, lines 35--157): the stops of
  the stops-and-transitions frame are paired with the fixed points (students, zones) of
  their session, each pair gets its distance and the fixed point's \<open>obj_type\<close>; the
  closest fixed point of each stop (\<open>get_closer_fixedpoint_stop\<close>) within
  \<open>distance_tracker_fixed_point\<close> is kept; the stop durations are summed and counted per
  (session, tracker, phase, tag); and a table with one zero row per fixed point, phase
  and tracker of the session is filled in from that summary by a double loop.
\<close>

section \<open>Data\<close>

text \<open>One row of \<open>df_fixed_points\<close> (docstring, lines 49--58).\<close>

record fixed_point =
  fx_session :: session_id
  fx_tag :: string
  fx_x :: real
  fx_y :: real
  fx_obj_type :: string

text \<open>
  Lines 81--83 and 113: the stop rows of the frame. \<open>get_stops_and_transitions\<close> writes
  a stop block as a \<open>StopRow\<close> and keeps only transition rows as \<open>TransRow\<close>s.
\<close>

definition fx_stops :: "out_row list \<Rightarrow> stop_rec list" where
  "fx_stops df_stops_transitions = [s. StopRow s \<leftarrow> df_stops_transitions]"

section \<open>Distances to the fixed points\<close>

text \<open>Line 86: \<open>pd.merge(df1_fix, df_fixed_points, on='session')\<close>.\<close>

definition merge_rows :: "fixed_point list \<Rightarrow> stop_rec list \<Rightarrow> (stop_rec \<times> fixed_point) list" where
  "merge_rows df_fixed_points stops =
     concat (map (\<lambda>s. map (\<lambda>p. (s, p)) (filter (\<lambda>p. fx_session p = sr_session s) df_fixed_points)) stops)"

text \<open>Lines 95--96: the \<open>obj_type\<close> of the first fixed point with the row's session and tag.\<close>

definition obj_type_of :: "fixed_point list \<Rightarrow> session_id \<Rightarrow> string \<Rightarrow> string option" where
  "obj_type_of df_fixed_points s tag =
     (case filter (\<lambda>p. fx_session p = s \<and> fx_tag p = tag) df_fixed_points of
        [] \<Rightarrow> None
      | p # _ \<Rightarrow> Some (fx_obj_type p))"

text \<open>Lines 89--92 and 97: the columns kept for a merged row.\<close>

definition dist_row_of :: "stop_rec \<Rightarrow> fixed_point \<Rightarrow> string \<Rightarrow> dist_row" where
  "dist_row_of s p obj_type =
     \<lparr>dr_block = sr_block s, dr_tracker = sr_tracker s, dr_session = sr_session s, dr_tag = fx_tag p,
      dr_dist = euclid (fx_x p) (fx_y p) (sr_x s) (sr_y s), dr_timestamp = sr_timestamp s,
      dr_obj_type = obj_type\<rparr>"

text \<open>Lines 93--97: the loop over the merged rows; \<open>values[0]\<close> of an empty lookup raises.\<close>

fun add_obj_types :: "fixed_point list \<Rightarrow> (stop_rec \<times> fixed_point) list \<Rightarrow> dist_row list option" where
  "add_obj_types df_fixed_points [] = Some []"
| "add_obj_types df_fixed_points ((s, p) # ms) =
     (case obj_type_of df_fixed_points (sr_session s) (fx_tag p) of
        None \<Rightarrow> None
      | Some obj_type \<Rightarrow>
          (case add_obj_types df_fixed_points ms of
             None \<Rightarrow> None
           | Some rows \<Rightarrow> Some (dist_row_of s p obj_type # rows)))"

section \<open>Summary and statistics table\<close>

type_synonym visit_key = "session_id \<times> tracker_id \<times> int \<times> string"

text \<open>
  Lines 123--128: the closest fixed points within \<open>distance_tracker_fixed_point\<close>, and
  the sum and count of \<open>max_duration_sec\<close> per (session, tracker, phase, tag).
\<close>

definition visit_key_of :: "dist_row \<times> stop_rec \<Rightarrow> visit_key" where
  "visit_key_of rs = (dr_session (fst rs), dr_tracker (fst rs), sr_phase (snd rs), dr_tag (fst rs))"

definition fp_summary :: "real \<Rightarrow> (dist_row \<times> stop_rec) list \<Rightarrow> (visit_key \<times> real \<times> nat) list" where
  "fp_summary distance_tracker_fixed_point df_min_dis =
     (let near = filter (\<lambda>rs. dr_dist (fst rs) \<le> distance_tracker_fixed_point) df_min_dis
      in map (\<lambda>k. let ds = map (\<lambda>rs. real_of_int (sr_max_duration (snd rs))) (filter (\<lambda>rs. visit_key_of rs = k) near)
                  in (k, sum_list ds, length ds))
             (sort (remdups (map visit_key_of near))))"

text \<open>
  Lines 138--144: for every fixed point, one zero row per phase and tracker that the
  summary lists for the fixed point's session (\<open>drop_duplicates\<close> keeps first
  occurrences).
\<close>

definition stat_grid :: "fixed_point list \<Rightarrow> (visit_key \<times> real \<times> nat) list \<Rightarrow> fp_stat list" where
  "stat_grid df_fixed_points summary =
     concat (map (\<lambda>p.
       let rows = filter (\<lambda>r. fst (fst r) = fx_session p) summary;
           phases = unique (map (\<lambda>r. fst (snd (snd (fst r)))) rows);
           trackers = unique (map (\<lambda>r. fst (snd (fst r))) rows)
       in concat (map (\<lambda>ph. map (\<lambda>tr.
             \<lparr>fs_session = fx_session p, fs_tracker = tr, fs_phase = ph, fs_tag = fx_tag p,
              fs_sum = 0, fs_count = 0, fs_obj_type = fx_obj_type p\<rparr>) trackers) phases))
       df_fixed_points)"

definition stat_key :: "fp_stat \<Rightarrow> visit_key" where
  "stat_key g = (fs_session g, fs_tracker g, fs_phase g, fs_tag g)"

text \<open>
  Lines 146--154: for every summary row, every table row with its key gets its sum and
  count (the assignments to \<open>r_gini\<close>, a copy, have no effect).
\<close>

definition fill_stats :: "fp_stat list \<Rightarrow> (visit_key \<times> real \<times> nat) list \<Rightarrow> fp_stat list" where
  "fill_stats stats summary =
     foldl (\<lambda>st r. map (\<lambda>g. if fst r = stat_key g
                            then g\<lparr>fs_sum := fst (snd r), fs_count := real (snd (snd r))\<rparr> else g) st)
           stats summary"

text \<open>
  Lines 81--128: the summary of the visits, with the threshold of \<open>info.ini\<close> as a
  parameter; \<open>None\<close> is the \<open>IndexError\<close> of the \<open>obj_type\<close> lookup.
\<close>

definition fixed_point_summary ::
    "real \<Rightarrow> out_row list \<Rightarrow> fixed_point list \<Rightarrow> (visit_key \<times> real \<times> nat) list option" where
  "fixed_point_summary distance_tracker_fixed_point df_stops_transitions df_fixed_points =
     (let stops = fx_stops df_stops_transitions
      in case add_obj_types df_fixed_points (merge_rows df_fixed_points stops) of
           None \<Rightarrow> None
         | Some df_dist \<Rightarrow>
             Some (fp_summary distance_tracker_fixed_point
                     (get_closer_fixedpoint_stop df_dist (sort_key sr_session stops))))"

text \<open>Lines 134--154: the table of all fixed points filled in from the summary.\<close>

definition fixed_points_table :: "fixed_point list \<Rightarrow> (visit_key \<times> real \<times> nat) list \<Rightarrow> fp_stat list" where
  "fixed_points_table df_fixed_points summary = fill_stats (stat_grid df_fixed_points summary) summary"

text \<open>Lines 35--157.\<close>

definition generate_fixed_points_stats ::
    "real \<Rightarrow> out_row list \<Rightarrow> fixed_point list \<Rightarrow> fp_stat list option" where
  "generate_fixed_points_stats distance_tracker_fixed_point df_stops_transitions df_fixed_points =
     map_option (fixed_points_table df_fixed_points)
       (fixed_point_summary distance_tracker_fixed_point df_stops_transitions df_fixed_points)"

text \<open>
  The table the double loop of lines 146--154 is meant to build: each row looked up in
  the summary by its key, unchanged when the key is not there.
\<close>

definition stat_lookup :: "(visit_key \<times> real \<times> nat) list \<Rightarrow> fp_stat \<Rightarrow> fp_stat" where
  "stat_lookup summary g =
     (case map_of summary (stat_key g) of
        None \<Rightarrow> g
      | Some v \<Rightarrow> g\<lparr>fs_sum := fst v, fs_count := real (snd v)\<rparr>)"

section \<open>Lemmas\<close>

subsection \<open>The \<open>obj_type\<close> lookup\<close>

lemma obj_type_of_Some:
  "p \<in> set df_fixed_points \<Longrightarrow> \<exists>o'. obj_type_of df_fixed_points (fx_session p) (fx_tag p) = Some o'"
  by (cases "filter (\<lambda>q. fx_session q = fx_session p \<and> fx_tag q = fx_tag p) df_fixed_points")
     (auto simp: obj_type_of_def filter_empty_conv)

lemma set_merge_rows:
  "(s, p) \<in> set (merge_rows df_fixed_points stops)
   \<longleftrightarrow> s \<in> set stops \<and> p \<in> set df_fixed_points \<and> fx_session p = sr_session s"
  by (auto simp: merge_rows_def)

lemma add_obj_types_Some:
  assumes "\<forall>(s, p)\<in>set ms. \<exists>o'. obj_type_of df_fixed_points (sr_session s) (fx_tag p) = Some o'"
  shows "\<exists>rows. add_obj_types df_fixed_points ms = Some rows
           \<and> (\<forall>r\<in>set rows. \<exists>(s, p)\<in>set ms. \<exists>o'. r = dist_row_of s p o')"
  using assms
proof (induction ms)
  case (Cons sp ms)
  obtain s p where sp: "sp = (s, p)" by (cases sp)
  from Cons.prems sp obtain o' where o': "obj_type_of df_fixed_points (sr_session s) (fx_tag p) = Some o'"
    by auto
  from Cons.IH Cons.prems obtain rows where rows: "add_obj_types df_fixed_points ms = Some rows"
    and mem: "\<forall>r\<in>set rows. \<exists>(s, p)\<in>set ms. \<exists>o'. r = dist_row_of s p o'" by auto
  show ?case using sp o' rows mem by fastforce
qed simp

lemma add_obj_types_merge_rows:
  "\<exists>rows. add_obj_types df_fixed_points (merge_rows df_fixed_points stops) = Some rows
     \<and> (\<forall>r\<in>set rows. \<exists>p\<in>set df_fixed_points. dr_session r = fx_session p \<and> dr_tag r = fx_tag p)"
proof -
  have "\<forall>(s, p)\<in>set (merge_rows df_fixed_points stops).
          \<exists>o'. obj_type_of df_fixed_points (sr_session s) (fx_tag p) = Some o'"
    using obj_type_of_Some by (fastforce simp: set_merge_rows)
  from add_obj_types_Some [OF this] obtain rows
    where rows: "add_obj_types df_fixed_points (merge_rows df_fixed_points stops) = Some rows"
      and mem: "\<forall>r\<in>set rows. \<exists>(s, p)\<in>set (merge_rows df_fixed_points stops). \<exists>o'. r = dist_row_of s p o'"
    by blast
  have "\<exists>p\<in>set df_fixed_points. dr_session r = fx_session p \<and> dr_tag r = fx_tag p" if "r \<in> set rows" for r
  proof -
    from mem that obtain s p o' where "(s, p) \<in> set (merge_rows df_fixed_points stops)" "r = dist_row_of s p o'"
      by blast
    then show ?thesis by (auto simp: set_merge_rows dist_row_of_def intro!: bexI [of _ p])
  qed
  with rows show ?thesis by blast
qed

subsection \<open>The summary\<close>

lemma map_fst_fp_summary:
  "map fst (fp_summary d xs) = sort (remdups (map visit_key_of (filter (\<lambda>rs. dr_dist (fst rs) \<le> d) xs)))"
  by (simp add: fp_summary_def Let_def comp_def)

lemma distinct_fp_summary: "distinct (map fst (fp_summary d xs))"
  by (simp add: map_fst_fp_summary)

lemma fp_summary_key:
  "(k, v) \<in> set (fp_summary d xs) \<Longrightarrow> \<exists>rs\<in>set xs. k = visit_key_of rs"
proof -
  assume "(k, v) \<in> set (fp_summary d xs)"
  then have "k \<in> set (map fst (fp_summary d xs))" by force
  then show ?thesis by (auto simp: map_fst_fp_summary)
qed

lemma get_closer_fixedpoint_stop_mem:
  "(r, s) \<in> set (get_closer_fixedpoint_stop df_dist df_stops) \<Longrightarrow> r \<in> set df_dist"
  by (auto simp: get_closer_fixedpoint_stop_def Let_def closest_rows_mem)

lemma fixed_point_summary_Some:
  assumes "fixed_point_summary d df_stops_transitions df_fixed_points = Some summary"
  obtains rows where "\<forall>r\<in>set rows. \<exists>p\<in>set df_fixed_points. dr_session r = fx_session p \<and> dr_tag r = fx_tag p"
    and "summary = fp_summary d (get_closer_fixedpoint_stop rows (sort_key sr_session (fx_stops df_stops_transitions)))"
proof -
  from add_obj_types_merge_rows [of df_fixed_points "fx_stops df_stops_transitions"]
  obtain rows where rows: "add_obj_types df_fixed_points (merge_rows df_fixed_points (fx_stops df_stops_transitions)) = Some rows"
    and mem: "\<forall>r\<in>set rows. \<exists>p\<in>set df_fixed_points. dr_session r = fx_session p \<and> dr_tag r = fx_tag p"
    by blast
  from assms rows have "summary = fp_summary d (get_closer_fixedpoint_stop rows (sort_key sr_session (fx_stops df_stops_transitions)))"
    by (simp add: fixed_point_summary_def)
  with mem that show ?thesis by blast
qed

subsection \<open>The table\<close>

lemma stat_key_update [simp]:
  "stat_key (g\<lparr>fs_sum := a, fs_count := b\<rparr>) = stat_key g"
  by (simp add: stat_key_def)

lemma fill_stats_Cons:
  "fill_stats stats (r # rs)
   = fill_stats (map (\<lambda>g. if fst r = stat_key g then g\<lparr>fs_sum := fst (snd r), fs_count := real (snd (snd r))\<rparr> else g) stats) rs"
  by (simp add: fill_stats_def)

lemma fill_stats_eq_lookup:
  "distinct (map fst summary) \<Longrightarrow> fill_stats stats summary = map (stat_lookup summary) stats"
proof (induction summary arbitrary: stats)
  case Nil
  then show ?case by (simp add: fill_stats_def stat_lookup_def)
next
  case (Cons r rs)
  then have nr: "map_of rs (fst r) = None" and d: "distinct (map fst rs)"
    by (auto simp: map_of_eq_None_iff)
  show ?case
  proof (simp only: fill_stats_Cons Cons.IH [OF d] map_map comp_def, rule map_cong [OF refl])
    fix g
    show "stat_lookup rs (if fst r = stat_key g then g\<lparr>fs_sum := fst (snd r), fs_count := real (snd (snd r))\<rparr> else g)
          = stat_lookup (r # rs) g"
      using nr by (cases r) (auto simp: stat_lookup_def)
  qed
qed

lemma mem_concat_map: "a \<in> set as \<Longrightarrow> z \<in> set (f a) \<Longrightarrow> z \<in> set (concat (map f as))"
  by auto

lemma mem_concat_map_single: "a \<in> set as \<Longrightarrow> z = f a \<Longrightarrow> z \<in> set (map f as)"
  by simp

lemma stat_grid_zero: "g \<in> set (stat_grid df_fixed_points summary) \<Longrightarrow> fs_sum g = 0 \<and> fs_count g = 0"
  by (auto simp: stat_grid_def Let_def)

lemma stat_grid_has_key:
  assumes "p \<in> set df_fixed_points" and "(k, v) \<in> set summary" and "fst k = fx_session p"
  shows "\<exists>g\<in>set (stat_grid df_fixed_points summary). stat_key g = (fst k, fst (snd k), fst (snd (snd k)), fx_tag p)"
proof -
  let ?rows = "filter (\<lambda>r. fst (fst r) = fx_session p) summary"
  have "(k, v) \<in> set ?rows" using assms(2,3) by simp
  then have ph: "fst (snd (snd k)) \<in> set (unique (map (\<lambda>r. fst (snd (snd (fst r)))) ?rows))"
    and tr: "fst (snd k) \<in> set (unique (map (\<lambda>r. fst (snd (fst r))) ?rows))" by force+
  let ?g = "\<lparr>fs_session = fx_session p, fs_tracker = fst (snd k), fs_phase = fst (snd (snd k)),
             fs_tag = fx_tag p, fs_sum = 0, fs_count = 0, fs_obj_type = fx_obj_type p\<rparr>"
  have "?g \<in> set (stat_grid df_fixed_points summary)"
    unfolding stat_grid_def Let_def
    by (rule mem_concat_map [OF assms(1)], rule mem_concat_map [OF ph], rule mem_concat_map_single [OF tr]) simp
  moreover have "stat_key ?g = (fst k, fst (snd k), fst (snd (snd k)), fx_tag p)"
    using assms(3) by (simp add: stat_key_def)
  ultimately show ?thesis by blast
qed

lemma fixed_points_table_lookup:
  assumes "fixed_point_summary d df_stops_transitions df_fixed_points = Some summary"
  shows "fixed_points_table df_fixed_points summary = map (stat_lookup summary) (stat_grid df_fixed_points summary)"
proof -
  from assms obtain rows
    where "summary = fp_summary d (get_closer_fixedpoint_stop rows (sort_key sr_session (fx_stops df_stops_transitions)))"
    by (rule fixed_point_summary_Some)
  then have "distinct (map fst summary)" by (simp add: distinct_fp_summary)
  then show ?thesis by (simp add: fixed_points_table_def fill_stats_eq_lookup)
qed

lemma fixed_points_table_visited:
  assumes "fixed_point_summary d df_stops_transitions df_fixed_points = Some summary"
    and kv: "(k, v) \<in> set summary"
  shows "\<exists>g\<in>set (fixed_points_table df_fixed_points summary).
           stat_key g = k \<and> fs_sum g = fst v \<and> fs_count g = real (snd v)"
proof -
  from assms(1) obtain rows
    where rows: "\<forall>r\<in>set rows. \<exists>p\<in>set df_fixed_points. dr_session r = fx_session p \<and> dr_tag r = fx_tag p"
      and sm: "summary = fp_summary d (get_closer_fixedpoint_stop rows (sort_key sr_session (fx_stops df_stops_transitions)))"
    by (rule fixed_point_summary_Some)
  from kv sm obtain r s where rs: "(r, s) \<in> set (get_closer_fixedpoint_stop rows (sort_key sr_session (fx_stops df_stops_transitions)))"
    and k: "k = visit_key_of (r, s)"
    by (auto dest: fp_summary_key)
  from rs have "r \<in> set rows" by (rule get_closer_fixedpoint_stop_mem)
  with rows obtain p where p: "p \<in> set df_fixed_points" "dr_session r = fx_session p" "dr_tag r = fx_tag p"
    by blast
  from stat_grid_has_key [OF p(1) kv] p k obtain g0 where g0: "g0 \<in> set (stat_grid df_fixed_points summary)"
    and key: "stat_key g0 = k"
    by (auto simp: visit_key_of_def)
  have "distinct (map fst summary)" using sm by (simp add: distinct_fp_summary)
  from this kv have "map_of summary k = Some v" by (rule map_of_is_SomeI)
  with key have "stat_key (stat_lookup summary g0) = k \<and> fs_sum (stat_lookup summary g0) = fst v
                 \<and> fs_count (stat_lookup summary g0) = real (snd v)"
    by (simp add: stat_lookup_def)
  moreover from g0 fixed_points_table_lookup [OF assms(1)]
  have "stat_lookup summary g0 \<in> set (fixed_points_table df_fixed_points summary)" by simp
  ultimately show ?thesis by blast
qed

lemma fixed_points_table_unvisited:
  assumes "fixed_point_summary d df_stops_transitions df_fixed_points = Some summary"
    and g: "g \<in> set (fixed_points_table df_fixed_points summary)" and nk: "stat_key g \<notin> fst ` set summary"
  shows "fs_sum g = 0 \<and> fs_count g = 0"
proof -
  from g fixed_points_table_lookup [OF assms(1)] obtain g0
    where g0: "g0 \<in> set (stat_grid df_fixed_points summary)" and g': "g = stat_lookup summary g0"
    by auto
  have "stat_key g = stat_key g0"
    using g' by (cases "map_of summary (stat_key g0)") (simp_all add: stat_lookup_def)
  with nk have "map_of summary (stat_key g0) = None" by (simp add: map_of_eq_None_iff)
  with g' stat_grid_zero [OF g0] show ?thesis by (simp add: stat_lookup_def)
qed

section \<open>Properties\<close>

text \<open>
  The \<open>obj_type\<close> lookup of lines 95--96 never raises: every merged row
  comes from a fixed point with the row's session and tag, so
  \<open>generate_fixed_points_stats\<close> always returns a table.
\<close>

theorem generate_fixed_points_stats_total:
  "\<exists>stats. generate_fixed_points_stats d df_stops_transitions df_fixed_points = Some stats"
proof -
  from add_obj_types_merge_rows [of df_fixed_points "fx_stops df_stops_transitions"]
  obtain rows where "add_obj_types df_fixed_points (merge_rows df_fixed_points (fx_stops df_stops_transitions)) = Some rows"
    by blast
  then show ?thesis by (simp add: generate_fixed_points_stats_def fixed_point_summary_def)
qed

text \<open>
  The double loop of lines 146--154, which writes every summary row
  into every table row with the same key, computes the table in which each zero row is
  looked up in the summary by its (session, tracker, phase, tag).
\<close>

theorem fixed_points_table_is_lookup:
  assumes "fixed_point_summary d df_stops_transitions df_fixed_points = Some summary"
  shows "fill_stats (stat_grid df_fixed_points summary) summary = map (stat_lookup summary) (stat_grid df_fixed_points summary)"
  using fixed_points_table_lookup [OF assms] by (simp add: fixed_points_table_def)

text \<open>
  C26 (functional). No visit is lost and unvisited fixed points count zero: every row of
  the summary (the closest fixed point of a stop within
  \<open>distance_tracker_fixed_point\<close>, summed per session, tracker, phase and tag) is a row
  of the table with its sum and count, and every other row of the table has sum and
  count 0.
\<close>

theorem fixed_points_table_complete:
  assumes "fixed_point_summary d df_stops_transitions df_fixed_points = Some summary"
  shows "(\<forall>(k, v)\<in>set summary. \<exists>g\<in>set (fixed_points_table df_fixed_points summary).
            stat_key g = k \<and> fs_sum g = fst v \<and> fs_count g = real (snd v))
       \<and> (\<forall>g\<in>set (fixed_points_table df_fixed_points summary).
            stat_key g \<notin> fst ` set summary \<longrightarrow> fs_sum g = 0 \<and> fs_count g = 0)"
  using fixed_points_table_visited [OF assms] fixed_points_table_unvisited [OF assms] by blast

subsection \<open>Witnesses\<close>

text \<open>
  One stop at the origin of session 1 and two student positions of that session, at
  500 mm and 5 m: the stop visits the nearer one for 240 s, the other counts zero.
\<close>

lemma sqrt_250000: "sqrt 250000 = (500::real)"
  by (rule real_sqrt_unique) simp_all

lemma sqrt_25000000: "sqrt 25000000 = (5000::real)"
  by (rule real_sqrt_unique) simp_all

lemmas fixed_points_eval = fixed_point_summary_def fx_stops_def merge_rows_def obj_type_of_def
  dist_row_of_def get_closer_fixedpoint_stop_def closest_rows_def group_min_dists_def dr_key_def
  fp_summary_def visit_key_of_def euclid_def Let_def stop_rec.defs fixed_point.defs fp_stat.defs
  fixed_points_table_def fill_stats_def stat_grid_def stat_key_def sqrt_250000 sqrt_25000000

lemma fixed_points_example_summary:
  "fixed_point_summary 1000 [StopRow (stop_rec.make 1 1 1 1 1 240 0 240 0 0 0 0)]
      [fixed_point.make 1 ''s1'' 300 400 ''student'', fixed_point.make 1 ''s2'' 5000 0 ''student'']
    = Some [((1, 1, 1, ''s1''), 240, 1)]"
  by (simp add: fixed_points_eval)

theorem fixed_points_table_is_lookup_witness:
  "fill_stats (stat_grid [fixed_point.make 1 ''s1'' 300 400 ''student'', fixed_point.make 1 ''s2'' 5000 0 ''student'']
                 [((1, 1, 1, ''s1''), 240, 1)]) [((1, 1, 1, ''s1''), 240, 1)]
   = map (stat_lookup [((1, 1, 1, ''s1''), 240, 1)])
       (stat_grid [fixed_point.make 1 ''s1'' 300 400 ''student'', fixed_point.make 1 ''s2'' 5000 0 ''student'']
          [((1, 1, 1, ''s1''), 240, 1)])"
  by (rule fixed_points_table_is_lookup [OF fixed_points_example_summary])

theorem fixed_points_table_complete_witness:
  "fixed_points_table [fixed_point.make 1 ''s1'' 300 400 ''student'', fixed_point.make 1 ''s2'' 5000 0 ''student'']
      [((1, 1, 1, ''s1''), 240, 1)]
    = [fp_stat.make 1 1 1 ''s1'' 240 1 ''student'', fp_stat.make 1 1 1 ''s2'' 0 0 ''student'']
   \<and> (\<exists>g\<in>set (fixed_points_table [fixed_point.make 1 ''s1'' 300 400 ''student'', fixed_point.make 1 ''s2'' 5000 0 ''student'']
      [((1, 1, 1, ''s1''), 240, 1)]). stat_key g = (1, 1, 1, ''s1'') \<and> fs_sum g = 240 \<and> fs_count g = 1)"
proof -
  have "fixed_points_table [fixed_point.make 1 ''s1'' 300 400 ''student'', fixed_point.make 1 ''s2'' 5000 0 ''student'']
      [((1, 1, 1, ''s1''), 240, 1)]
    = [fp_stat.make 1 1 1 ''s1'' 240 1 ''student'', fp_stat.make 1 1 1 ''s2'' 0 0 ''student'']"
    by (simp add: fixed_points_eval)
  moreover have "\<exists>g\<in>set (fixed_points_table [fixed_point.make 1 ''s1'' 300 400 ''student'', fixed_point.make 1 ''s2'' 5000 0 ''student'']
      [((1, 1, 1, ''s1''), 240, 1)]). stat_key g = (1, 1, 1, ''s1'') \<and> fs_sum g = 240 \<and> fs_count g = 1"
    using fixed_points_table_complete [OF fixed_points_example_summary] by simp
  ultimately show ?thesis by blast
qed

end
