(* ===== verification/Timedelta_Str.thy ===== *)
theory Timedelta_Str
  imports Cluster_Classifier
begin

text \<open>
  The \<open>time_diff2\<close> column of \<open>tag_clusters\<close> (\<open>_stopsAndTransitions.py\<close>, lines
  268--273) at the level of strings: the \<open>time_diff\<close> column is printed with
  \<open>astype(str)\<close> (pandas prints a timedelta of \<open>d\<close> seconds as
  \<open>"<days> days <hh>:<mm>:<ss>"\<close>, with a \<open>+\<close> before the time when \<open>d < 0\<close>, and a
  missing value as \<open>"NaT"\<close>), the first match of the regular expression
  \<open>(..:..:..)\<close> is extracted, a missing match becomes \<open>"00:00:00"\<close>, and the result
  is read back with \<open>pd.to_timedelta\<close>. The classifier of \<open>Cluster_Classifier\<close> uses
  the arithmetic reading \<open>hms_seconds\<close>; the theorems below show the two agree.
\<close>

section \<open>Printing a timedelta\<close>

definition digit_char :: "nat \<Rightarrow> char" where
  "digit_char n = char_of (48 + n)"

fun nat_str :: "nat \<Rightarrow> string" where
  "nat_str n = (if n < 10 then [digit_char n] else nat_str (n div 10) @ [digit_char (n mod 10)])"

declare nat_str.simps [simp del]

text \<open>Python's \<open>str\<close> of an integer.\<close>

definition int_str :: "int \<Rightarrow> string" where
  "int_str i = (if i < 0 then CHR ''-'' # nat_str (nat (- i)) else nat_str (nat i))"

definition two_digits :: "nat \<Rightarrow> string" where
  "two_digits n = [digit_char (n div 10), digit_char (n mod 10)]"

text \<open>\<open>hh:mm:ss\<close> of a number of seconds below one day.\<close>

definition hms_str :: "int \<Rightarrow> string" where
  "hms_str s = two_digits (nat (s div 3600)) @ CHR '':'' # two_digits (nat (s mod 3600 div 60))
               @ CHR '':'' # two_digits (nat (s mod 60))"

text \<open>Line 269: \<open>astype(str)\<close> of a cell of \<open>time_diff\<close>.\<close>

definition td_str :: "seconds option \<Rightarrow> string" where
  "td_str td =
     (case td of
        None \<Rightarrow> ''NaT''
      | Some d \<Rightarrow> int_str (d div 86400) @ '' days '' @ (if d < 0 then ''+'' else '''') @ hms_str (d mod 86400))"

section \<open>Reading it back\<close>

text \<open>
  Line 271: \<open>str.extract('(..:..:..)')\<close>, the leftmost window of eight characters
  (none a newline) with a colon in the third and sixth place.
\<close>

fun extract_hms :: "string \<Rightarrow> string option" where
  "extract_hms [] = None"
| "extract_hms (ch # rest) =
     (let w = take 8 (ch # rest)
      in if length w = 8 \<and> w ! 2 = CHR '':'' \<and> w ! 5 = CHR '':'' \<and> CHR 0x0A \<notin> set w
         then Some w else extract_hms rest)"

definition digit_val :: "char \<Rightarrow> int option" where
  "digit_val c = (let n = (of_char c :: nat) in if 48 \<le> n \<and> n \<le> 57 then Some (int n - 48) else None)"

definition two_digit_val :: "char \<Rightarrow> char \<Rightarrow> int option" where
  "two_digit_val a b =
     (case (digit_val a, digit_val b) of (Some u, Some v) \<Rightarrow> Some (10 * u + v) | _ \<Rightarrow> None)"

text \<open>Line 273: \<open>pd.to_timedelta\<close> of an \<open>hh:mm:ss\<close> string; \<open>None\<close> is its \<open>ValueError\<close>.\<close>

fun parse_hms :: "string \<Rightarrow> seconds option" where
  "parse_hms [h1, h2, c1, m1, m2, c2, s1, s2] =
     (if c1 = CHR '':'' \<and> c2 = CHR '':''
      then (case (two_digit_val h1 h2, two_digit_val m1 m2, two_digit_val s1 s2) of
              (Some h, Some m, Some s) \<Rightarrow> Some (3600 * h + 60 * m + s)
            | _ \<Rightarrow> None)
      else None)"
| "parse_hms _ = None"

text \<open>Lines 269--273 for one cell: print, extract, \<open>fillna('00:00:00')\<close>, parse.\<close>

definition time_diff2_of :: "seconds option \<Rightarrow> seconds option" where
  "time_diff2_of td = parse_hms (case extract_hms (td_str td) of None \<Rightarrow> ''00:00:00'' | Some w \<Rightarrow> w)"

section \<open>Lemmas\<close>

lemma of_char_digit_char: "n < 10 \<Longrightarrow> (of_char (digit_char n) :: nat) = 48 + n"
  by (simp add: digit_char_def of_char_of)

lemma digit_char_not_colon: "n < 10 \<Longrightarrow> digit_char n \<noteq> CHR '':'' \<and> CHR '':'' \<noteq> digit_char n"
proof -
  assume n: "n < 10"
  have "(of_char (digit_char n) :: nat) \<noteq> of_char (CHR '':'')" using n by (simp add: of_char_digit_char)
  then show ?thesis by metis
qed

lemma digit_char_not_newline: "n < 10 \<Longrightarrow> digit_char n \<noteq> CHR 0x0A \<and> CHR 0x0A \<noteq> digit_char n"
proof -
  assume n: "n < 10"
  have "(of_char (digit_char n) :: nat) \<noteq> of_char (CHR 0x0A)" using n by (simp add: of_char_digit_char)
  then show ?thesis by metis
qed

lemma digit_val_digit_char [simp]: "n < 10 \<Longrightarrow> digit_val (digit_char n) = Some (int n)"
  by (simp add: digit_val_def of_char_digit_char)

lemma two_digit_val_two_digits:
  assumes "n < 100"
  shows "two_digit_val (digit_char (n div 10)) (digit_char (n mod 10)) = Some (int n)"
proof -
  have "10 * int (n div 10) + int (n mod 10) = int n" by (simp add: zdiv_int zmod_int)
  with assms show ?thesis by (simp add: two_digit_val_def)
qed

lemma set_nat_str: "c \<in> set (nat_str n) \<Longrightarrow> \<exists>k<10. c = digit_char k"
proof (induction n rule: nat_str.induct)
  case (1 n)
  show ?case
  proof (cases "n < 10")
    case True
    with "1.prems" show ?thesis by (auto simp: nat_str.simps [of n])
  next
    case False
    with "1.prems" have "c \<in> set (nat_str (n div 10)) \<or> c = digit_char (n mod 10)"
      by (auto simp: nat_str.simps [of n])
    then show ?thesis
    proof
      assume "c \<in> set (nat_str (n div 10))"
      then show ?thesis by (rule "1.IH" [OF False])
    next
      assume "c = digit_char (n mod 10)"
      then show ?thesis by (intro exI [of _ "n mod 10"]) simp
    qed
  qed
qed

lemma colon_notin_int_str: "CHR '':'' \<notin> set (int_str i)"
proof
  assume "CHR '':'' \<in> set (int_str i)"
  then have "CHR '':'' \<in> set (nat_str (nat (- i))) \<or> CHR '':'' \<in> set (nat_str (nat i))"
    by (auto simp: int_str_def split: if_splits)
  then obtain k where "k < 10" "CHR '':'' = digit_char k" using set_nat_str by blast
  then show False using digit_char_not_colon by metis
qed

text \<open>The shape of \<open>hh:mm:ss\<close>: eight characters, colons in the third and sixth place only.\<close>

lemma two_digits_chars:
  "k < 100 \<Longrightarrow> length (two_digits k) = 2 \<and> CHR '':'' \<notin> set (two_digits k) \<and> CHR 0x0A \<notin> set (two_digits k)"
  by (simp add: two_digits_def digit_char_not_colon digit_char_not_newline)

lemma hms_str_shape:
  assumes "0 \<le> s" "s < 86400"
  shows "length (hms_str s) = 8 \<and> hms_str s ! 2 = CHR '':'' \<and> hms_str s ! 5 = CHR '':''
         \<and> hms_str s ! 0 \<noteq> CHR '':'' \<and> hms_str s ! 1 \<noteq> CHR '':'' \<and> CHR 0x0A \<notin> set (hms_str s)"
proof -
  have h: "two_digits (nat (s div 3600)) = [digit_char (nat (s div 3600) div 10), digit_char (nat (s div 3600) mod 10)]"
    by (simp add: two_digits_def)
  have hc: "nat (s div 3600) div 10 < 10" using assms by simp
  have th: "length (two_digits (nat (s div 3600))) = 2 \<and> CHR 0x0A \<notin> set (two_digits (nat (s div 3600)))"
    using two_digits_chars [of "nat (s div 3600)"] assms by simp
  have tm: "length (two_digits (nat (s mod 3600 div 60))) = 2 \<and> CHR 0x0A \<notin> set (two_digits (nat (s mod 3600 div 60)))"
    using two_digits_chars [of "nat (s mod 3600 div 60)"] by simp
  have ts: "length (two_digits (nat (s mod 60))) = 2 \<and> CHR 0x0A \<notin> set (two_digits (nat (s mod 60)))"
    using two_digits_chars [of "nat (s mod 60)"] by simp
  have "hms_str s ! 0 = digit_char (nat (s div 3600) div 10)" "hms_str s ! 1 = digit_char (nat (s div 3600) mod 10)"
    by (simp_all add: hms_str_def h)
  with hc have "hms_str s ! 0 \<noteq> CHR '':'' \<and> hms_str s ! 1 \<noteq> CHR '':''"
    by (simp add: digit_char_not_colon)
  moreover have "length (hms_str s) = 8 \<and> hms_str s ! 2 = CHR '':'' \<and> hms_str s ! 5 = CHR '':''
                 \<and> CHR 0x0A \<notin> set (hms_str s)"
    using th tm ts by (simp add: hms_str_def nth_append)
  ultimately show ?thesis by blast
qed

lemma extract_hms_Cons_skip: "xs ! 1 \<noteq> CHR '':'' \<Longrightarrow> extract_hms (c # xs) = extract_hms xs"
  by (simp add: Let_def)

lemma extract_hms_suffix:
  assumes "CHR '':'' \<notin> set p" and "0 \<le> s" "s < 86400"
  shows "extract_hms (p @ hms_str s) = Some (hms_str s)"
  using assms(1)
proof (induction p)
  case Nil
  obtain ch rest where "hms_str s = ch # rest"
    using hms_str_shape [OF assms(2,3)] by (cases "hms_str s") auto
  with hms_str_shape [OF assms(2,3)] show ?case by (simp add: Let_def)
next
  case (Cons a p')
  let ?t = "hms_str s"
  have t: "?t ! 0 \<noteq> CHR '':''" "?t ! 1 \<noteq> CHR '':''"
    using hms_str_shape [OF assms(2,3)] by simp_all
  have ne: "(p' @ ?t) ! 1 \<noteq> CHR '':''"
  proof (cases p')
    case Nil
    with t show ?thesis by simp
  next
    case (Cons b p'')
    with t Cons.prems show ?thesis by (cases p'') auto
  qed
  from Cons have "extract_hms (p' @ ?t) = Some ?t" by simp
  then show ?case by (simp only: append_Cons extract_hms_Cons_skip [OF ne])
qed

lemma hms_decompose: "0 \<le> s \<Longrightarrow> 3600 * (s div 3600) + 60 * (s mod 3600 div 60) + s mod 60 = (s::int)"
proof -
  have a: "s mod 3600 = 60 * (s mod 3600 div 60) + s mod 3600 mod 60" by simp
  have b: "s mod 3600 mod 60 = s mod 60" by (rule mod_mod_cancel) simp
  have c: "s = 3600 * (s div 3600) + s mod 3600" by simp
  from a b c show "3600 * (s div 3600) + 60 * (s mod 3600 div 60) + s mod 60 = s" by linarith
qed

lemma parse_hms_str:
  assumes "0 \<le> s" "s < 86400"
  shows "parse_hms (hms_str s) = Some s"
proof -
  let ?H = "nat (s div 3600)" and ?M = "nat (s mod 3600 div 60)" and ?S = "nat (s mod 60)"
  have h: "?H < 100" using assms by simp
  have m: "?M < 100" by simp
  have sc: "?S < 100" by simp
  have "hms_str s = [digit_char (?H div 10), digit_char (?H mod 10), CHR '':'', digit_char (?M div 10),
                     digit_char (?M mod 10), CHR '':'', digit_char (?S div 10), digit_char (?S mod 10)]"
    by (simp add: hms_str_def two_digits_def)
  then have "parse_hms (hms_str s) = Some (3600 * int ?H + 60 * int ?M + int ?S)"
    by (simp only: parse_hms.simps(1) two_digit_val_two_digits [OF h] two_digit_val_two_digits [OF m]
        two_digit_val_two_digits [OF sc] simp_thms if_True prod.case option.case)
  also have "\<dots> = Some s"
  proof -
    have e1: "int ?H = s div 3600" using assms by simp
    have e2: "int ?M = s mod 3600 div 60" by simp
    have e3: "int ?S = s mod 60" by simp
    show ?thesis unfolding e1 e2 e3 using hms_decompose [OF assms(1)] by simp
  qed
  finally show ?thesis .
qed

lemma colon_notin_td_prefix:
  "CHR '':'' \<notin> set (int_str q @ '' days '' @ (if d < 0 then ''+'' else ''''))"
  using colon_notin_int_str [of q] by simp

lemma time_diff2_of_Some: "time_diff2_of (Some d) = Some (d mod 86400)"
proof -
  have r: "0 \<le> d mod 86400" "d mod 86400 < 86400" by simp_all
  have "extract_hms ((int_str (d div 86400) @ '' days '' @ (if d < 0 then ''+'' else '''')) @ hms_str (d mod 86400))
        = Some (hms_str (d mod 86400))"
    by (rule extract_hms_suffix [OF colon_notin_td_prefix r])
  then have "extract_hms (td_str (Some d)) = Some (hms_str (d mod 86400))"
    by (simp only: td_str_def option.case append_assoc)
  with parse_hms_str [OF r] show ?thesis by (simp add: time_diff2_of_def)
qed

section \<open>Properties\<close>

text \<open>
  C12 (roundtrip). A time delta below one day survives the round trip of lines
  269--273: printed by pandas, cut out by the \<open>(..:..:..)\<close> regex and read back by
  \<open>pd.to_timedelta\<close>, it is the same number of seconds.
\<close>

theorem time_diff2_roundtrip:
  assumes "0 \<le> d" and "d < 86400"
  shows "time_diff2_of (Some d) = Some d"
  using time_diff2_of_Some [of d] assms by simp

text \<open>
  For every cell of \<open>time_diff\<close>, a delta of any sign and size or
  NaT, the string pipeline of lines 269--273 never raises and yields the arithmetic
  reading \<open>hms_seconds\<close> that the classifier uses: the delta modulo one day, and 0
  for NaT.
\<close>

theorem time_diff2_is_hms_seconds: "time_diff2_of td = Some (hms_seconds td)"
proof (cases td)
  case None
  then show ?thesis
    by (simp add: time_diff2_of_def td_str_def hms_seconds_def two_digit_val_def digit_val_def)
next
  case (Some d)
  then show ?thesis by (simp add: time_diff2_of_Some hms_seconds_def)
qed

theorem time_diff2_roundtrip_witness: "time_diff2_of (Some 3725) = Some 3725"
  using time_diff2_roundtrip [of 3725] by simp

end
