(* ===== verification/Diarizer.thy ===== *)
theory Diarizer
  imports Prelude
begin

text \<open>
  The batch runner \<open>run_diarization\<close> (\<open>src/whisper-diarization-main/run_diarizer.py\<close>,
  lines 4--27): the files of a folder whose extension, as \<open>os.path.splitext\<close> finds it
  and lower-cased, is an audio extension are processed one by one; for each, a
  \<open>diarize.py\<close> command line is built and run through PowerShell, and a failing run
  (\<open>CalledProcessError\<close>) is reported and the loop goes on. The script runs on Windows,
  so \<open>os.path\<close> is \<open>ntpath\<close>: \<open>splitext\<close> is CPython's \<open>genericpath._splitext\<close> with
  separators backslash and slash. The listing \<open>os.listdir\<close> and the outcome of each
  command are inputs: the listing is a list of bare file names, and the outcome of a
  command is \<open>Inr\<close> its standard output or \<open>Inl\<close> its error output.
\<close>

section \<open>\<open>os.path.splitext\<close>\<close>

text \<open>\<open>str.rfind\<close>: the last index of a character, \<open>-1\<close> when it does not occur.\<close>

definition rfind :: "char \<Rightarrow> string \<Rightarrow> int" where
  "rfind c s = (case filter (\<lambda>i. s ! i = c) [0..<length s] of [] \<Rightarrow> -1 | is \<Rightarrow> int (last is))"

text \<open>
  The loop of \<open>_splitext\<close> that skips the leading dots of the file name: \<open>True\<close> when
  a character other than a dot occurs between \<open>filenameIndex\<close> and \<open>dotIndex\<close> (the
  early \<open>return\<close> of the split), \<open>False\<close> when the loop runs out.
\<close>

function skip_dots :: "string \<Rightarrow> int \<Rightarrow> int \<Rightarrow> bool" where
  "skip_dots p filenameIndex dotIndex =
     (if filenameIndex < dotIndex
      then (if p ! nat filenameIndex \<noteq> CHR ''.'' then True else skip_dots p (filenameIndex + 1) dotIndex)
      else False)"
  by pat_completeness auto
termination by (relation "measure (\<lambda>(p, i, j). nat (j - i))") auto

declare skip_dots.simps [simp del]

definition splitext :: "string \<Rightarrow> string \<times> string" where
  "splitext p =
     (let sepIndex = max (rfind (CHR 0x5C) p) (rfind (CHR ''/'') p);
          dotIndex = rfind (CHR ''.'') p
      in if sepIndex < dotIndex \<and> skip_dots p (sepIndex + 1) dotIndex
         then (take (nat dotIndex) p, drop (nat dotIndex) p)
         else (p, ''''))"

section \<open>The audio files and their commands\<close>

text \<open>\<open>str.lower\<close> on ASCII letters.\<close>

definition lower_char :: "char \<Rightarrow> char" where
  "lower_char c = (let n = (of_char c :: nat) in if 65 \<le> n \<and> n \<le> 90 then char_of (n + 32) else c)"

definition audio_extensions :: "string list" where
  "audio_extensions = [''.m4a'', ''.mp4'', ''.wav'', ''.ogg'', ''.flac'']"

text \<open>Line 10.\<close>

definition audio_files :: "string list \<Rightarrow> string list" where
  "audio_files files = filter (\<lambda>f. map lower_char (snd (splitext f)) \<in> set audio_extensions) files"

text \<open>
  Line 13: \<open>os.path.join(folder_path, audio_file)\<close> for a bare file name: a backslash
  is put between them unless the folder is empty, ends with a separator, or is a bare
  drive such as \<open>C:\<close>.
\<close>

definition path_join :: "string \<Rightarrow> string \<Rightarrow> string" where
  "path_join folder f =
     (if folder = [] \<or> last folder \<in> {CHR 0x5C, CHR ''/''} \<or> (length folder = 2 \<and> folder ! 1 = CHR '':'')
      then folder @ f else folder @ CHR 0x5C # f)"

text \<open>Line 16: the command line.\<close>

definition diarize_command :: "string \<Rightarrow> string \<Rightarrow> string \<Rightarrow> string \<Rightarrow> string" where
  "diarize_command full_path whisper_model device language =
     ''python diarize.py -a '' @ CHR 0x22 # full_path @ CHR 0x22 # '' --whisper-model '' @ whisper_model
     @ '' --device '' @ device @ '' --language '' @ language"

text \<open>The lines printed by the loop.\<close>

datatype diar_log = Processing string | Output string | ErrorProcessing string string

text \<open>
  Lines 12--27: for every audio file, print it, run its command, and print the output
  or, when the run fails, the error; the \<open>except\<close> lets the loop go on.
\<close>

fun diarize_loop ::
    "(string \<Rightarrow> string + string) \<Rightarrow> string \<Rightarrow> string \<Rightarrow> string \<Rightarrow> string \<Rightarrow> string list \<Rightarrow> diar_log list" where
  "diarize_loop run folder_path whisper_model device language [] = []"
| "diarize_loop run folder_path whisper_model device language (audio_file # fs) =
     Processing audio_file
     # (case run (diarize_command (path_join folder_path audio_file) whisper_model device language) of
          Inr out \<Rightarrow> [Output out]
        | Inl err \<Rightarrow> [ErrorProcessing audio_file err])
     @ diarize_loop run folder_path whisper_model device language fs"

definition run_diarization ::
    "(string \<Rightarrow> string + string) \<Rightarrow> string list \<Rightarrow> string \<Rightarrow> string \<Rightarrow> string \<Rightarrow> string \<Rightarrow> diar_log list" where
  "run_diarization run files folder_path whisper_model device language =
     diarize_loop run folder_path whisper_model device language (audio_files files)"

section \<open>Lemmas\<close>

lemma sorted_le_last: "sorted ns \<Longrightarrow> n \<in> set ns \<Longrightarrow> n \<le> last (ns :: nat list)"
  by (induction ns) (auto simp: last_in_set)

lemma rfind_absent: "c \<notin> set s \<Longrightarrow> rfind c s = -1"
  by (auto simp: rfind_def filter_empty_conv in_set_conv_nth)

lemma rfind_present:
  assumes "c \<in> set s"
  obtains i where "rfind c s = int i" "i < length s" "s ! i = c" "\<forall>j<length s. i < j \<longrightarrow> s ! j \<noteq> c"
proof -
  let ?is = "filter (\<lambda>i. s ! i = c) [0..<length s]"
  from assms obtain k where "k < length s" "s ! k = c" by (auto simp: in_set_conv_nth)
  then have ne: "?is \<noteq> []" by (auto simp: filter_empty_conv)
  then have r: "rfind c s = int (last ?is)" by (cases ?is) (simp_all add: rfind_def)
  from ne have "last ?is \<in> set ?is" by (rule last_in_set)
  then have i: "last ?is < length s" "s ! last ?is = c" by simp_all
  have "s ! j \<noteq> c" if "j < length s" "last ?is < j" for j
  proof
    assume "s ! j = c"
    with that(1) have "j \<in> set ?is" by simp
    then have "j \<le> last ?is" by (rule sorted_le_last [rotated]) (rule sorted_wrt_filter, simp)
    with that(2) show False by simp
  qed
  with r i that show ?thesis by blast
qed

text \<open>
  What \<open>splitext\<close> returns: the two parts give the name back, and the extension is
  empty or starts at the last dot and holds no other dot and no separator.
\<close>

lemma splitext_parts:
  "fst (splitext p) @ snd (splitext p) = p
   \<and> (snd (splitext p) = []
      \<or> (hd (snd (splitext p)) = CHR ''.'' \<and> CHR ''.'' \<notin> set (tl (snd (splitext p)))
         \<and> CHR 0x5C \<notin> set (snd (splitext p)) \<and> CHR ''/'' \<notin> set (snd (splitext p))))"
proof -
  let ?sep = "max (rfind (CHR 0x5C) p) (rfind (CHR ''/'') p)"
  let ?dot = "rfind (CHR ''.'') p"
  have sp: "splitext p = (if ?sep < ?dot \<and> skip_dots p (?sep + 1) ?dot
                          then (take (nat ?dot) p, drop (nat ?dot) p) else (p, ''''))"
    by (simp only: splitext_def Let_def)
  show ?thesis
  proof (cases "?sep < ?dot \<and> skip_dots p (?sep + 1) ?dot")
    case False
    from sp have "splitext p = (p, '''')" by (simp only: if_not_P [OF False])
    then show ?thesis by simp
  next
    case True
    have "CHR ''.'' \<in> set p"
    proof (rule ccontr)
      assume "CHR ''.'' \<notin> set p"
      then have "?dot = -1" by (rule rfind_absent)
      moreover have "-1 \<le> rfind (CHR 0x5C) p"
        by (cases "CHR 0x5C \<in> set p") (auto simp: rfind_absent elim: rfind_present)
      ultimately show False using True by simp
    qed
    then obtain i where i: "?dot = int i" "i < length p" "p ! i = CHR ''.''"
      and last_dot: "\<forall>j<length p. i < j \<longrightarrow> p ! j \<noteq> CHR ''.''"
      by (rule rfind_present)
    have no_sep: "p ! j \<noteq> c" if "c \<in> {CHR 0x5C, CHR ''/''}" "i \<le> j" "j < length p" for c j
    proof
      assume pj: "p ! j = c"
      then have "c \<in> set p" using that(3) by (auto simp: in_set_conv_nth)
      then obtain k where "rfind c p = int k" "\<forall>j'<length p. k < j' \<longrightarrow> p ! j' \<noteq> c"
        by (rule rfind_present) blast
      moreover have "rfind c p \<le> ?sep" using that(1) by auto
      ultimately show False using True i pj that by force
    qed
    let ?e = "drop i p"
    from sp have "splitext p = (take (nat ?dot) p, drop (nat ?dot) p)" by (simp only: if_P [OF True])
    then have e: "splitext p = (take i p, ?e)" using i by simp
    have hd_e: "hd ?e = CHR ''.''" using i by (simp add: hd_drop_conv_nth)
    have tl_e: "CHR ''.'' \<notin> set (tl ?e)"
      using last_dot by (auto simp: tl_drop in_set_conv_nth nth_tl)
    have seps: "CHR 0x5C \<notin> set ?e" "CHR ''/'' \<notin> set ?e"
      using no_sep by (auto simp: in_set_conv_nth)
    show ?thesis using e hd_e tl_e seps by simp
  qed
qed

lemma processed_diarize_loop:
  "[f. Processing f \<leftarrow> diarize_loop run folder_path whisper_model device language fs] = fs"
  by (induction fs) (auto split: sum.split)

lemma rfind_eq:
  assumes "i < length s" "s ! i = c" "\<forall>j<length s. i < j \<longrightarrow> s ! j \<noteq> c"
  shows "rfind c s = int i"
proof -
  from assms(1,2) have "c \<in> set s" by (auto simp: in_set_conv_nth)
  then obtain k where k: "rfind c s = int k" "k < length s" "s ! k = c"
    "\<forall>j<length s. k < j \<longrightarrow> s ! j \<noteq> c"
    by (rule rfind_present)
  have "k = i"
    using k(2-4) assms by (metis linorder_neqE_nat)
  with k(1) show ?thesis by simp
qed

lemma skip_dots_iff:
  "0 \<le> i \<Longrightarrow> skip_dots p i j = (\<exists>k. i \<le> k \<and> k < j \<and> p ! nat k \<noteq> CHR ''.'')"
proof (induction p i j rule: skip_dots.induct)
  case (1 p i j)
  show ?case
  proof (cases "i < j")
    case True
    have "(\<exists>k. i \<le> k \<and> k < j \<and> p ! nat k \<noteq> CHR ''.'')
          = (p ! nat i \<noteq> CHR ''.'' \<or> (\<exists>k. i + 1 \<le> k \<and> k < j \<and> p ! nat k \<noteq> CHR ''.''))"
      using True by (metis add1_zle_eq order.order_iff_strict)
    with True 1 show ?thesis by (subst skip_dots.simps) simp
  qed (subst skip_dots.simps, simp)
qed

lemma lower_char_fixed: "c \<in> {CHR ''.'', CHR ''/'', CHR 0x5C} \<Longrightarrow> lower_char c = c"
  by (auto simp: lower_char_def)

lemma lower_char_upper: "65 \<le> (of_char c :: nat) \<Longrightarrow> (of_char c :: nat) \<le> 90 \<Longrightarrow> 97 \<le> (of_char (lower_char c) :: nat)"
  by (simp add: lower_char_def Let_def)

lemma lower_char_dot: "lower_char c = CHR ''.'' \<Longrightarrow> c = CHR ''.''"
proof -
  assume l: "lower_char c = CHR ''.''"
  then have o: "of_char (lower_char c) = (46::nat)" by simp
  have "\<not> (65 \<le> (of_char c :: nat) \<and> (of_char c :: nat) \<le> 90)"
    using lower_char_upper o by fastforce
  then have "lower_char c = c" unfolding lower_char_def Let_def by (rule if_not_P)
  with l show ?thesis by simp
qed

lemma audio_extensions_shape:
  "ext \<in> set audio_extensions \<Longrightarrow> ext \<noteq> [] \<and> hd ext = CHR ''.'' \<and> CHR ''.'' \<notin> set (tl ext)
     \<and> CHR 0x5C \<notin> set ext \<and> CHR ''/'' \<notin> set ext"
  by (auto simp: audio_extensions_def)

lemma audio_extension_shape:
  assumes "map lower_char e \<in> set audio_extensions"
  shows "e \<noteq> [] \<and> hd e = CHR ''.'' \<and> CHR ''.'' \<notin> set (tl e)
         \<and> CHR 0x5C \<notin> set e \<and> CHR ''/'' \<notin> set e"
proof -
  note ext = audio_extensions_shape [OF assms]
  then obtain a es where e: "e = a # es" by (cases e) auto
  from ext e have "lower_char a = CHR ''.''" by simp
  then have a: "a = CHR ''.''" by (rule lower_char_dot)
  have kept: "c \<in> lower_char ` set es" if "c \<in> {CHR ''.'', CHR ''/'', CHR 0x5C}" "c \<in> set es" for c
    using lower_char_fixed [OF that(1)] that(2) by (metis image_eqI)
  from ext e have "CHR ''.'' \<notin> set es" "CHR ''/'' \<notin> set es" "CHR 0x5C \<notin> set es"
    using kept [of "CHR ''.''"] kept [of "CHR ''/''"] kept [of "CHR 0x5C"] by auto
  with a e show ?thesis by simp
qed

lemma splitext_stem_ext:
  assumes "e \<noteq> []" "hd e = CHR ''.''" "CHR ''.'' \<notin> set (tl e)"
    and "CHR 0x5C \<notin> set (stem @ e)" "CHR ''/'' \<notin> set (stem @ e)"
  shows "splitext (stem @ e) = (if \<exists>c\<in>set stem. c \<noteq> CHR ''.'' then (stem, e) else (stem @ e, ''''))"
proof -
  let ?p = "stem @ e"
  have sep: "max (rfind (CHR 0x5C) ?p) (rfind (CHR ''/'') ?p) = -1"
    using assms(4,5) by (simp add: rfind_absent)
  have later: "?p ! j \<noteq> CHR ''.''" if "j < length ?p" "length stem < j" for j
  proof -
    from that have "?p ! j = tl e ! (j - length stem - 1)" "j - length stem - 1 < length (tl e)"
      using assms(1) by (auto simp: nth_append nth_tl Suc_diff_Suc)
    with assms(3) show ?thesis by (metis nth_mem)
  qed
  have dot: "rfind (CHR ''.'') ?p = int (length stem)"
    using assms(1,2) later by (intro rfind_eq) (auto simp: nth_append hd_conv_nth)
  have "skip_dots ?p 0 (int (length stem)) = (\<exists>c\<in>set stem. c \<noteq> CHR ''.'')"
  proof -
    have "(\<exists>k::int. 0 \<le> k \<and> k < int (length stem) \<and> ?p ! nat k \<noteq> CHR ''.'')
          = (\<exists>k<length stem. stem ! k \<noteq> CHR ''.'')"
      by (metis (no_types, opaque_lifting) nat_int nat_less_iff nth_append of_nat_0_le_iff)
    then show ?thesis by (simp add: skip_dots_iff in_set_conv_nth) (metis in_set_conv_nth)
  qed
  then show ?thesis by (simp add: splitext_def Let_def sep dot)
qed

section \<open>Properties\<close>

text \<open>
  C31 (liveness). A failing command does not stop the batch: whatever the outcome of
  each run, every audio file of the folder is processed, in the order of the listing.
\<close>

theorem run_diarization_processes_all:
  "[f. Processing f \<leftarrow> run_diarization run files folder_path whisper_model device language] = audio_files files"
  by (simp add: run_diarization_def processed_diarize_loop)

text \<open>
  C32 (functional). A bare file name \<open>stem @ e\<close> whose extension \<open>e\<close> lower-cases to
  an audio extension is processed exactly when it is listed and its stem has a character
  other than a dot: a hidden name such as \<open>.wav\<close> or \<open>..ogg\<close> is skipped, as
  \<open>splitext\<close> takes its leading dots for part of the name.
\<close>

theorem audio_files_selects:
  assumes "map lower_char e \<in> set audio_extensions"
    and "CHR 0x5C \<notin> set stem" "CHR ''/'' \<notin> set stem"
  shows "stem @ e \<in> set (audio_files files) \<longleftrightarrow> stem @ e \<in> set files \<and> (\<exists>c\<in>set stem. c \<noteq> CHR ''.'')"
proof -
  note sh = audio_extension_shape [OF assms(1)]
  have sp: "splitext (stem @ e) = (if \<exists>c\<in>set stem. c \<noteq> CHR ''.'' then (stem, e) else (stem @ e, ''''))"
    using sh assms(2,3) by (intro splitext_stem_ext) auto
  have "[] \<notin> set audio_extensions" by (simp add: audio_extensions_def)
  with assms(1) sp show ?thesis by (auto simp: audio_files_def)
qed


theorem audio_files_selects_witness:
  "''talk.WAV'' \<in> set (audio_files [''talk.WAV'', ''.wav''])
   \<and> ''.wav'' \<notin> set (audio_files [''talk.WAV'', ''.wav''])"
proof -
  have "map lower_char ''.WAV'' = ''.wav''" "map lower_char ''.wav'' = ''.wav''"
    by (simp_all add: lower_char_def char_of_def bit_0)
  then show ?thesis
    using audio_files_selects [of "''.WAV''" "''talk''" "[''talk.WAV'', ''.wav'']"]
          audio_files_selects [of "''.wav''" "''''" "[''talk.WAV'', ''.wav'']"]
    by (simp add: audio_extensions_def)
qed

end
