(* ===== verification/Server_Util.thy ===== *)
theory Server_Util
  imports Main
begin

text \<open>
  \<open>build_error_response\<close> (\<open>src/py-server-main/util/error_handling_util.py\<close>, lines
  7--28). The validators it calls come from \<open>util.validation_util\<close>, which is not part
  of the repository; their contract is the one the docstring states (lines 11--12 and
  21--23): the message must be a non-empty string and the status code a valid HTTP
  status code (taken here as the range 100--599 of RFC 9110), otherwise
  \<open>ValueError\<close> is raised. The logging call has no effect on the result.
\<close>

datatype validation_error = InvalidMessage | InvalidStatusCode

definition validate_string_argument :: "string \<Rightarrow> validation_error + unit" where
  "validate_string_argument error_message = (if error_message = [] then Inl InvalidMessage else Inr ())"

definition validate_http_status_code :: "int \<Rightarrow> validation_error + unit" where
  "validate_http_status_code status_code =
     (if 100 \<le> status_code \<and> status_code \<le> 599 then Inr () else Inl InvalidStatusCode)"

definition build_error_response :: "string \<Rightarrow> int \<Rightarrow> validation_error + string \<times> int" where
  "build_error_response error_message status_code =
     (case validate_string_argument error_message of
        Inl e \<Rightarrow> Inl e
      | Inr _ \<Rightarrow>
          (case validate_http_status_code status_code of
             Inl e \<Rightarrow> Inl e
           | Inr _ \<Rightarrow> Inr (error_message, status_code)))"

section \<open>Lemmas\<close>

text \<open>
  The response is the pair of arguments exactly when both are valid; an empty message
  is reported before an invalid status code, as the two calls run in that order.
\<close>

lemma build_error_response_cases:
  "build_error_response error_message status_code =
     (if error_message = [] then Inl InvalidMessage
      else if 100 \<le> status_code \<and> status_code \<le> 599 then Inr (error_message, status_code)
      else Inl InvalidStatusCode)"
  by (simp add: build_error_response_def validate_string_argument_def validate_http_status_code_def)

end
