(* ===== verification/Resampling.thy ===== *)
theory Resampling
  imports Preprocessing
begin

text \<open>
  Resampling and the preprocessing driver (\<open>_preprocessing.py\<close>, lines 32--175).
  \<open>sampling_and_interpolating\<close> takes the \<open>(session, tracker)\<close> groups in sorted order
  (\<open>groupby(...).size()\<close>); for each it builds the one-second grid from the timestamp of
  the group's first row to that of its last row (\<open>pd.date_range(freq='S')\<close>), left-merges
  the group's rows onto the grid (a grid second with no row gives a row of NaN, a second
  with several rows gives all of them), fills \<open>x\<close> and \<open>y\<close> by pandas' linear
  interpolation followed by \<open>ffill\<close> and \<open>bfill\<close>, and appends the group to the output.
  At the end the \<open>interpolated\<close> column of the added rows becomes \<open>'1'\<close> and every other
  NaN is filled from the previous output row (\<open>fillna(method='ffill')\<close>). Timestamps are
  whole seconds, as the input format \<open>%Y-%m-%d_%H:%M:%S\<close> gives them. A NaN that
  survives the fills makes the result \<open>None\<close>. The \<open>rotation\<close> column, which the driver
  adds before resampling and which is filled like \<open>phase\<close>, is not carried.
\<close>

section \<open>Rows\<close>

text \<open>An output row: the sample and its \<open>interpolated\<close> column (\<open>'0'\<close> or \<open>'1'\<close>).\<close>

record rs_row = sample +
  interpolated :: string

text \<open>A row of the left merge: a row of the group at a grid second, or a grid second alone.\<close>

datatype merged = Matched sample | Missing seconds

section \<open>The groups\<close>


text \<open>Line 145: the rows of one pair, in the order of the frame.\<close>

definition session_df :: "sample list \<Rightarrow> session_id \<times> tracker_id \<Rightarrow> sample list" where
  "session_df df k = filter (\<lambda>r. (session r, tracker r) = k) df"

text \<open>Line 153: \<open>pd.date_range(start = first, end = last, freq='S')\<close>, empty when \<open>last < first\<close>.\<close>

definition date_range :: "seconds \<Rightarrow> seconds \<Rightarrow> seconds list" where
  "date_range first_ts last_ts = [first_ts..last_ts]"

text \<open>
  Line 157: \<open>pd.merge(df_time.to_frame(), session_df, left_index = True,
  right_on = 'timestamp', how = 'left')\<close>: for each grid second in order, the rows of
  the group at that second in the group's order, or one row of NaN.
\<close>

definition merge_left :: "seconds list \<Rightarrow> sample list \<Rightarrow> merged list" where
  "merge_left ts rows =
     concat (map (\<lambda>t. case filter (\<lambda>r. timestamp r = t) rows of
                        [] \<Rightarrow> [Missing t]
                      | ms \<Rightarrow> map Matched ms) ts)"

text \<open>
  Lines 149--157 for one group: the grid from \<open>iloc[0]\<close> to \<open>iloc[-1]\<close>. A group is never
  empty (its key comes from the frame); the empty case is not reached.
\<close>

definition group_merge :: "sample list \<Rightarrow> merged list" where
  "group_merge rows =
     (case rows of
        [] \<Rightarrow> []
      | r # _ \<Rightarrow> merge_left (date_range (timestamp r) (timestamp (last rows))) rows)"

definition m_x :: "merged \<Rightarrow> real option" where
  "m_x m = (case m of Matched r \<Rightarrow> Some (x r) | Missing t \<Rightarrow> None)"

definition m_y :: "merged \<Rightarrow> real option" where
  "m_y m = (case m of Matched r \<Rightarrow> Some (y r) | Missing t \<Rightarrow> None)"

text \<open>The \<open>timestamp\<close> column of a merged row: the row's own, or the grid second.\<close>

definition m_time :: "merged \<Rightarrow> seconds" where
  "m_time m = (case m of Matched r \<Rightarrow> timestamp r | Missing t \<Rightarrow> t)"

section \<open>Filling a column\<close>

text \<open>The non-NaN entries of a column with their positions.\<close>

definition valid_points :: "real option list \<Rightarrow> (nat \<times> real) list" where
  "valid_points vs = [(j, v). (j, Some v) \<leftarrow> zip [0..<length vs] vs]"

text \<open>
  \<open>Series.interpolate(method='linear')\<close>: the positions are taken as equally spaced; a
  NaN between two values gets the value on the line through them, a NaN after the last
  value gets the last value, a NaN before the first value stays NaN
  (\<open>limit_direction='forward'\<close>).
\<close>

definition interp_at :: "real option list \<Rightarrow> nat \<Rightarrow> real option" where
  "interp_at vs i =
     (case vs ! i of
        Some v \<Rightarrow> Some v
      | None \<Rightarrow>
          (case rev (filter (\<lambda>(j, v). j < i) (valid_points vs)) of
             [] \<Rightarrow> None
           | (a, va) # _ \<Rightarrow>
               (case filter (\<lambda>(j, v). i < j) (valid_points vs) of
                  [] \<Rightarrow> Some va
                | (b, vb) # _ \<Rightarrow> Some (va + (vb - va) * (real (i - a) / real (b - a))))))"

definition interp_linear :: "real option list \<Rightarrow> real option list" where
  "interp_linear vs = map (interp_at vs) [0..<length vs]"

text \<open>\<open>ffill()\<close>: a NaN takes the last value before it.\<close>

fun ffill_from :: "'a option \<Rightarrow> 'a option list \<Rightarrow> 'a option list" where
  "ffill_from p [] = []"
| "ffill_from p (v # vs) = (case v of None \<Rightarrow> p # ffill_from p vs | Some a \<Rightarrow> v # ffill_from v vs)"

definition ffill :: "'a option list \<Rightarrow> 'a option list" where
  "ffill vs = ffill_from None vs"

text \<open>\<open>bfill()\<close>: a NaN takes the first value after it.\<close>

definition bfill :: "'a option list \<Rightarrow> 'a option list" where
  "bfill vs = rev (ffill (rev vs))"

text \<open>Line 165: \<open>m[['x', 'y']].interpolate(method='linear', axis=0).ffill().bfill()\<close>.\<close>

definition fill_column :: "real option list \<Rightarrow> real option list" where
  "fill_column vs = bfill (ffill (interp_linear vs))"

text \<open>Lines 145--168 for one group: the merged rows with their filled \<open>x\<close> and \<open>y\<close>.\<close>

definition group_frame :: "sample list \<Rightarrow> (merged \<times> real option \<times> real option) list" where
  "group_frame rows =
     (let ms = group_merge rows
      in zip ms (zip (fill_column (map m_x ms)) (fill_column (map m_y ms))))"

section \<open>The output frame\<close>

text \<open>
  Lines 172--174 over the appended groups: a row of the group keeps its columns and gets
  \<open>'0'\<close>; an added row gets \<open>'1'\<close>, its grid second as \<open>timestamp\<close>, its filled
  \<open>x\<close> and \<open>y\<close>, and \<open>session\<close>, \<open>tracker\<close>, \<open>phase\<close> and \<open>quantile\<close> from the previous
  output row. \<open>prev\<close> is the previous output row; a NaN left makes the result \<open>None\<close>.
\<close>

fun finalize :: "sample option \<Rightarrow> (merged \<times> real option \<times> real option) list \<Rightarrow> rs_row list option" where
  "finalize prev [] = Some []"
| "finalize prev ((Matched r, xo, yo) # rest) =
     (case (xo, yo) of
        (Some a, Some b) \<Rightarrow>
          (let r' = r\<lparr>x := a, y := b\<rparr>
           in map_option (Cons (sample.extend r' (rs_row.fields ''0''))) (finalize (Some r') rest))
      | _ \<Rightarrow> None)"
| "finalize prev ((Missing t, xo, yo) # rest) =
     (case (prev, xo, yo) of
        (Some p, Some a, Some b) \<Rightarrow>
          (let r' = p\<lparr>timestamp := t, x := a, y := b\<rparr>
           in map_option (Cons (sample.extend r' (rs_row.fields ''1''))) (finalize (Some r') rest))
      | _ \<Rightarrow> None)"

text \<open>Lines 143--174 for one group: its frame with the fills of line 174 started afresh.\<close>

definition resample_group :: "sample list \<Rightarrow> rs_row list option" where
  "resample_group rows = finalize None (group_frame rows)"


section \<open>Predicates of the proofs\<close>

definition is_matched :: "merged \<Rightarrow> bool" where
  "is_matched m = (case m of Matched r \<Rightarrow> True | Missing t \<Rightarrow> False)"

definition filled :: "(merged \<times> real option \<times> real option) list \<Rightarrow> bool" where
  "filled fr = (\<forall>(m, xo, yo) \<in> set fr. xo \<noteq> None \<and> yo \<noteq> None)"

definition starts_matched :: "(merged \<times> real option \<times> real option) list \<Rightarrow> bool" where
  "starts_matched fr = (fr = [] \<or> is_matched (fst (hd fr)))"

section \<open>The driver\<close>



section \<open>Lemmas\<close>

subsection \<open>Filling a column\<close>

text \<open>
  A column whose first entry is a value is filled by the interpolation alone, keeps its values,
  and every interpolated entry lies between two values of the column.
\<close>

lemma valid_points_iff: "(j, v) \<in> set (valid_points vs) \<longleftrightarrow> j < length vs \<and> vs ! j = Some v"
  unfolding valid_points_def by (auto simp: set_zip split: option.splits intro: exI [where x = j])

lemma ffill_from_all_Some: "None \<notin> set vs \<Longrightarrow> ffill_from p vs = vs"
  by (induction p vs rule: ffill_from.induct) (auto split: option.split)

lemma length_ffill_from [simp]: "length (ffill_from p vs) = length vs"
  by (induction p vs rule: ffill_from.induct) (auto split: option.split)

lemma bfill_ffill_all_Some: "None \<notin> set vs \<Longrightarrow> bfill (ffill vs) = vs"
  by (simp add: bfill_def ffill_def ffill_from_all_Some)

lemma interp_at_Some: "vs ! i = Some v \<Longrightarrow> interp_at vs i = Some v"
  by (simp add: interp_at_def)

lemma interp_at_defined:
  assumes "i < length vs" "vs ! 0 \<noteq> None"
  shows "interp_at vs i \<noteq> None"
proof (cases "vs ! i")
  case None
  with assms(2) have "0 < i" by (cases i) auto
  from assms(2) obtain v0 where "vs ! 0 = Some v0" by auto
  moreover from assms(1) have "0 < length vs" by (cases vs) auto
  ultimately have "(0, v0) \<in> set (filter (\<lambda>(j, v). j < i) (valid_points vs))"
    using \<open>0 < i\<close> by (simp add: valid_points_iff)
  then have "rev (filter (\<lambda>(j, v). j < i) (valid_points vs)) \<noteq> []" by (metis empty_iff empty_set set_rev)
  with None show ?thesis
    by (auto simp: interp_at_def neq_Nil_conv split: list.split)
qed (simp add: interp_at_def)

lemma interp_linear_all_Some:
  assumes "vs = [] \<or> vs ! 0 \<noteq> None"
  shows "None \<notin> set (interp_linear vs)"
proof
  assume "None \<in> set (interp_linear vs)"
  then obtain i where i: "i < length vs" "interp_at vs i = None" by (auto simp: interp_linear_def)
  with assms have "vs ! 0 \<noteq> None" by auto
  with i interp_at_defined show False by blast
qed

lemma fill_column_eq:
  "vs = [] \<or> vs ! 0 \<noteq> None \<Longrightarrow> fill_column vs = interp_linear vs"
  by (simp add: fill_column_def bfill_ffill_all_Some interp_linear_all_Some)

lemma length_fill_column [simp]: "length (fill_column vs) = length vs"
  by (simp add: fill_column_def bfill_def ffill_def length_ffill_from interp_linear_def)

lemma lerp_between:
  fixes va vb t :: real
  assumes "0 \<le> t" "t \<le> 1"
  shows "min va vb \<le> va + (vb - va) * t \<and> va + (vb - va) * t \<le> max va vb"
proof (cases "va \<le> vb")
  case True
  have "0 \<le> (vb - va) * t" using True assms(1) by simp
  moreover have "(vb - va) * t \<le> vb - va" using True assms(2) by (simp add: mult_left_le)
  ultimately show ?thesis using True by simp
next
  case False
  have "(va - vb) * t \<le> va - vb" using False assms(2) by (simp add: mult_left_le)
  moreover have "0 \<le> (va - vb) * t" using False assms(1) by simp
  ultimately show ?thesis using False by (simp add: algebra_simps)
qed

lemma interp_at_between:
  assumes "i < length vs" "interp_at vs i = Some w"
  shows "\<exists>a b. Some a \<in> set vs \<and> Some b \<in> set vs \<and> min a b \<le> w \<and> w \<le> max a b"
proof (cases "vs ! i")
  case (Some v)
  with assms have "Some w \<in> set vs" by (simp add: interp_at_def) (metis nth_mem)
  then show ?thesis by fastforce
next
  case None
  let ?L = "rev (filter (\<lambda>(j, v). j < i) (valid_points vs))"
  let ?R = "filter (\<lambda>(j, v). i < j) (valid_points vs)"
  obtain a va L' where L: "?L = (a, va) # L'"
    using assms(2) None by (cases ?L) (auto simp: interp_at_def)
  then have "(a, va) \<in> set ?L" by simp
  then have a: "a < i" "Some va \<in> set vs" by (auto simp: valid_points_iff dest: nth_mem [where xs = vs])
  show ?thesis
  proof (cases ?R)
    case Nil
    with assms(2) None L have "w = va" by (simp add: interp_at_def)
    with a show ?thesis by fastforce
  next
    case (Cons bv R')
    obtain b vb where bv: "bv = (b, vb)" by (cases bv)
    with Cons have "(b, vb) \<in> set ?R" by simp
    then have b: "i < b" "Some vb \<in> set vs" by (auto simp: valid_points_iff dest: nth_mem [where xs = vs])
    from assms(2) None L Cons bv
    have w: "w = va + (vb - va) * (real (i - a) / real (b - a))" by (simp add: interp_at_def)
    have "0 \<le> real (i - a) / real (b - a)" "real (i - a) / real (b - a) \<le> 1"
      using a(1) b(1) by simp_all
    with w have "min va vb \<le> w \<and> w \<le> max va vb" using lerp_between by blast
    with a b show ?thesis by blast
  qed
qed

subsection \<open>The merged rows of a group\<close>

text \<open>
  The merge of a group starts with the group's first row, so \<open>x\<close> and \<open>y\<close> have no NaN
  left after the fills, and its rows of the group keep their coordinates.
\<close>

lemma group_merge_hd:
  assumes "rows \<noteq> []" "timestamp (hd rows) \<le> timestamp (last rows)"
  shows "\<exists>rest. group_merge rows = Matched (hd rows) # rest"
proof -
  obtain r rs where rows: "rows = r # rs" using assms(1) by (cases rows) auto
  let ?hi = "timestamp (last rows)"
  have "[timestamp r..?hi] = timestamp r # [timestamp r + 1..?hi]"
    using assms(2) rows by (simp add: upto_rec1)
  then show ?thesis by (simp add: group_merge_def rows date_range_def merge_left_def)
qed

lemma group_merge_empty:
  "rows \<noteq> [] \<Longrightarrow> timestamp (last rows) < timestamp (hd rows) \<Longrightarrow> group_merge rows = []"
  by (cases rows) (simp_all add: group_merge_def date_range_def merge_left_def)

lemma group_merge_cases:
  "group_merge rows = [] \<or> (\<exists>rest. group_merge rows = Matched (hd rows) # rest)"
  by (metis group_merge_empty group_merge_hd not_le group_merge_def list.case(1))

lemma group_frame_filled:
  "(m, xo, yo) \<in> set (group_frame rows) \<Longrightarrow> xo \<noteq> None \<and> yo \<noteq> None"
proof -
  let ?ms = "group_merge rows"
  assume mem: "(m, xo, yo) \<in> set (group_frame rows)"
  have cx: "?ms = [] \<or> map m_x ?ms ! 0 \<noteq> None" and cy: "?ms = [] \<or> map m_y ?ms ! 0 \<noteq> None"
    using group_merge_cases [of rows] by (auto simp: m_x_def m_y_def)
  from mem have "xo \<in> set (fill_column (map m_x ?ms))" "yo \<in> set (fill_column (map m_y ?ms))"
    by (auto simp: group_frame_def Let_def dest: set_zip_rightD set_zip_leftD)
  moreover have "None \<notin> set (fill_column (map m_x ?ms))" "None \<notin> set (fill_column (map m_y ?ms))"
    using cx cy by (auto simp: fill_column_eq interp_linear_all_Some)
  ultimately show ?thesis by (metis (no_types))
qed

lemma fst_hd_zip: "ms = m # rest \<Longrightarrow> length zs = length ms \<Longrightarrow> fst (hd (zip ms zs)) = m"
  by (cases zs) auto

lemma group_frame_hd:
  "group_frame rows = [] \<or> is_matched (fst (hd (group_frame rows)))"
proof (cases "group_merge rows = []")
  case True
  then show ?thesis by (simp add: group_frame_def)
next
  case False
  with group_merge_cases [of rows] obtain rest where "group_merge rows = Matched (hd rows) # rest" by blast
  then have "fst (hd (group_frame rows)) = Matched (hd rows)"
    unfolding group_frame_def Let_def by (rule fst_hd_zip) simp_all
  then show ?thesis by (simp add: is_matched_def)
qed

lemma map_fst_group_frame: "map fst (group_frame rows) = group_merge rows"
  by (simp add: group_frame_def Let_def)

lemma group_frame_matched:
  assumes "(Matched r, xo, yo) \<in> set (group_frame rows)"
  shows "xo = Some (x r) \<and> yo = Some (y r)"
proof -
  let ?ms = "group_merge rows"
  from assms obtain i where i: "i < length ?ms" "?ms ! i = Matched r"
    and xo: "xo = fill_column (map m_x ?ms) ! i" and yo: "yo = fill_column (map m_y ?ms) ! i"
    by (auto simp: group_frame_def Let_def in_set_zip)
  have cx: "map m_x ?ms = [] \<or> map m_x ?ms ! 0 \<noteq> None" and cy: "map m_y ?ms = [] \<or> map m_y ?ms ! 0 \<noteq> None"
    using group_merge_cases [of rows] by (auto simp: m_x_def m_y_def)
  have "fill_column (map m_x ?ms) ! i = Some (x r)"
    using i by (simp add: fill_column_eq [OF cx] interp_linear_def interp_at_Some m_x_def)
  moreover have "fill_column (map m_y ?ms) ! i = Some (y r)"
    using i by (simp add: fill_column_eq [OF cy] interp_linear_def interp_at_Some m_y_def)
  ultimately show ?thesis using xo yo by simp
qed

lemma merge_left_times:
  "\<forall>t\<in>set ts. length (filter (\<lambda>r. timestamp r = t) rows) \<le> 1 \<Longrightarrow> map m_time (merge_left ts rows) = ts"
proof (induction ts)
  case (Cons t ts)
  then have "length (filter (\<lambda>r. timestamp r = t) rows) \<le> 1" by simp
  then have "map m_time (case filter (\<lambda>r. timestamp r = t) rows of [] \<Rightarrow> [Missing t] | ms \<Rightarrow> map Matched ms) = [t]"
  proof (cases "filter (\<lambda>r. timestamp r = t) rows")
    case (Cons r rs)
    moreover from Cons have "timestamp r = t" by (metis (mono_tags) filter_eq_ConsD)
    ultimately show ?thesis using \<open>length _ \<le> 1\<close> by (simp add: m_time_def)
  qed (simp add: m_time_def)
  with Cons show ?case by (simp add: merge_left_def)
qed (simp add: merge_left_def)

lemma length_filter_distinct:
  "distinct (map f xs) \<Longrightarrow> length (filter (\<lambda>r. f r = t) xs) \<le> 1"
proof (induction xs)
  case (Cons a xs)
  show ?case
  proof (cases "f a = t")
    case True
    with Cons.prems have "filter (\<lambda>r. f r = t) xs = []" by (auto simp: filter_empty_conv) (metis image_eqI)
    with True show ?thesis by simp
  next
    case False
    with Cons show ?thesis by simp
  qed
qed simp

lemma matched_case_mem:
  "Matched r \<in> set (case ms of [] \<Rightarrow> [Missing t] | ms \<Rightarrow> map Matched ms) \<Longrightarrow> r \<in> set ms"
  by (cases ms) auto

lemma matched_merge_left_mem: "Matched r \<in> set (merge_left ts rows) \<Longrightarrow> r \<in> set rows"
  unfolding merge_left_def by (auto dest!: matched_case_mem)

lemma matched_merge_left:
  "[r. Matched r \<leftarrow> merge_left ts rows] = concat (map (\<lambda>t. filter (\<lambda>r. timestamp r = t) rows) ts)"
proof (induction ts)
  case (Cons t ts)
  then show ?case
    by (cases "filter (\<lambda>r. timestamp r = t) rows") (simp_all add: merge_left_def comp_def)
qed (simp add: merge_left_def)

subsection \<open>The output frame\<close>

text \<open>
  The final forward fill never reaches across groups, as every group starts with a row of
  the group: the output is the concatenation of the groups' outputs.
\<close>

lemma finalize_Some:
  "filled fr \<Longrightarrow> prev \<noteq> None \<or> starts_matched fr \<Longrightarrow> \<exists>out. finalize prev fr = Some out"
proof (induction prev fr rule: finalize.induct)
  case (2 prev r xo yo rest)
  then show ?case by (auto simp: filled_def Let_def)
next
  case (3 prev t xo yo rest)
  then show ?case by (auto simp: filled_def starts_matched_def is_matched_def Let_def)
qed simp







lemma group_frame_props: "filled (group_frame rows)" "starts_matched (group_frame rows)"
  using group_frame_filled group_frame_hd by (auto simp: filled_def starts_matched_def)




lemma resample_group_Some: "\<exists>out. resample_group rows = Some out"
  unfolding resample_group_def using group_frame_props by (blast intro: finalize_Some)

lemma finalize_timestamps:
  "finalize p fr = Some out \<Longrightarrow> map timestamp out = map (m_time \<circ> fst) fr"
proof (induction p fr arbitrary: out rule: finalize.induct)
  case (2 prev r xo yo rest)
  then show ?case by (cases xo; cases yo) (auto simp: Let_def m_time_def sample.defs)
next
  case (3 prev t xo yo rest)
  then show ?case by (cases prev; cases xo; cases yo) (auto simp: Let_def m_time_def sample.defs)
qed simp

lemma finalize_matched_rows:
  "finalize p fr = Some out \<Longrightarrow>
   (\<forall>r xo yo. (Matched r, xo, yo) \<in> set fr \<longrightarrow> xo = Some (x r) \<and> yo = Some (y r)) \<Longrightarrow>
   map sample.truncate (filter (\<lambda>w. interpolated w = ''0'') out) = [r. Matched r \<leftarrow> map fst fr]"
proof (induction fr arbitrary: p out)
  case (Cons a rest)
  obtain m xo yo where a: "a = (m, xo, yo)" by (cases a)
  have rest: "\<forall>r xo yo. (Matched r, xo, yo) \<in> set rest \<longrightarrow> xo = Some (x r) \<and> yo = Some (y r)"
    using Cons.prems(2) by simp
  show ?case
  proof (cases m)
    case (Matched r)
    with Cons.prems(2) a have v: "xo = Some (x r)" "yo = Some (y r)" by auto
    with Cons.prems(1) a Matched obtain out' where
      out': "finalize (Some r) rest = Some out'" and out: "out = sample.extend r (rs_row.fields ''0'') # out'"
      by auto
    from Cons.IH [OF out' rest] out Matched a show ?thesis by (simp add: sample.defs rs_row.defs)
  next
    case (Missing t)
    with Cons.prems(1) a obtain q a' b' out' where
      out': "finalize (Some (q\<lparr>timestamp := t, x := a', y := b'\<rparr>)) rest = Some out'"
      and out: "out = sample.extend (q\<lparr>timestamp := t, x := a', y := b'\<rparr>) (rs_row.fields ''1'') # out'"
      by (auto simp: Let_def split: option.splits)
    from Cons.IH [OF out' rest] out Missing a show ?thesis by (simp add: sample.defs rs_row.defs)
  qed
qed simp

lemma finalize_keys:
  "finalize p fr = Some out \<Longrightarrow>
   (\<forall>r xo yo. (Matched r, xo, yo) \<in> set fr \<longrightarrow> (session r, tracker r) = k) \<Longrightarrow>
   (\<forall>q. p = Some q \<longrightarrow> (session q, tracker q) = k) \<Longrightarrow>
   \<forall>w\<in>set out. (session w, tracker w) = k"
proof (induction fr arbitrary: p out)
  case (Cons a rest)
  obtain m xo yo where a: "a = (m, xo, yo)" by (cases a)
  have rest: "\<forall>r xo yo. (Matched r, xo, yo) \<in> set rest \<longrightarrow> (session r, tracker r) = k"
    using Cons.prems(2) by simp
  show ?case
  proof (cases m)
    case (Matched r)
    with Cons.prems(2) a have k: "(session r, tracker r) = k" by auto
    with Cons.prems(1) a Matched obtain a' b' out' where
      out': "finalize (Some (r\<lparr>x := a', y := b'\<rparr>)) rest = Some out'"
      and out: "out = sample.extend (r\<lparr>x := a', y := b'\<rparr>) (rs_row.fields ''0'') # out'"
      by (auto simp: Let_def split: option.splits)
    from Cons.IH [OF out' rest] k out show ?thesis by (simp add: sample.defs rs_row.defs)
  next
    case (Missing t)
    with Cons.prems(1) a obtain q a' b' out' where q: "p = Some q" and
      out': "finalize (Some (q\<lparr>timestamp := t, x := a', y := b'\<rparr>)) rest = Some out'"
      and out: "out = sample.extend (q\<lparr>timestamp := t, x := a', y := b'\<rparr>) (rs_row.fields ''1'') # out'"
      by (auto simp: Let_def split: option.splits)
    with Cons.prems(3) have k: "(session q, tracker q) = k" by simp
    from Cons.IH [OF out' rest] k out show ?thesis by (simp add: sample.defs rs_row.defs)
  qed
qed simp

subsection \<open>Sorted groups\<close>

lemma sorted_split_min:
  fixes f :: "'a \<Rightarrow> int"
  shows "sorted (map f xs) \<Longrightarrow> \<forall>a\<in>set xs. c \<le> f a \<Longrightarrow> filter (\<lambda>a. f a = c) xs @ filter (\<lambda>a. f a \<noteq> c) xs = xs"
proof (induction xs)
  case (Cons b xs)
  show ?case
  proof (cases "f b = c")
    case True
    with Cons show ?thesis by simp
  next
    case False
    with Cons.prems have "\<forall>a\<in>set xs. c < f a" by fastforce
    then have "filter (\<lambda>a. f a = c) xs = []" "filter (\<lambda>a. f a \<noteq> c) xs = xs" by (auto simp: filter_empty_conv filter_id_conv)
    with False show ?thesis by simp
  qed
qed simp

lemma sorted_grid:
  fixes f :: "'a \<Rightarrow> int"
  shows "sorted (map f xs) \<Longrightarrow> \<forall>a\<in>set xs. lo \<le> f a \<and> f a \<le> hi
         \<Longrightarrow> concat (map (\<lambda>t. filter (\<lambda>a. f a = t) xs) [lo..hi]) = xs"
proof (induction lo hi arbitrary: xs rule: upto.induct)
  case (1 lo hi)
  show ?case
  proof (cases "lo \<le> hi")
    case True
    let ?xs' = "filter (\<lambda>a. f a \<noteq> lo) xs"
    have "sorted (map f ?xs')" using "1.prems"(1) by (simp add: sorted_filter)
    moreover have "\<forall>a\<in>set ?xs'. lo + 1 \<le> f a \<and> f a \<le> hi" using "1.prems"(2) by fastforce
    ultimately have IH: "concat (map (\<lambda>t. filter (\<lambda>a. f a = t) ?xs') [lo + 1..hi]) = ?xs'"
      using "1.IH" True by blast
    have eq: "map (\<lambda>t. filter (\<lambda>a. f a = t) xs) [lo + 1..hi] = map (\<lambda>t. filter (\<lambda>a. f a = t) ?xs') [lo + 1..hi]"
      by (auto intro!: map_cong filter_cong)
    have "concat (map (\<lambda>t. filter (\<lambda>a. f a = t) xs) [lo..hi])
          = filter (\<lambda>a. f a = lo) xs @ concat (map (\<lambda>t. filter (\<lambda>a. f a = t) xs) [lo + 1..hi])"
      using True by (simp add: upto_rec1)
    also have "\<dots> = filter (\<lambda>a. f a = lo) xs @ ?xs'" by (simp only: eq IH)
    also have "\<dots> = xs" using "1.prems" by (intro sorted_split_min) auto
    finally show ?thesis .
  next
    case False
    with "1.prems"(2) have "xs = []" by (cases xs) auto
    then show ?thesis by simp
  qed
qed

lemma sorted_hd_last_bounds:
  fixes f :: "'a \<Rightarrow> int"
  assumes "sorted (map f xs)" "a \<in> set xs"
  shows "f (hd xs) \<le> f a \<and> f a \<le> f (last xs)"
proof -
  from assms(2) obtain i where i: "i < length xs" "xs ! i = a" by (auto simp: in_set_conv_nth)
  then have ne: "xs \<noteq> []" by auto
  have "(map f xs) ! 0 \<le> (map f xs) ! i" "(map f xs) ! i \<le> (map f xs) ! (length xs - 1)"
    using sorted_nth_mono [OF assms(1), of 0 i] sorted_nth_mono [OF assms(1), of i "length xs - 1"] i
    by simp_all
  with i ne show ?thesis by (simp add: hd_conv_nth last_conv_nth)
qed

subsection \<open>Inputs outside the contract\<close>

text \<open>
  Two rows of one tracker in the same second are both kept: the output is not one row per
  second. A group whose rows are not in time order loses the rows outside the range from
  its first to its last row.
\<close>

lemma resample_duplicate_seconds: "\<exists>out. resample_group [sample.make 1 1 10 0 0 1 1, sample.make 1 1 10 1 1 1 1, sample.make 1 1 11 3 6 1 1] = Some out
           \<and> map timestamp out = [10, 10, 11]"
proof -
  obtain out where out: "resample_group [sample.make 1 1 10 0 0 1 1, sample.make 1 1 10 1 1 1 1, sample.make 1 1 11 3 6 1 1] = Some out"
    using resample_group_Some by blast
  then have "map timestamp out = map m_time (map fst (group_frame [sample.make 1 1 10 0 0 1 1, sample.make 1 1 10 1 1 1 1, sample.make 1 1 11 3 6 1 1]))"
    using finalize_timestamps by (simp add: resample_group_def)
  also have "\<dots> = [10, 10, 11]"
    by (simp add: map_fst_group_frame group_merge_def date_range_def merge_left_def m_time_def sample.defs upto.simps)
  finally have "map timestamp out = [10, 10, 11]" .
  with out show ?thesis by (intro exI [of _ out]) simp
qed

lemma resample_unsorted_drops: "\<exists>out. resample_group [sample.make 1 1 5 0 0 1 1, sample.make 1 1 3 1 1 1 1, sample.make 1 1 7 3 6 1 1] = Some out
           \<and> map sample.truncate (filter (\<lambda>w. interpolated w = ''0'') out)
             = [sample.make 1 1 5 0 0 1 1, sample.make 1 1 7 3 6 1 1]"
proof -
  let ?rows = "[sample.make 1 1 5 0 0 1 1, sample.make 1 1 3 1 1 1 1, sample.make 1 1 7 3 6 1 1]"
  obtain out where out: "resample_group ?rows = Some out" using resample_group_Some by blast
  then have "map sample.truncate (filter (\<lambda>w. interpolated w = ''0'') out) = [r. Matched r \<leftarrow> map fst (group_frame ?rows)]"
    using group_frame_matched unfolding resample_group_def by (blast intro: finalize_matched_rows)
  also have "\<dots> = [sample.make 1 1 5 0 0 1 1, sample.make 1 1 7 3 6 1 1]"
    by (simp add: map_fst_group_frame group_merge_def date_range_def matched_merge_left sample.defs upto.simps)
  finally have "map sample.truncate (filter (\<lambda>w. interpolated w = ''0'') out) = [sample.make 1 1 5 0 0 1 1, sample.make 1 1 7 3 6 1 1]" .
  with out show ?thesis by (intro exI [of _ out]) simp
qed

section \<open>Properties\<close>


text \<open>
  C18 (functional). When the rows of a group have distinct timestamps, the resampled group has exactly
  one row per second from its first row's timestamp to its last row's.
\<close>

theorem resample_group_one_per_second:
  assumes "rows \<noteq> []" "distinct (map timestamp rows)"
  shows "\<exists>out. resample_group rows = Some out \<and> map timestamp out = [timestamp (hd rows)..timestamp (last rows)]"
proof -
  obtain out where out: "resample_group rows = Some out" using resample_group_Some by blast
  have "map timestamp out = map m_time (map fst (group_frame rows))"
    using finalize_timestamps out by (simp add: resample_group_def)
  also have "\<dots> = map m_time (merge_left [timestamp (hd rows)..timestamp (last rows)] rows)"
    using assms(1) by (cases rows) (simp_all add: map_fst_group_frame group_merge_def date_range_def)
  also have "\<dots> = [timestamp (hd rows)..timestamp (last rows)]"
    by (rule merge_left_times) (use length_filter_distinct [OF assms(2)] in blast)
  finally show ?thesis using out by blast
qed

text \<open>
  C17 (safety). When the rows of a group are in time order, as the input contract requires, every
  row of the group is in the output, unchanged, in its order, marked \<open>'0'\<close>; the other
  output rows are the added ones.
\<close>

theorem resample_group_keeps_rows:
  assumes "sorted (map timestamp rows)" "resample_group rows = Some out"
  shows "map sample.truncate (filter (\<lambda>w. interpolated w = ''0'') out) = rows"
proof (cases rows)
  case Nil
  with assms(2) show ?thesis by (simp add: resample_group_def group_frame_def group_merge_def)
next
  case (Cons r rs)
  have "map sample.truncate (filter (\<lambda>w. interpolated w = ''0'') out) = [r. Matched r \<leftarrow> map fst (group_frame rows)]"
    using assms(2) group_frame_matched unfolding resample_group_def by (blast intro: finalize_matched_rows)
  also have "\<dots> = concat (map (\<lambda>t. filter (\<lambda>r. timestamp r = t) rows) [timestamp (hd rows)..timestamp (last rows)])"
    by (simp add: map_fst_group_frame group_merge_def Cons date_range_def matched_merge_left)
  also have "\<dots> = rows"
    using assms(1) sorted_hd_last_bounds [OF assms(1)] by (intro sorted_grid) auto
  finally show ?thesis .
qed

text \<open>
  Every row of a resampled group, the added ones included, carries the group's
  session and tracker.
\<close>

theorem resample_group_keys:
  assumes "resample_group (session_df df k) = Some out"
  shows "\<forall>w\<in>set out. (session w, tracker w) = k"
proof -
  have "(session r, tracker r) = k" if "(Matched r, xo, yo) \<in> set (group_frame (session_df df k))" for r xo yo
  proof -
    from that have "Matched r \<in> set (group_merge (session_df df k))"
      by (metis fst_conv image_eqI list.set_map map_fst_group_frame)
    then have "r \<in> set (session_df df k)"
      by (auto simp: group_merge_def split: list.splits dest: matched_merge_left_mem)
    then show ?thesis by (simp add: session_df_def)
  qed
  then have km: "\<forall>r xo yo. (Matched r, xo, yo) \<in> set (group_frame (session_df df k)) \<longrightarrow> (session r, tracker r) = k"
    by blast
  from assms have "finalize None (group_frame (session_df df k)) = Some out" by (simp add: resample_group_def)
  from finalize_keys [OF this km] show ?thesis by simp
qed

text \<open>
  An interpolated coordinate lies between two coordinates of the column: linear
  interpolation never overshoots the values it interpolates.
\<close>

theorem interp_linear_between:
  assumes "Some w \<in> set (interp_linear vs)"
  shows "\<exists>a b. Some a \<in> set vs \<and> Some b \<in> set vs \<and> min a b \<le> w \<and> w \<le> max a b"
proof -
  from assms obtain i where "i < length vs" "interp_at vs i = Some w" by (auto simp: interp_linear_def)
  then show ?thesis by (rule interp_at_between)
qed


subsection \<open>Witnesses\<close>

theorem resample_group_one_per_second_witness: "\<exists>out. resample_group [sample.make 1 1 10 0 0 1 1, sample.make 1 1 13 3 6 1 1] = Some out
           \<and> map timestamp out = [10, 11, 12, 13]"
  using resample_group_one_per_second [of "[sample.make 1 1 10 0 0 1 1, sample.make 1 1 13 3 6 1 1]"]
  by (simp add: sample.defs upto.simps)

theorem resample_group_keeps_rows_witness: "\<exists>out. resample_group [sample.make 1 1 10 0 0 1 1, sample.make 1 1 13 3 6 1 1] = Some out
           \<and> map sample.truncate (filter (\<lambda>w. interpolated w = ''0'') out)
             = [sample.make 1 1 10 0 0 1 1, sample.make 1 1 13 3 6 1 1]"
  using resample_group_Some [of "[sample.make 1 1 10 0 0 1 1, sample.make 1 1 13 3 6 1 1]"]
        resample_group_keeps_rows [of "[sample.make 1 1 10 0 0 1 1, sample.make 1 1 13 3 6 1 1]"]
  by (auto simp: sample.defs)

theorem resample_group_keys_witness:
  "\<exists>out. resample_group (session_df [sample.make 1 1 10 0 0 1 1, sample.make 2 1 12 5 5 1 1] (1, 1)) = Some out
         \<and> (\<forall>w\<in>set out. (session w, tracker w) = (1, 1))"
  using resample_group_Some [of "session_df [sample.make 1 1 10 0 0 1 1, sample.make 2 1 12 5 5 1 1] (1, 1)"]
        resample_group_keys [of "[sample.make 1 1 10 0 0 1 1, sample.make 2 1 12 5 5 1 1]" "(1, 1)"]
  by blast

theorem interp_linear_between_witness:
  "Some 1 \<in> set (interp_linear [Some 0, None, Some (2::real)])
   \<and> (\<exists>a b. Some a \<in> set [Some 0, None, Some (2::real)] \<and> Some b \<in> set [Some 0, None, Some (2::real)]
            \<and> min a b \<le> 1 \<and> 1 \<le> max a b)"
proof -
  have m: "Some 1 \<in> set (interp_linear [Some 0, None, Some (2::real)])"
    by (simp add: interp_linear_def interp_at_def valid_points_def upt_rec)
  with interp_linear_between [OF m] show ?thesis by blast
qed


end
