(* ===== verification/Entropy_Value.thy ===== *)
theory Entropy_Value
  imports Entropy_Grid
begin

text \<open>
  \<open>get_entropy\<close> (\<open>_entropy.py\<close>, lines 233--265): for every grid of the frame, the
  cells are flattened row by row (lines 252--255) and passed to
  \<open>scipy.stats.entropy(flat_grid, base=2)\<close>. scipy normalises the vector by its sum,
  applies \<open>entr\<close> (\<open>-p ln p\<close>, 0 at 0, \<open>-inf\<close> below 0) to every entry, sums and
  divides by \<open>ln 2\<close>; a zero sum makes every entry NaN or infinite. A NaN or infinite
  result is \<open>None\<close>; an empty vector gives 0.
\<close>

section \<open>scipy's entropy\<close>

text \<open>\<open>scipy.special.entr\<close>.\<close>

definition entr :: "real \<Rightarrow> real option" where
  "entr v = (if 0 < v then Some (- v * ln v) else if v = 0 then Some 0 else None)"

text \<open>\<open>scipy.stats.entropy(pk, base=2)\<close>.\<close>

definition sp_entropy :: "real list \<Rightarrow> real option" where
  "sp_entropy pk =
     (if pk = [] then Some 0
      else (let s = sum_list pk
            in if s = 0 then None
               else map_option (\<lambda>es. sum_list es / ln 2) (all_some (map (\<lambda>v. entr (v / s)) pk))))"

section \<open>get_entropy\<close>

text \<open>Lines 250--265: the \<open>entropy\<close> column appended to every row of the grid frame.\<close>

definition get_entropy :: "('k \<times> nat \<times> real list list) list \<Rightarrow> ('k \<times> nat \<times> real list list \<times> real option) list" where
  "get_entropy df = map (\<lambda>(k, cnt, grid). (k, cnt, grid, sp_entropy (concat grid))) df"

section \<open>Lemmas\<close>

definition ent_term :: "real \<Rightarrow> real" where
  "ent_term p = (if p = 0 then 0 else - p * ln p)"

lemma all_some_map_Some: "all_some (map (\<lambda>v. Some (f v)) xs) = Some (map f xs)"
  by (induction xs) simp_all

lemma entr_nonneg: "0 \<le> v \<Longrightarrow> entr v = Some (ent_term v)"
  by (auto simp: entr_def ent_term_def)

lemma ent_term_nonneg: "0 \<le> p \<Longrightarrow> p \<le> 1 \<Longrightarrow> 0 \<le> ent_term p"
  by (auto simp: ent_term_def mult_le_0_iff)

lemma ent_term_gibbs:
  assumes "0 \<le> p" "0 < n"
  shows "ent_term p - p * ln n \<le> 1 / n - p"
proof (cases "p = 0")
  case True
  with assms show ?thesis by (simp add: ent_term_def)
next
  case False
  with assms have p: "0 < p" by simp
  have "ln (1 / (n * p)) \<le> 1 / (n * p) - 1"
    using p assms(2) by (intro ln_le_minus_one) simp
  then have "p * ln (1 / (n * p)) \<le> p * (1 / (n * p) - 1)"
    using p by (simp add: mult_left_mono)
  moreover have "p * ln (1 / (n * p)) = ent_term p - p * ln n"
    using p assms(2) False by (simp add: ent_term_def ln_div ln_mult algebra_simps)
  moreover have "p * (1 / (n * p) - 1) = 1 / n - p"
    using p assms(2) by (simp add: field_simps)
  ultimately show ?thesis by simp
qed

lemma sp_entropy_nonneg_entries:
  assumes "pk \<noteq> []" "\<forall>v\<in>set pk. 0 \<le> v" "0 < sum_list pk"
  shows "sp_entropy pk = Some (sum_list (map (\<lambda>v. ent_term (v / sum_list pk)) pk) / ln 2)"
proof -
  have e: "map (\<lambda>v. entr (v / sum_list pk)) pk = map (\<lambda>v. Some (ent_term (v / sum_list pk))) pk"
    using assms(2,3) by (auto simp: entr_nonneg)
  show ?thesis
    using assms(1,3) unfolding sp_entropy_def Let_def e all_some_map_Some by simp
qed

lemma sum_list_div_const: "sum_list (map (\<lambda>v. v / c) xs) = sum_list xs / (c :: real)"
  by (induction xs) (simp_all add: add_divide_distrib)

lemma sum_list_const: "sum_list (map (\<lambda>v. c) xs) = real (length xs) * (c :: real)"
  by (induction xs) (simp_all add: algebra_simps)

lemma sp_entropy_bounds:
  assumes "pk \<noteq> []" "\<forall>v\<in>set pk. 0 \<le> v" "0 < sum_list pk"
  shows "\<exists>h. sp_entropy pk = Some h \<and> 0 \<le> h \<and> h \<le> log 2 (real (length pk))"
proof -
  let ?s = "sum_list pk"
  let ?n = "real (length pk)"
  let ?H = "sum_list (map (\<lambda>v. ent_term (v / ?s)) pk)"
  have n: "0 < ?n" using assms(1) by simp
  have p: "0 \<le> v / ?s \<and> v / ?s \<le> 1" if "v \<in> set pk" for v
    using that assms(2,3) member_le_sum_list [OF that] by simp
  have "0 \<le> ?H" using p by (intro sum_list_nonneg) (auto intro: ent_term_nonneg)
  have one: "sum_list (map (\<lambda>v. v / ?s) pk) = 1" using assms(3) by (simp add: sum_list_div_const)
  have lnsum: "sum_list (map (\<lambda>v. v / ?s * ln ?n) pk) = ln ?n"
    using sum_list_mult_const [of "\<lambda>v. v / ?s" "ln ?n" pk] one by simp
  have "?H - ln ?n = sum_list (map (\<lambda>v. ent_term (v / ?s) - v / ?s * ln ?n) pk)"
    by (simp only: sum_list_subtractf lnsum)
  also have "\<dots> \<le> sum_list (map (\<lambda>v. 1 / ?n - v / ?s) pk)"
    using p n by (intro sum_list_mono ent_term_gibbs) auto
  also have "\<dots> = 0"
    using n by (simp add: sum_list_subtractf one sum_list_const)
  finally have "?H \<le> ln ?n" by simp
  then have "?H / ln 2 \<le> log 2 ?n" by (simp add: log_def divide_right_mono)
  moreover have "0 \<le> ?H / ln 2" using \<open>0 \<le> ?H\<close> by simp
  ultimately show ?thesis using sp_entropy_nonneg_entries [OF assms] by blast
qed

lemma sp_entropy_scale: "0 < c \<Longrightarrow> sp_entropy (map (\<lambda>v. c * v) pk) = sp_entropy pk"
  by (simp add: sp_entropy_def Let_def sum_list_const_mult comp_def)

lemma concat_proportions:
  "concat (proportions cnt g) = map (\<lambda>v. (100 / real cnt) * v) (map real (concat g))"
  by (simp add: proportions_def map_concat comp_def mult.commute)

lemma length_concat_rows: "\<forall>row\<in>set g. length row = n \<Longrightarrow> length (concat g) = n * length g"
  by (induction g) simp_all

lemma sum_list_concat_rows: "sum_list (concat g) = sum_list (map sum_list (g :: real list list))"
  by (induction g) simp_all

lemma all_some_mem: "all_some os = Some vs \<Longrightarrow> v \<in> set vs \<Longrightarrow> Some v \<in> set os"
  by (induction os arbitrary: vs) (auto split: option.splits)

lemma entropy_grids_row:
  assumes "entropy_grids cs n m df = Some rows" "(k, cnt, g) \<in> set rows"
  shows "group_grid cs n m df (\<lambda>r. (session r, tracker r) = k) cnt = Some g \<and> 0 < cnt"
proof -
  let ?key = "\<lambda>r. (session r, tracker r)"
  let ?F = "\<lambda>k. map_option (\<lambda>g. (k, length (filter (\<lambda>r. ?key r = k) df), g))
                 (group_grid cs n m df (\<lambda>r. ?key r = k) (length (filter (\<lambda>r. ?key r = k) df)))"
  have e1: "entropy_grids cs n m df = all_some (map ?F (sort (remdups (map ?key df))))"
    by (simp add: entropy_grids_def Let_def)
  have "Some (k, cnt, g) \<in> set (map ?F (sort (remdups (map ?key df))))"
    using all_some_mem [OF assms(1)[unfolded e1] assms(2)] .
  then have "Some (k, cnt, g) \<in> ?F ` set (sort (remdups (map ?key df)))" by (simp only: set_map)
  then obtain k' where k': "k' \<in> set (sort (remdups (map ?key df)))" and eq: "Some (k, cnt, g) = ?F k'"
    by (rule imageE)
  from eq [symmetric] obtain g0 where
    g0: "group_grid cs n m df (\<lambda>r. ?key r = k') (length (filter (\<lambda>r. ?key r = k') df)) = Some g0"
    and t: "(k', length (filter (\<lambda>r. ?key r = k') df), g0) = (k, cnt, g)"
    unfolding map_option_eq_Some by blast
  from t have kk: "k' = k" and c: "cnt = length (filter (\<lambda>r. ?key r = k) df)" and "g0 = g" by auto
  with g0 have gg: "group_grid cs n m df (\<lambda>r. ?key r = k) cnt = Some g" by simp
  from k' kk obtain r where "r \<in> set df" "?key r = k" by auto
  then have "r \<in> set (filter (\<lambda>r. ?key r = k) df)" by simp
  from length_pos_if_in_set [OF this] c have "0 < cnt" by simp
  with gg show ?thesis by simp
qed

lemma get_entropy_mem: "(k, cnt, g, e) \<in> set (get_entropy rows) \<Longrightarrow> (k, cnt, g) \<in> set rows \<and> e = sp_entropy (concat g)"
  by (auto simp: get_entropy_def)

lemma group_grid_counts:
  "group_grid cs n m df sel cnt = Some g \<Longrightarrow>
   \<exists>counts. fill_grid cs n m sel df (zero_grid n m) = Some counts \<and> g = proportions cnt counts"
  by (auto simp: group_grid_def)

section \<open>Properties\<close>

text \<open>
  C29 (equivalence). The entropy column of a (session, tracker) grid is the entropy of its
  raw counts: the grid holds percentages (0--100) where \<open>get_entropy\<close>'s docstring
  expects proportions (0--1), and scipy's normalisation makes the difference vanish.
\<close>

theorem get_entropy_of_counts:
  assumes "entropy_grids cs n m df = Some rows" "(k, cnt, g, e) \<in> set (get_entropy rows)"
  shows "\<exists>counts. fill_grid cs n m (\<lambda>r. (session r, tracker r) = k) df (zero_grid n m) = Some counts
                 \<and> e = sp_entropy (map real (concat counts))"
proof -
  from get_entropy_mem [OF assms(2)] have row: "(k, cnt, g) \<in> set rows" and e: "e = sp_entropy (concat g)" by simp_all
  from entropy_grids_row [OF assms(1) row] have gg: "group_grid cs n m df (\<lambda>r. (session r, tracker r) = k) cnt = Some g"
    and c: "0 < cnt" by simp_all
  from group_grid_counts [OF gg] obtain counts where
    f: "fill_grid cs n m (\<lambda>r. (session r, tracker r) = k) df (zero_grid n m) = Some counts"
    and g: "g = proportions cnt counts" by blast
  have "e = sp_entropy (map (\<lambda>v. (100 / real cnt) * v) (map real (concat counts)))"
    by (simp only: e g concat_proportions)
  also have "\<dots> = sp_entropy (map real (concat counts))"
    using c by (intro sp_entropy_scale) simp
  finally have "e = sp_entropy (map real (concat counts))" .
  with f show ?thesis by blast
qed

text \<open>
  The entropy of a grid with at least one sample in a cell is a finite number
  from 0 to \<open>log2\<close> of the number of cells.
\<close>

theorem get_entropy_bounds:
  assumes "entropy_grids cs n m df = Some rows" "(k, cnt, g, e) \<in> set (get_entropy rows)"
    and "0 < sum_list (map sum_list g)"
  shows "\<exists>h. e = Some h \<and> 0 \<le> h \<and> h \<le> log 2 (real (n * m))"
proof -
  from get_entropy_mem [OF assms(2)] have row: "(k, cnt, g) \<in> set rows" and e: "e = sp_entropy (concat g)" by simp_all
  from entropy_grids_row [OF assms(1) row] have gg: "group_grid cs n m df (\<lambda>r. (session r, tracker r) = k) cnt = Some g"
    by simp
  from group_grid_counts [OF gg] obtain counts where
    f: "fill_grid cs n m (\<lambda>r. (session r, tracker r) = k) df (zero_grid n m) = Some counts"
    and g: "g = proportions cnt counts" by blast
  have "grid_shape n m counts" using fill_grid_Some [OF grid_shape_zero f] by simp
  then have rows: "length counts = m" "\<forall>row\<in>set counts. length row = n" by (simp_all add: grid_shape_def)
  have "length (concat counts) = n * length counts" by (rule length_concat_rows) (fact rows(2))
  with rows(1) have len: "length (concat g) = n * m" by (simp add: g concat_proportions)
  have sum: "0 < sum_list (concat g)" using assms(3) by (simp add: sum_list_concat_rows)
  then have ne: "concat g \<noteq> []" by (metis less_irrefl sum_list.Nil)
  have nn: "\<forall>v\<in>set (concat g). 0 \<le> v" by (auto simp: g concat_proportions)
  from sp_entropy_bounds [OF ne nn sum] len e show ?thesis by simp
qed

subsection \<open>Witnesses\<close>

lemmas entropy_eval = entropy_grids_def group_grid_def proportions_def grid_eval

theorem get_entropy_of_counts_witness:
  "entropy_grids 1 2 1 [sample.make 1 1 0 0 0 1 1, sample.make 1 1 1 1 0 1 1] = Some [((1, 1), 2, [[50, 50]])]
   \<and> ((1, 1), 2, [[50, 50]], sp_entropy [50, 50]) \<in> set (get_entropy [((1, 1), 2, [[50, 50]])])
   \<and> (\<exists>counts. fill_grid 1 2 1 (\<lambda>r. (session r, tracker r) = (1, 1)) [sample.make 1 1 0 0 0 1 1, sample.make 1 1 1 1 0 1 1]
                 (zero_grid 2 1) = Some counts \<and> sp_entropy [50, 50] = sp_entropy (map real (concat counts)))"
proof -
  have g: "entropy_grids 1 2 1 [sample.make 1 1 0 0 0 1 1, sample.make 1 1 1 1 0 1 1] = Some [((1, 1), 2, [[50, 50]])]"
    by (simp add: entropy_eval)
  have m: "((1, 1), 2, [[50, 50]], sp_entropy [50, 50]) \<in> set (get_entropy [((1, 1), 2, [[50, 50 :: real]])])"
    by (simp add: get_entropy_def)
  from get_entropy_of_counts [OF g m] g m show ?thesis by blast
qed

theorem get_entropy_bounds_witness:
  "entropy_grids 1 2 1 [sample.make 1 1 0 0 0 1 1, sample.make 1 1 1 1 0 1 1] = Some [((1, 1), 2, [[50, 50]])]
   \<and> ((1, 1), 2, [[50, 50]], sp_entropy [50, 50]) \<in> set (get_entropy [((1, 1), 2, [[50, 50]])])
   \<and> 0 < sum_list (map sum_list [[50, 50 :: real]])
   \<and> (\<exists>h. sp_entropy [50, 50] = Some h \<and> 0 \<le> h \<and> h \<le> log 2 (real (2 * 1)))"
proof -
  have g: "entropy_grids 1 2 1 [sample.make 1 1 0 0 0 1 1, sample.make 1 1 1 1 0 1 1] = Some [((1, 1), 2, [[50, 50]])]"
    by (simp add: entropy_eval)
  have m: "((1, 1), 2, [[50, 50]], sp_entropy [50, 50]) \<in> set (get_entropy [((1, 1), 2, [[50, 50 :: real]])])"
    by (simp add: get_entropy_def)
  have s: "0 < sum_list (map sum_list [[50, 50 :: real]])" by simp
  from get_entropy_bounds [OF g m s] g m s show ?thesis by blast
qed

end
