(* ===== verification/Metrics_Tables.thy ===== *)
theory Metrics_Tables
  imports Metrics Fixed_Points Entropy_Value
begin

text \<open>
  The remaining tables of \<open>get_metrics\<close> (\<open>_metricsMain.py\<close>, lines 131--193) and the
  merge of all of them. The student and zone tables aggregate the fixed-point statistics
  (\<open>generate_fixed_points_stats\<close>), the entropy table the output of \<open>get_entropy\<close>, the
  Gini tables the outputs of \<open>calculate_gini_by_tracker\<close> and
  \<open>calculate_gini_trackers_together\<close>. pandas' \<open>sum\<close>, \<open>mean\<close> and \<open>std\<close> skip NaN
  (\<open>None\<close>); a sum of NaN only is 0, a mean of NaN only is NaN. Every merge is an inner
  merge on the key, in the order of the left table's rows.
\<close>

type_synonym key3 = "session_id \<times> tracker_id \<times> int"

section \<open>NaN-skipping aggregations\<close>

definition nan_values :: "real option list \<Rightarrow> real list" where
  "nan_values vs = [v. Some v \<leftarrow> vs]"

definition nan_sum :: "real option list \<Rightarrow> real" where
  "nan_sum vs = sum_list (nan_values vs)"

definition nan_mean :: "real option list \<Rightarrow> real option" where
  "nan_mean vs = (if nan_values vs = [] then None else Some (mean (nan_values vs)))"

definition nan_std :: "real option list \<Rightarrow> real option" where
  "nan_std vs = std_opt (nan_values vs)"

section \<open>The fixed-point tables\<close>

text \<open>Line 134: \<open>sort_values(by=['session','obj_type'])\<close>, a stable sort.\<close>

definition points_sorted :: "fp_stat list \<Rightarrow> fp_stat list" where
  "points_sorted df_points = sort_key (\<lambda>r. (fs_session r, fs_obj_type r)) df_points"

text \<open>Lines 135--136: the derived columns; \<open>sum/count\<close> of an unvisited point is NaN.\<close>

definition time_per_stop_min :: "fp_stat \<Rightarrow> real option" where
  "time_per_stop_min r = (if fs_count r = 0 then None else Some (fs_sum r / fs_count r / 60))"

definition attention_min :: "fp_stat \<Rightarrow> real" where
  "attention_min r = fs_sum r / 60"

definition pkey3 :: "fp_stat \<Rightarrow> key3" where
  "pkey3 r = (fs_session r, fs_tracker r, fs_phase r)"

record student_metrics =
  total_attention_time_min :: real
  total_number_visits :: real
  average_attention_time_per_visit :: "real option"
  std_attention_time_per_visit :: "real option"
  average_visits_per_student :: real
  std_visits_per_student :: "real option"

text \<open>Lines 140--145 for one group of student rows.\<close>

definition student_metrics_of :: "fp_stat list \<Rightarrow> student_metrics" where
  "student_metrics_of rs =
     \<lparr>total_attention_time_min = sum_list (map attention_min rs),
      total_number_visits = sum_list (map fs_count rs),
      average_attention_time_per_visit = nan_mean (map time_per_stop_min rs),
      std_attention_time_per_visit = nan_std (map time_per_stop_min rs),
      average_visits_per_student = mean (map fs_count rs),
      std_visits_per_student = std_opt (map fs_count rs)\<rparr>"

text \<open>Lines 139--146.\<close>

definition get_student_metrics :: "fp_stat list \<Rightarrow> (key3 \<times> student_metrics) list" where
  "get_student_metrics df_points =
     (let st = filter (\<lambda>r. fs_obj_type r = ''student'') (points_sorted df_points)
      in map (\<lambda>k. (k, student_metrics_of (filter (\<lambda>r. pkey3 r = k) st))) (group_keys pkey3 st))"

text \<open>Lines 149--152: the zone rows summed per (session, tracker, phase, tag).\<close>

definition get_zone_totals :: "fp_stat list \<Rightarrow> ((key3 \<times> string) \<times> real \<times> real) list" where
  "get_zone_totals df_points =
     (let zs = filter (\<lambda>r. fs_obj_type r = ''zone'') (points_sorted df_points);
          key = (\<lambda>r. (pkey3 r, fs_tag r))
      in map (\<lambda>k. (k, sum_list (map attention_min (filter (\<lambda>r. key r = k) zs)),
                       sum_list (map fs_count (filter (\<lambda>r. key r = k) zs))))
             (group_keys key zs))"

text \<open>
  Lines 154--157: \<open>pivot_table\<close> with index (session, tracker, phase) and one column
  pair per tag (sorted); a key without a row for a tag has NaN there.
\<close>

definition pivot_zones :: "((key3 \<times> string) \<times> real \<times> real) list \<Rightarrow> (key3 \<times> (string \<times> (real \<times> real) option) list) list" where
  "pivot_zones objs =
     (let tags = group_keys (\<lambda>o1. snd (fst o1)) objs
      in map (\<lambda>k. (k, map (\<lambda>tg. (tg, map_of objs (k, tg))) tags)) (group_keys (\<lambda>o1. fst (fst o1)) objs))"

section \<open>Entropy and Gini tables\<close>

text \<open>Lines 169--171: the entropy per (session, tracker, phase), NaN summed as 0.\<close>

definition entropy_table :: "(key3 \<times> nat \<times> real list list \<times> real option) list \<Rightarrow> (key3 \<times> real) list" where
  "entropy_table df_entropy =
     map (\<lambda>k. (k, nan_sum (map (\<lambda>(k', cnt, grid, e). e) (filter (\<lambda>r. fst r = k) df_entropy))))
         (group_keys fst df_entropy)"

text \<open>Lines 174--182: the Gini values summed per key.\<close>

definition gini_table :: "('k::linorder \<times> real option) list \<Rightarrow> ('k \<times> real) list" where
  "gini_table df = map (\<lambda>k. (k, nan_sum (map snd (filter (\<lambda>r. fst r = k) df)))) (group_keys fst df)"

section \<open>The merges\<close>

text \<open>Line 193: the merge with the per-session table on (session, phase).\<close>

definition merge_session :: "(key3 \<times> 'a) list \<Rightarrow> ((session_id \<times> int) \<times> 'b) list \<Rightarrow> (key3 \<times> 'a \<times> 'b) list" where
  "merge_session l r =
     concat (map (\<lambda>(k, a). map (\<lambda>(k', b). (k, a, b)) (filter (\<lambda>kb. fst kb = (fst k, snd (snd k))) r)) l)"

text \<open>Lines 186--193: \<open>merge1\<close> to \<open>Merge5\<close> and the session Gini.\<close>

definition merge_all ::
    "out_row list \<Rightarrow> fp_stat list \<Rightarrow> (key3 \<times> nat \<times> real list list \<times> real option) list
     \<Rightarrow> (key3 \<times> real option) list \<Rightarrow> ((session_id \<times> int) \<times> real option) list
     \<Rightarrow> (key3 \<times> (((stop_metrics \<times> transition_metrics) \<times> student_metrics
                   \<times> (string \<times> (real \<times> real) option) list) \<times> real \<times> real) \<times> real) list" where
  "merge_all df_fs df_points df_entropy df_giniT df_giniSession =
     (let merge2 = inner_merge (get_student_metrics df_points) (pivot_zones (get_zone_totals df_points));
          merge3 = inner_merge (entropy_table df_entropy) (gini_table df_giniT);
          merge4 = inner_merge (merge1 df_fs) merge2;
          merge5 = inner_merge merge4 merge3
      in merge_session merge5 (gini_table df_giniSession))"

section \<open>Lemmas\<close>

subsection \<open>Keys of the tables\<close>

lemma set_points_sorted [simp]: "set (points_sorted df_points) = set df_points"
  by (simp add: points_sorted_def)

lemma keys_get_student_metrics:
  "fst ` set (get_student_metrics df_points) = pkey3 ` {r \<in> set df_points. fs_obj_type r = ''student''}"
  by (auto simp: get_student_metrics_def Let_def group_keys_def)

lemma keys_students: "k \<in> fst ` set (get_student_metrics df_points)
   \<longleftrightarrow> (\<exists>r\<in>set df_points. fs_obj_type r = ''student'' \<and> pkey3 r = k)"
  unfolding keys_get_student_metrics by auto

lemma keys_get_zone_totals:
  "fst ` set (get_zone_totals df_points) = (\<lambda>r. (pkey3 r, fs_tag r)) ` {r \<in> set df_points. fs_obj_type r = ''zone''}"
  by (auto simp: get_zone_totals_def Let_def group_keys_def)

lemma keys_pivot_zones: "fst ` set (pivot_zones objs) = (\<lambda>o1. fst (fst o1)) ` set objs"
  by (auto simp: pivot_zones_def Let_def group_keys_def)

lemma keys_zones: "k \<in> fst ` set (pivot_zones (get_zone_totals df_points))
   \<longleftrightarrow> (\<exists>r\<in>set df_points. fs_obj_type r = ''zone'' \<and> pkey3 r = k)"
proof -
  have "(\<lambda>o1. fst (fst o1)) ` set (get_zone_totals df_points) = fst ` fst ` set (get_zone_totals df_points)"
    by (simp add: image_image)
  also have "\<dots> = pkey3 ` {r \<in> set df_points. fs_obj_type r = ''zone''}"
    by (simp add: keys_get_zone_totals image_image)
  finally have z: "(\<lambda>o1. fst (fst o1)) ` set (get_zone_totals df_points) = pkey3 ` {r \<in> set df_points. fs_obj_type r = ''zone''}" .
  show ?thesis unfolding keys_pivot_zones z by auto
qed

lemma keys_entropy_table: "fst ` set (entropy_table df) = fst ` set df"
  by (auto simp: entropy_table_def group_keys_def)

lemma keys_gini_table: "fst ` set (gini_table df) = fst ` set df"
  by (auto simp: gini_table_def group_keys_def)

lemma keys_merge_session:
  "fst ` set (merge_session l r) = {k \<in> fst ` set l. (fst k, snd (snd k)) \<in> fst ` set r}"
  by (force simp: merge_session_def)

text \<open>
  Without any fixed point of type \<open>zone\<close> the zone table is empty, and with it the
  whole output of \<open>get_metrics\<close>.
\<close>

lemma merge_all_no_zones:
  "\<forall>r\<in>set df_points. fs_obj_type r \<noteq> ''zone'' \<Longrightarrow> merge_all df_fs df_points df_entropy df_giniT df_giniSession = []"
proof -
  assume "\<forall>r\<in>set df_points. fs_obj_type r \<noteq> ''zone''"
  then have "filter (\<lambda>r. fs_obj_type r = ''zone'') (points_sorted df_points) = []"
    by (auto simp: filter_empty_conv)
  then have "pivot_zones (get_zone_totals df_points) = []"
    by (simp add: get_zone_totals_def pivot_zones_def group_keys_def)
  then show ?thesis by (simp add: merge_all_def inner_merge_def merge_session_def)
qed

subsection \<open>NaN in the aggregations\<close>

lemma nan_values_time_per_stop:
  "nan_values (map time_per_stop_min rs) = map (\<lambda>r. fs_sum r / fs_count r / 60) (filter (\<lambda>r. fs_count r \<noteq> 0) rs)"
  by (induction rs) (simp_all add: nan_values_def time_per_stop_min_def)

text \<open>
  The average attention time per visit is taken over the visited students only (an
  unvisited student's quotient is NaN and skipped), while the average number of visits
  counts every student.
\<close>

lemma average_attention_visited_only:
  "average_attention_time_per_visit (student_metrics_of rs)
   = (let vis = filter (\<lambda>r. fs_count r \<noteq> 0) rs
      in if vis = [] then None else Some (mean (map (\<lambda>r. fs_sum r / fs_count r / 60) vis)))"
  by (simp add: student_metrics_of_def nan_mean_def nan_values_time_per_stop Let_def)

lemma sp_entropy_zero_sum: "pk \<noteq> [] \<Longrightarrow> sum_list pk = 0 \<Longrightarrow> sp_entropy pk = None"
  by (simp add: sp_entropy_def)

lemma entropy_table_mem:
  "(k, v) \<in> set (entropy_table df) \<Longrightarrow> v = nan_sum (map (\<lambda>(k', cnt, grid, e). e) (filter (\<lambda>r. fst r = k) df))"
  by (auto simp: entropy_table_def)

lemma nan_sum_None: "\<forall>v\<in>set vs. v = None \<Longrightarrow> nan_sum vs = 0"
  by (induction vs) (auto simp: nan_sum_def nan_values_def)

section \<open>Properties\<close>

text \<open>
  C21 (functional). A (session, tracker, phase) is a row of the merged metrics exactly when
  it has a stop, a transition, a student row and a zone row in the fixed-point statistics,
  an entropy row and a Gini row, and its (session, phase) has a session Gini row: every
  merge is inner, so a key missing from any table is dropped from the output.
\<close>

theorem merge_all_keys:
  "k \<in> fst ` set (merge_all df_fs df_points df_entropy df_giniT df_giniSession) \<longleftrightarrow>
     (\<exists>w\<in>set df_fs. out_type w = Stop \<and> fs_key3 w = k)
     \<and> (\<exists>w\<in>set df_fs. out_type w = Transition \<and> fs_key3 w = k)
     \<and> (\<exists>r\<in>set df_points. fs_obj_type r = ''student'' \<and> pkey3 r = k)
     \<and> (\<exists>r\<in>set df_points. fs_obj_type r = ''zone'' \<and> pkey3 r = k)
     \<and> k \<in> fst ` set df_entropy \<and> k \<in> fst ` set df_giniT
     \<and> (fst k, snd (snd k)) \<in> fst ` set df_giniSession"
  unfolding merge_all_def Let_def keys_merge_session mem_Collect_eq set_inner_merge_keys Int_iff
    merge1_keys keys_students keys_zones keys_entropy_table keys_gini_table
  by blast

text \<open>
  C30 (error). A group whose grids are all non-empty with no sample inside them (every
  sample beyond the grid's upper bounds) has a NaN entropy, and the entropy table reports
  it as 0, the entropy of a fully concentrated distribution: pandas' \<open>sum\<close> skips NaN.
\<close>

theorem entropy_metric_out_of_grid:
  assumes "(k, v) \<in> set (entropy_table (get_entropy rows))"
    and "\<forall>(k', cnt, g) \<in> set rows. k' = k \<longrightarrow> concat g \<noteq> [] \<and> sum_list (concat g) = 0"
  shows "v = 0"
proof -
  have none: "sp_entropy (concat g) = None" if "(k, cnt, g) \<in> set rows" for cnt g
  proof -
    from bspec [OF assms(2) that] have "concat g \<noteq> []" "sum_list (concat g) = 0" by simp_all
    then show ?thesis by (rule sp_entropy_zero_sum)
  qed
  have "\<forall>e\<in>set (map (\<lambda>(k', cnt, grid, e). e) (filter (\<lambda>r. fst r = k) (get_entropy rows))). e = None"
    using none by (auto simp: get_entropy_def)
  with entropy_table_mem [OF assms(1)] show ?thesis by (simp add: nan_sum_None)
qed

subsection \<open>Witnesses\<close>

theorem entropy_metric_out_of_grid_witness:
  "entropy_grids_phase 1 1 1 [sample.make 1 1 0 5 0 1 1] = Some [((1, 1, 1), 1, [[0]])]
   \<and> ((1, 1, 1), 0) \<in> set (entropy_table (get_entropy [((1, 1, 1), 1, [[0 :: real]])]))"
proof -
  have g: "entropy_grids_phase 1 1 1 [sample.make 1 1 0 5 0 1 1] = Some [((1, 1, 1), 1, [[0]])]"
    by (simp add: entropy_grids_phase_def entropy_eval)
  have h: "\<forall>(k', cnt, g) \<in> set [((1, 1, 1), 1, [[0 :: real]])]. k' = (1, 1, 1) \<longrightarrow> concat g \<noteq> [] \<and> sum_list (concat g) = 0"
    by simp
  have m: "((1, 1, 1), 0) \<in> set (entropy_table (get_entropy [((1, 1, 1), 1, [[0 :: real]])]))"
    using entropy_metric_out_of_grid [OF _ h]
    by (simp add: entropy_table_def get_entropy_def group_keys_def nan_sum_def nan_values_def sp_entropy_def)
  from g m show ?thesis by blast
qed

end
