(* ===== verification/Date_Parser.thy ===== *)
theory Date_Parser
  imports Main
begin

text \<open>
  The timestamp parser of \<open>src/moodoo-master/scripts/_util.py\<close>:
  \<open>mydateparser = lambda x: pd.datetime.strptime(x, "%d/%m/%Y %H:%M:%S")\<close>
  (lines 33 and 54), passed as \<open>date_parser\<close> to \<open>pd.read_csv\<close> by
  \<open>open_csv_gui\<close> and \<open>open_csv\<close>. The parser is CPython's
  \<open>_strptime\<close>: the format is compiled to a regular expression (each run of
  whitespace becomes \<open>\s+\<close>, each directive its group of alternatives), the first
  match in the regular expression's priority order is taken, trailing text raises
  ``unconverted data remains'', and the fields are checked by \<open>datetime\<close>'s
  constructor (year, month, day of the month with leap years, hour, minute, second).
  Every \<open>ValueError\<close> is an \<open>Inl\<close> value. Strings are lists of 8-bit
  characters; \<open>\d\<close> and \<open>\s\<close> are the Unicode classes restricted to them.
  Reading the file (and the GUI dialog) is not modelled: a file is its header and its
  rows, a row a map from column names to the text of its cell.
\<close>

section \<open>CPython's strptime\<close>

subsection \<open>Characters\<close>

text \<open>Character classes of the directive patterns and \<open>int()\<close> of a matched group.\<close>

definition chr_in :: "char \<Rightarrow> char \<Rightarrow> char \<Rightarrow> bool" where
  "chr_in lo hi c = ((of_char lo :: nat) \<le> of_char c \<and> (of_char c :: nat) \<le> of_char hi)"

definition is_digit :: "char \<Rightarrow> bool" where
  "is_digit = chr_in CHR ''0'' CHR ''9''"

definition is_space :: "char \<Rightarrow> bool" where
  "is_space c = ((of_char c :: nat) \<in> {9..13} \<union> {28..32} \<union> {133, 160})"

definition py_int :: "string \<Rightarrow> nat" where
  "py_int t = foldl (\<lambda>n c. 10 * n + (of_char c - 48)) 0 (dropWhile is_space t)"

subsection \<open>The regular expression\<close>

text \<open>
  An alternative of a group is a sequence of character classes; \<open>re_match\<close> lists all
  matches of a token sequence at the start of a string in the order the backtracking
  matcher tries them (alternatives left to right, \<open>\s+\<close> greedy), with the captured
  groups and the unmatched rest.
\<close>

type_synonym alternative = "(char \<Rightarrow> bool) list"

fun match_seq :: "alternative \<Rightarrow> string \<Rightarrow> (string \<times> string) option" where
  "match_seq [] s = Some ([], s)"
| "match_seq (p # ps) [] = None"
| "match_seq (p # ps) (c # s) =
     (if p c then map_option (\<lambda>(t, r). (c # t, r)) (match_seq ps s) else None)"

definition alt_matches :: "alternative list \<Rightarrow> string \<Rightarrow> (string \<times> string) list" where
  "alt_matches alts s = List.map_filter (\<lambda>a. match_seq a s) alts"

datatype token = Grp char "alternative list" | Lit char | Ws

fun re_match :: "token list \<Rightarrow> string \<Rightarrow> ((char \<times> string) list \<times> string) list" where
  "re_match [] s = [([], s)]"
| "re_match (Lit c # ts) [] = []"
| "re_match (Lit c # ts) (c' # s) = (if c' = c then re_match ts s else [])"
| "re_match (Grp k alts # ts) s =
     concat (map (\<lambda>(t, s'). map (\<lambda>(gs, r). ((k, t) # gs, r)) (re_match ts s')) (alt_matches alts s))"
| "re_match (Ws # ts) s =
     concat (map (\<lambda>n. re_match ts (drop n s)) (rev [1..<Suc (length (takeWhile is_space s))]))"

text \<open>The directive table of \<open>_strptime.TimeRE\<close> for the six directives the format uses.\<close>

definition lit :: "char \<Rightarrow> char \<Rightarrow> bool" where
  "lit c = (\<lambda>c'. c' = c)"

definition dir_d :: "alternative list" where
  "dir_d = [[lit CHR ''3'', chr_in CHR ''0'' CHR ''1''], [chr_in CHR ''1'' CHR ''2'', is_digit],
            [lit CHR ''0'', chr_in CHR ''1'' CHR ''9''], [chr_in CHR ''1'' CHR ''9''],
            [lit CHR '' '', chr_in CHR ''1'' CHR ''9'']]"

definition dir_m :: "alternative list" where
  "dir_m = [[lit CHR ''1'', chr_in CHR ''0'' CHR ''2''], [lit CHR ''0'', chr_in CHR ''1'' CHR ''9''],
            [chr_in CHR ''1'' CHR ''9'']]"

definition dir_Y :: "alternative list" where
  "dir_Y = [[is_digit, is_digit, is_digit, is_digit]]"

definition dir_H :: "alternative list" where
  "dir_H = [[lit CHR ''2'', chr_in CHR ''0'' CHR ''3''], [chr_in CHR ''0'' CHR ''1'', is_digit], [is_digit]]"

definition dir_M :: "alternative list" where
  "dir_M = [[chr_in CHR ''0'' CHR ''5'', is_digit], [is_digit]]"

definition dir_S :: "alternative list" where
  "dir_S = [[lit CHR ''6'', chr_in CHR ''0'' CHR ''1''], [chr_in CHR ''0'' CHR ''5'', is_digit], [is_digit]]"

definition directive :: "char \<Rightarrow> alternative list option" where
  "directive k =
     (if k = CHR ''d'' then Some dir_d else if k = CHR ''m'' then Some dir_m
      else if k = CHR ''Y'' then Some dir_Y else if k = CHR ''H'' then Some dir_H
      else if k = CHR ''M'' then Some dir_M else if k = CHR ''S'' then Some dir_S
      else None)"

text \<open>\<open>TimeRE.pattern\<close>: an unknown directive is a \<open>ValueError\<close> (\<open>BadDirective\<close>).\<close>

function compile_format :: "string \<Rightarrow> token list option" where
  "compile_format [] = Some []"
| "compile_format (c # s) =
     (if c = CHR ''%'' then
        (case s of
           [] \<Rightarrow> None
         | k # s' \<Rightarrow> (case directive k of
                         None \<Rightarrow> None
                       | Some alts \<Rightarrow> map_option (Cons (Grp k alts)) (compile_format s')))
      else if is_space c then map_option (Cons Ws) (compile_format (dropWhile is_space s))
      else map_option (Cons (Lit c)) (compile_format s))"
  by pat_completeness auto
termination
  by (relation "measure length") (auto simp: le_imp_less_Suc length_dropWhile_le)

subsection \<open>Fields and their checks\<close>

record datetime =
  dt_year :: nat
  dt_month :: nat
  dt_day :: nat
  dt_hour :: nat
  dt_minute :: nat
  dt_second :: nat

definition is_leap :: "nat \<Rightarrow> bool" where
  "is_leap y = (4 dvd y \<and> (\<not> 100 dvd y \<or> 400 dvd y))"

definition days_in_month :: "nat \<Rightarrow> nat \<Rightarrow> nat" where
  "days_in_month y m =
     (if m = 2 then (if is_leap y then 29 else 28)
      else if m \<in> {4, 6, 9, 11} then 30 else 31)"

datatype strptime_error =
    BadDirective | NoMatch | UnconvertedData
  | YearOutOfRange | MonthOutOfRange | DayOutOfRange
  | HourOutOfRange | MinuteOutOfRange | SecondOutOfRange

text \<open>
  \<open>_strptime\<close> reads the groups (year 1900, month and day 1, time 0 when absent) and
  \<open>datetime_date(year, month, day)\<close> and \<open>datetime(...)\<close> check them in this order.
\<close>

definition build_datetime :: "(char \<times> string) list \<Rightarrow> strptime_error + datetime" where
  "build_datetime gs =
     (let grp = (\<lambda>k dflt. case map_of gs k of None \<Rightarrow> dflt | Some t \<Rightarrow> py_int t);
          y = grp CHR ''Y'' 1900; mo = grp CHR ''m'' 1; d = grp CHR ''d'' 1;
          h = grp CHR ''H'' 0; mi = grp CHR ''M'' 0; s = grp CHR ''S'' 0
      in if y < 1 \<or> 9999 < y then Inl YearOutOfRange
         else if mo < 1 \<or> 12 < mo then Inl MonthOutOfRange
         else if d < 1 \<or> days_in_month y mo < d then Inl DayOutOfRange
         else if 23 < h then Inl HourOutOfRange
         else if 59 < mi then Inl MinuteOutOfRange
         else if 59 < s then Inl SecondOutOfRange
         else Inr \<lparr>dt_year = y, dt_month = mo, dt_day = d, dt_hour = h, dt_minute = mi, dt_second = s\<rparr>)"

definition strptime :: "string \<Rightarrow> string \<Rightarrow> strptime_error + datetime" where
  "strptime data_string fmt =
     (case compile_format fmt of
        None \<Rightarrow> Inl BadDirective
      | Some toks \<Rightarrow>
          (case re_match toks data_string of
             [] \<Rightarrow> Inl NoMatch
           | (gs, rest) # _ \<Rightarrow> (if rest \<noteq> [] then Inl UnconvertedData else build_datetime gs)))"

section \<open>The readers of \<open>_util.py\<close>\<close>

definition mydateparser :: "string \<Rightarrow> strptime_error + datetime" where
  "mydateparser x = strptime x ''%d/%m/%Y %H:%M:%S''"

text \<open>
  A parsed cell and the errors of a read: a column of \<open>parse_dates\<close> missing from the
  header, or the first \<open>ValueError\<close> of the parser. pandas converts the date columns
  in the order given, each element by element in row order.
\<close>

datatype cell = Raw string | Date datetime

datatype read_error = MissingColumn string | DateError strptime_error

fun seq_sum :: "('e + 'a) list \<Rightarrow> 'e + 'a list" where
  "seq_sum [] = Inr []"
| "seq_sum (Inl e # xs) = Inl e"
| "seq_sum (Inr a # xs) = (case seq_sum xs of Inl e \<Rightarrow> Inl e | Inr as \<Rightarrow> Inr (a # as))"

fun convert_columns :: "string list \<Rightarrow> (string \<Rightarrow> string) list \<Rightarrow> (string \<Rightarrow> cell) list
    \<Rightarrow> read_error + (string \<Rightarrow> cell) list" where
  "convert_columns [] rows tbl = Inr tbl"
| "convert_columns (c # cs) rows tbl =
     (case seq_sum (map (\<lambda>r. mydateparser (r c)) rows) of
        Inl e \<Rightarrow> Inl (DateError e)
      | Inr ds \<Rightarrow> convert_columns cs rows (map2 (\<lambda>t d. t(c := Date d)) tbl ds))"

definition open_csv :: "string list \<Rightarrow> (string \<Rightarrow> string) list \<Rightarrow> string list
    \<Rightarrow> read_error + (string \<Rightarrow> cell) list" where
  "open_csv header rows list_of_date_columns =
     (case find (\<lambda>c. c \<notin> set header) list_of_date_columns of
        Some c \<Rightarrow> Inl (MissingColumn c)
      | None \<Rightarrow> convert_columns list_of_date_columns rows (map (\<lambda>r c. Raw (r c)) rows))"

text \<open>\<open>open_csv_gui\<close>: the file the dialog returns, with \<open>parse_dates=['timestamp']\<close>.\<close>

definition open_csv_gui :: "string list \<Rightarrow> (string \<Rightarrow> string) list \<Rightarrow> read_error + (string \<Rightarrow> cell) list" where
  "open_csv_gui header rows = open_csv header rows [''timestamp'']"

section \<open>The documented format\<close>

text \<open>
  The text a timestamp has in the format the docstrings require, every field zero-padded,
  and the timestamps \<open>datetime\<close> can represent.
\<close>

definition digit :: "nat \<Rightarrow> char" where
  "digit k = char_of (48 + k)"

definition pad2 :: "nat \<Rightarrow> string" where
  "pad2 n = [digit (n div 10), digit (n mod 10)]"

definition pad4 :: "nat \<Rightarrow> string" where
  "pad4 n = [digit (n div 1000), digit (n div 100 mod 10), digit (n div 10 mod 10), digit (n mod 10)]"

definition format_dmy :: "datetime \<Rightarrow> string" where
  "format_dmy dt = pad2 (dt_day dt) @ ''/'' @ pad2 (dt_month dt) @ ''/'' @ pad4 (dt_year dt) @ '' ''
     @ pad2 (dt_hour dt) @ '':'' @ pad2 (dt_minute dt) @ '':'' @ pad2 (dt_second dt)"

definition valid_datetime :: "datetime \<Rightarrow> bool" where
  "valid_datetime dt =
     (1 \<le> dt_year dt \<and> dt_year dt \<le> 9999 \<and> 1 \<le> dt_month dt \<and> dt_month dt \<le> 12
      \<and> 1 \<le> dt_day dt \<and> dt_day dt \<le> days_in_month (dt_year dt) (dt_month dt)
      \<and> dt_hour dt \<le> 23 \<and> dt_minute dt \<le> 59 \<and> dt_second dt \<le> 59)"

text \<open>
  The fields a text of the documented shape can carry: each is in the range its regular
  expression admits (\<open>%S\<close> admits 60 and 61), whatever the calendar says.
\<close>

definition fields_ok :: "datetime \<Rightarrow> bool" where
  "fields_ok dt =
     (1 \<le> dt_day dt \<and> dt_day dt \<le> 31 \<and> 1 \<le> dt_month dt \<and> dt_month dt \<le> 12
      \<and> dt_year dt \<le> 9999 \<and> dt_hour dt \<le> 23 \<and> dt_minute dt \<le> 59 \<and> dt_second dt \<le> 61)"

text \<open>The compiled format and the groups it captures from a formatted timestamp.\<close>

definition fmt_tokens :: "token list" where
  "fmt_tokens = [Grp CHR ''d'' dir_d, Lit CHR ''/'', Grp CHR ''m'' dir_m, Lit CHR ''/'', Grp CHR ''Y'' dir_Y,
     Ws, Grp CHR ''H'' dir_H, Lit CHR '':'', Grp CHR ''M'' dir_M, Lit CHR '':'', Grp CHR ''S'' dir_S]"

definition dt_groups :: "datetime \<Rightarrow> (char \<times> string) list" where
  "dt_groups dt = [(CHR ''d'', pad2 (dt_day dt)), (CHR ''m'', pad2 (dt_month dt)), (CHR ''Y'', pad4 (dt_year dt)),
     (CHR ''H'', pad2 (dt_hour dt)), (CHR ''M'', pad2 (dt_minute dt)), (CHR ''S'', pad2 (dt_second dt))]"

section \<open>Lemmas\<close>

lemma compile_dmy: "compile_format ''%d/%m/%Y %H:%M:%S'' = Some fmt_tokens"
  by (simp add: fmt_tokens_def directive_def is_space_def)

lemma of_char_digit [simp]: "k < 10 \<Longrightarrow> of_char (digit k) = (48 + k :: nat)"
  by (simp add: digit_def of_char_of)

lemma digit_eq_iff: "k < 10 \<Longrightarrow> (digit k = c) = (48 + k = (of_char c :: nat))"
  by (metis of_char_digit of_char_eq_iff)

lemma digit_classes [simp]:
  assumes "k < 10"
  shows "chr_in lo hi (digit k) = (of_char lo \<le> 48 + k \<and> 48 + k \<le> (of_char hi :: nat))"
    and "lit c (digit k) = (48 + k = (of_char c :: nat))"
    and "is_digit (digit k)"
    and "\<not> is_space (digit k)"
  using assms by (simp_all add: chr_in_def lit_def digit_eq_iff is_digit_def is_space_def)

lemma alt_d:
  assumes "1 \<le> n" "n \<le> 31"
  shows "\<exists>more. alt_matches dir_d (pad2 n @ s) = (pad2 n, s) # more"
proof -
  have "n div 10 = 0 \<or> n div 10 = 1 \<or> n div 10 = 2 \<or> n div 10 = 3" using assms(2) by presburger
  moreover have "n div 10 = 0 \<Longrightarrow> 1 \<le> n mod 10" "n div 10 = 3 \<Longrightarrow> n mod 10 \<le> 1" using assms by presburger+
  ultimately show ?thesis
    by (auto simp: alt_matches_def dir_d_def pad2_def map_filter_def)
qed

lemma alt_m:
  assumes "1 \<le> n" "n \<le> 12"
  shows "\<exists>more. alt_matches dir_m (pad2 n @ s) = (pad2 n, s) # more"
proof -
  have "n div 10 = 0 \<and> 1 \<le> n mod 10 \<or> n div 10 = 1 \<and> n mod 10 \<le> 2" using assms by presburger
  then show ?thesis by (auto simp: alt_matches_def dir_m_def pad2_def map_filter_def)
qed

lemma alt_H:
  assumes "n \<le> 23"
  shows "\<exists>more. alt_matches dir_H (pad2 n @ s) = (pad2 n, s) # more"
proof -
  have "n div 10 \<le> 1 \<or> n div 10 = 2 \<and> n mod 10 \<le> 3" using assms by presburger
  then show ?thesis by (auto simp: alt_matches_def dir_H_def pad2_def map_filter_def)
qed

lemma alt_M:
  assumes "n \<le> 59"
  shows "\<exists>more. alt_matches dir_M (pad2 n @ s) = (pad2 n, s) # more"
proof -
  have "n div 10 \<le> 5" using assms by presburger
  then show ?thesis by (auto simp: alt_matches_def dir_M_def pad2_def map_filter_def)
qed

lemma alt_S:
  assumes "n \<le> 61"
  shows "\<exists>more. alt_matches dir_S (pad2 n @ s) = (pad2 n, s) # more"
proof -
  have "n div 10 \<le> 5 \<or> n div 10 = 6 \<and> n mod 10 \<le> 1" using assms by presburger
  then show ?thesis by (auto simp: alt_matches_def dir_S_def pad2_def map_filter_def)
qed

lemma alt_Y: "n \<le> 9999 \<Longrightarrow> alt_matches dir_Y (pad4 n @ s) = [(pad4 n, s)]"
  by (simp add: alt_matches_def dir_Y_def pad4_def map_filter_def)

lemma re_match_Grp_hd:
  assumes "\<exists>more. alt_matches alts (t @ s) = (t, s) # more"
    and "\<exists>more. re_match ts s = (gs, r) # more"
  shows "\<exists>more. re_match (Grp k alts # ts) (t @ s) = ((k, t) # gs, r) # more"
  using assms by auto

lemma re_match_Grp_last:
  assumes "\<exists>more. alt_matches alts (t @ []) = (t, []) # more"
  shows "\<exists>more. re_match [Grp k alts] t = ([(k, t)], []) # more"
  using assms by auto

lemma re_match_Lit_hd:
  "\<exists>more. re_match ts s = x # more \<Longrightarrow> \<exists>more. re_match (Lit c # ts) (c # s) = x # more"
  by simp

lemma re_match_Ws_hd:
  assumes "n div 10 < 10" and "\<exists>more. re_match ts (pad2 n @ s) = x # more"
  shows "\<exists>more. re_match (Ws # ts) (CHR '' '' # pad2 n @ s) = x # more"
  using assms by (simp add: pad2_def is_space_def)

lemma re_match_format:
  assumes "fields_ok dt"
  shows "\<exists>more. re_match fmt_tokens (format_dmy dt) = (dt_groups dt, []) # more"
proof -
  have h: "dt_hour dt div 10 < 10" using assms unfolding fields_ok_def by presburger
  show ?thesis using assms
    unfolding fmt_tokens_def format_dmy_def dt_groups_def fields_ok_def append_Cons append_Nil
    by (elim conjE, intro re_match_Grp_hd re_match_Grp_last re_match_Lit_hd re_match_Ws_hd [OF h]
        alt_d alt_m alt_H alt_M alt_S) (simp_all add: alt_Y)
qed

lemma py_int_pad2 [simp]:
  assumes "n < 100"
  shows "py_int (pad2 n) = n"
proof -
  have "n div 10 < 10" using assms by simp
  then show ?thesis by (simp add: py_int_def pad2_def)
qed

lemma py_int_pad4 [simp]:
  assumes "n \<le> 9999"
  shows "py_int (pad4 n) = n"
proof -
  have "n div 1000 < 10" using assms by simp
  moreover have "1000 * (n div 1000) + 100 * (n div 100 mod 10) + 10 * (n div 10 mod 10) + n mod 10 = n"
  proof -
    have e1: "10 * (n div 10) + n mod 10 = n" by simp
    have e2: "10 * (n div 100) + n div 10 mod 10 = n div 10"
      using div_mult_mod_eq [of "n div 10" 10] by (simp add: div_mult2_eq [symmetric])
    have e3: "10 * (n div 1000) + n div 100 mod 10 = n div 100"
      using div_mult_mod_eq [of "n div 100" 10] by (simp add: div_mult2_eq [symmetric])
    from e1 e2 e3 show ?thesis by linarith
  qed
  ultimately show ?thesis by (simp add: py_int_def pad4_def)
qed

lemma mydateparser_format:
  "fields_ok dt \<Longrightarrow> mydateparser (format_dmy dt) = build_datetime (dt_groups dt)"
  using re_match_format [of dt] unfolding mydateparser_def strptime_def compile_dmy
  by auto

lemma build_dt_groups:
  assumes "fields_ok dt"
  shows "build_datetime (dt_groups dt)
     = (if dt_year dt < 1 then Inl YearOutOfRange
        else if days_in_month (dt_year dt) (dt_month dt) < dt_day dt then Inl DayOutOfRange
        else if 59 < dt_second dt then Inl SecondOutOfRange
        else Inr dt)"
  using assms by (simp add: build_datetime_def dt_groups_def fields_ok_def Let_def)

lemma valid_fields_ok: "valid_datetime dt \<Longrightarrow> fields_ok dt"
  by (auto simp: valid_datetime_def fields_ok_def days_in_month_def split: if_splits)

lemma build_datetime_valid:
  "build_datetime gs = Inr dt \<Longrightarrow> valid_datetime dt"
  by (auto simp: build_datetime_def Let_def valid_datetime_def split: if_splits)

lemma mydateparser_leap_second:
  assumes "fields_ok dt" and "valid_datetime (dt\<lparr>dt_second := 0\<rparr>)" and "59 < dt_second dt"
  shows "mydateparser (format_dmy dt) = Inl SecondOutOfRange"
  using assms by (simp add: mydateparser_format build_dt_groups valid_datetime_def)

subsection \<open>Reading a file\<close>

lemma seq_sum_Inl_iff: "(\<exists>e. seq_sum xs = Inl e) \<longleftrightarrow> (\<exists>x\<in>set xs. isl x)"
  by (induction xs rule: seq_sum.induct) (auto split: sum.splits)

lemma seq_sum_Inr_iff: "seq_sum xs = Inr ys \<longleftrightarrow> (\<forall>x\<in>set xs. \<not> isl x) \<and> ys = map projr xs"
proof (induction xs arbitrary: ys rule: seq_sum.induct)
  case (3 a xs)
  then show ?case
    using seq_sum_Inl_iff [of xs] by (cases "seq_sum xs") auto
qed auto

lemma convert_columns_Inr:
  assumes "convert_columns cs rows tbl = Inr tbl'" and "length tbl = length rows"
  shows "length tbl' = length rows
    \<and> (\<forall>i<length rows. \<forall>c. (tbl' ! i) c
         = (if c \<in> set cs then Date (projr (mydateparser ((rows ! i) c))) else (tbl ! i) c))"
  using assms
proof (induction cs arbitrary: tbl)
  case (Cons c cs)
  obtain ds where ds: "seq_sum (map (\<lambda>r. mydateparser (r c)) rows) = Inr ds"
    using Cons.prems(1) by (auto split: sum.splits)
  let ?tbl = "map2 (\<lambda>t d. t(c := Date d)) tbl ds"
  have l: "length ds = length rows" using ds by (simp add: seq_sum_Inr_iff)
  have rest: "convert_columns cs rows ?tbl = Inr tbl'" using Cons.prems(1) ds by simp
  have "length ?tbl = length rows" using l Cons.prems(2) by simp
  note IH = Cons.IH [OF rest this]
  have "?tbl ! i = (tbl ! i)(c := Date (projr (mydateparser ((rows ! i) c))))" if "i < length rows" for i
    using that l Cons.prems(2) ds by (simp add: seq_sum_Inr_iff)
  with IH show ?case by auto
qed simp

lemma convert_columns_Inl:
  "(\<exists>e. convert_columns cs rows tbl = Inl e)
     \<longleftrightarrow> (\<exists>c\<in>set cs. \<exists>r\<in>set rows. isl (mydateparser (r c)))"
proof (induction cs arbitrary: tbl)
  case (Cons c cs)
  show ?case
  proof (cases "seq_sum (map (\<lambda>r. mydateparser (r c)) rows)")
    case (Inl e)
    then have "\<exists>r\<in>set rows. isl (mydateparser (r c))"
      using seq_sum_Inl_iff [of "map (\<lambda>r. mydateparser (r c)) rows"] by auto
    with Inl show ?thesis by auto
  next
    case (Inr ds)
    then have "\<forall>r\<in>set rows. \<not> isl (mydateparser (r c))" by (simp add: seq_sum_Inr_iff)
    with Inr Cons.IH show ?thesis by auto
  qed
qed simp

lemma open_csv_parses:
  assumes "open_csv header rows list_of_date_columns = Inr tbl"
  shows "length tbl = length rows
    \<and> (\<forall>i<length rows. \<forall>c. (tbl ! i) c
         = (if c \<in> set list_of_date_columns then Date (projr (mydateparser ((rows ! i) c)))
            else Raw ((rows ! i) c)))"
  using assms convert_columns_Inr [of list_of_date_columns rows "map (\<lambda>r c. Raw (r c)) rows" tbl]
  by (auto simp: open_csv_def split: option.splits)

lemmas strptime_eval = mydateparser_def strptime_def directive_def dir_d_def dir_m_def dir_Y_def
  dir_H_def dir_M_def dir_S_def alt_matches_def map_filter_def lit_def chr_in_def is_digit_def
  is_space_def build_datetime_def py_int_def days_in_month_def is_leap_def

section \<open>Properties\<close>

text \<open>
  C33 (roundtrip). Every timestamp \<open>datetime\<close> can represent, written in the documented
  format \<open>%d/%m/%Y %H:%M:%S\<close>, is read back by \<open>mydateparser\<close> as itself.
\<close>

theorem mydateparser_roundtrip:
  "valid_datetime dt \<Longrightarrow> mydateparser (format_dmy dt) = Inr dt"
  by (simp add: mydateparser_format valid_fields_ok build_dt_groups)
    (simp add: valid_datetime_def)

theorem mydateparser_roundtrip_witness:
  "valid_datetime \<lparr>dt_year = 2019, dt_month = 3, dt_day = 5, dt_hour = 10, dt_minute = 7, dt_second = 9\<rparr>
   \<and> mydateparser ''05/03/2019 10:07:09''
     = Inr \<lparr>dt_year = 2019, dt_month = 3, dt_day = 5, dt_hour = 10, dt_minute = 7, dt_second = 9\<rparr>"
proof -
  let ?dt = "\<lparr>dt_year = 2019, dt_month = 3, dt_day = 5, dt_hour = 10, dt_minute = 7, dt_second = 9\<rparr>"
  have v: "valid_datetime ?dt" by (simp add: valid_datetime_def days_in_month_def)
  have "format_dmy ?dt = ''05/03/2019 10:07:09''"
    by (simp add: format_dmy_def pad2_def pad4_def digit_def char_of_def bit_0)
  with mydateparser_roundtrip [OF v] v show ?thesis by simp
qed

text \<open>
  C34 (error). A text of the documented shape whose day does not exist in its month (31 April,
  29 February of a common year) is rejected with the day error, although every field is in
  the range its regular expression admits.
\<close>

theorem mydateparser_rejects_day:
  assumes "fields_ok dt" and "1 \<le> dt_year dt"
    and "days_in_month (dt_year dt) (dt_month dt) < dt_day dt"
  shows "mydateparser (format_dmy dt) = Inl DayOutOfRange"
  using assms by (simp add: mydateparser_format build_dt_groups)

theorem mydateparser_rejects_day_witness:
  "fields_ok \<lparr>dt_year = 2019, dt_month = 2, dt_day = 29, dt_hour = 0, dt_minute = 0, dt_second = 0\<rparr>
   \<and> days_in_month 2019 2 < 29
   \<and> mydateparser (format_dmy \<lparr>dt_year = 2019, dt_month = 2, dt_day = 29, dt_hour = 0, dt_minute = 0, dt_second = 0\<rparr>)
     = Inl DayOutOfRange"
  using mydateparser_rejects_day [of "\<lparr>dt_year = 2019, dt_month = 2, dt_day = 29, dt_hour = 0, dt_minute = 0, dt_second = 0\<rparr>"]
  by (simp add: fields_ok_def days_in_month_def is_leap_def)

text \<open>
  Whatever the text, a timestamp \<open>mydateparser\<close> returns is a valid
  calendar date and time: year 1--9999, month 1--12, a day of that month, hour below 24,
  minute and second below 60.
\<close>

theorem mydateparser_valid:
  "mydateparser s = Inr dt \<Longrightarrow> valid_datetime dt"
  by (auto simp: mydateparser_def strptime_def build_datetime_valid
      split: option.splits list.splits if_splits)

theorem mydateparser_valid_witness:
  "mydateparser '' 5/3/2019  1:07:09''
     = Inr \<lparr>dt_year = 2019, dt_month = 3, dt_day = 5, dt_hour = 1, dt_minute = 7, dt_second = 9\<rparr>
   \<and> valid_datetime \<lparr>dt_year = 2019, dt_month = 3, dt_day = 5, dt_hour = 1, dt_minute = 7, dt_second = 9\<rparr>"
proof -
  have p: "mydateparser '' 5/3/2019  1:07:09''
     = Inr \<lparr>dt_year = 2019, dt_month = 3, dt_day = 5, dt_hour = 1, dt_minute = 7, dt_second = 9\<rparr>"
    by (simp add: strptime_eval)
  with mydateparser_valid [OF p] show ?thesis by simp
qed

text \<open>
  C35 (error). \<open>open_csv\<close> fails exactly when a requested date column is missing from
  the header or some cell of a requested column is not a timestamp the parser accepts.
\<close>

theorem open_csv_fails_iff:
  "(\<exists>e. open_csv header rows list_of_date_columns = Inl e)
     \<longleftrightarrow> (\<exists>c\<in>set list_of_date_columns.
            c \<notin> set header \<or> (\<exists>r\<in>set rows. isl (mydateparser (r c))))"
  by (auto simp: open_csv_def convert_columns_Inl find_None_iff find_Some_iff
      split: option.splits dest: nth_mem)

theorem open_csv_fails_iff_witness:
  "(\<exists>e. open_csv [''timestamp''] [\<lambda>c. ''31/04/2019 10:00:00''] [''timestamp''] = Inl e)
   \<and> isl (mydateparser ''31/04/2019 10:00:00'')"
proof -
  have d: "isl (mydateparser ''31/04/2019 10:00:00'')" by (simp add: strptime_eval)
  then have "\<exists>e. open_csv [''timestamp''] [\<lambda>c. ''31/04/2019 10:00:00''] [''timestamp''] = Inl e"
    using open_csv_fails_iff [of "[''timestamp'']" "[\<lambda>c. ''31/04/2019 10:00:00'']" "[''timestamp'']"]
    by simp
  with d show ?thesis by simp
qed

end
