(* ===== verification/Spec2Isabelle.thy ===== *)
theory Spec2Isabelle
  imports Block_Summarizer Preprocessing Classroom_Objects Entropy_Grid Metrics Fixed_Points Timedelta_Str Diarizer Server_Util Resampling Entropy_Value Metrics_Tables Date_Parser
begin

text \<open>
  \<^bold>\<open>A verification library for moodoo's stops-and-transitions engine and its collaborators\<close>
  (\<open>src/moodoo-master/scripts/\<close>).

  \<^bold>\<open>The program.\<close> \<open>_stopsAndTransitions.stops_transitions\<close> turns a preprocessed
  positioning frame (one row per tracker, session and second) into stops and transitions
  in three pandas passes, each looping over \<open>tracker.unique()\<close> and
  \<open>session.unique()\<close>: \<open>generate_positioning_clusters\<close> (ClusterBuilder) numbers
  clusters of rows that stay within \<open>distance\<close> of a base point; \<open>tag_clusters\<close>
  labels each cluster stop or transition by its largest time delta (ClusterClassifier) and
  numbers runs of one label as blocks with per-row deltas (BlockMerger);
  \<open>get_stops_and_transitions\<close> (BlockSummarizer) emits one record per stop block and
  every row of a transition block. Upstream, \<open>_preprocessing\<close> writes the phase and
  quantile columns; downstream, \<open>_classroomObjects\<close> finds the fixed point closest to
  each stop and computes Gini coefficients of visit counts, \<open>_entropy\<close> builds
  occupancy grids per group of samples, and \<open>_metricsMain.get_metrics\<close> aggregates the
  stops and transitions into per (session, tracker, phase) metrics: stop durations, the
  distance walked (a loop over the frame sorted by session, tracker and block), the
  transition counts, and an optional weighting by the shortest duration of each phase.
  Before all of this, \<open>_preprocessing.preprocessing\<close> resamples each tracker's
  samples onto a one-second grid and interpolates the gaps. The CSV readers of
  \<open>_util.py\<close> parse timestamps with \<open>strptime\<close>. Beside the engine, the
  repository holds a diarization batch runner (\<open>whisper-diarization-main\<close>) and a
  web-server error helper (\<open>py-server-main\<close>).

  \<^bold>\<open>Layout.\<close>
  \<^item> \<open>Prelude\<close>: the input row \<open>sample\<close>, \<open>euclid\<close>, the pandas idioms \<open>unique\<close>,
    \<open>partition_by\<close>, \<open>tracker_session_parts\<close> (the nested tracker/session loops),
    \<open>runs_by\<close>, \<open>mean\<close>, \<open>std_sample\<close>, and the shared lemmas on them (the loops
    permute the frame; a filter by one tracker and session picks one sub-frame).
  \<^item> \<open>Cluster_Builder\<close>: the loop state \<open>cb_state\<close>, \<open>cb_first\<close> and \<open>cb_step\<close>
    (the two branches of the row loop), \<open>cb_run\<close>, \<open>cluster_partition\<close>,
    \<open>cluster_partitions\<close>, \<open>generate_positioning_clusters\<close>; the contract
    \<open>spec_clusters\<close> and its declarative form \<open>valid_segmentation\<close>; the
    function's first loop (lines 113--141), whose frame \<open>df_dist\<close> is never read:
    the row \<open>drow\<close>, \<open>shift_distances\<close> for one sub-frame and
    \<open>positioning_distances\<close>.
  \<^item> \<open>Cluster_Classifier\<close>: \<open>hms_seconds\<close> (the \<open>str(timedelta)\<close> regex),
    \<open>group_max\<close>, \<open>tag_type\<close>, \<open>tag_types\<close>; the contract \<open>spec_labelled\<close>.
  \<^item> \<open>Timedelta_Str\<close>: the \<open>time_diff2\<close> column at the level of strings:
    pandas' printing of a timedelta (\<open>td_str\<close>), the regex window \<open>extract_hms\<close>,
    \<open>parse_hms\<close> (\<open>pd.to_timedelta\<close>) and their composition \<open>time_diff2_of\<close>,
    proved equal to \<open>hms_seconds\<close>.
  \<^item> \<open>Block_Merger\<close>: \<open>assign_blocks\<close> (shift/cumsum), \<open>tag_blocks\<close>,
    \<open>add_delta\<close>, \<open>block_parts\<close>, \<open>tag_clusters\<close>.
  \<^item> \<open>Block_Summarizer\<close>: \<open>with_block_durations\<close>, \<open>stop_record\<close>,
    \<open>get_stops_and_transitions\<close> and the output row \<open>out_row\<close>.
  \<^item> \<open>Preprocessing\<close>: \<open>phase_of\<close>, \<open>add_phases\<close>, \<open>quantile_of\<close>,
    \<open>add_quantiles\<close> (exceptions as \<open>Inl\<close>), \<open>calculate_rotation\<close>.
  \<^item> \<open>Classroom_Objects\<close>: \<open>gini\<close>, \<open>calculate_gini_by_tracker\<close>,
    \<open>calculate_gini_trackers_together\<close>, \<open>closest_rows\<close>,
    \<open>get_closer_fixedpoint_stop\<close>.
  \<^item> \<open>Fixed_Points\<close>: \<open>generate_fixed_points_stats\<close> as \<open>fixed_point_summary\<close>
    (\<open>merge_rows\<close>, the lookup loop \<open>add_obj_types\<close>, \<open>fp_summary\<close>) and
    \<open>fixed_points_table\<close> (\<open>stat_grid\<close>, the update loop \<open>fill_stats\<close>), with the
    reference \<open>stat_lookup\<close>.
  \<^item> \<open>Entropy_Grid\<close>: \<open>py_index\<close> (Python list indexing), \<open>fill_grid\<close>,
    \<open>proportions\<close>, \<open>entropy_grids_phase\<close>, \<open>entropy_grids\<close>.
  \<^item> \<open>Entropy_Value\<close>: scipy's \<open>entropy\<close> (\<open>entr\<close>, \<open>sp_entropy\<close>: normalise,
    \<open>-p ln p\<close>, base 2) and \<open>get_entropy\<close> over the flattened grids.
  \<^item> \<open>Metrics\<close>: the columns of \<open>out_row\<close>, \<open>get_stop_metrics\<close>, the loop
    \<open>walk\<close> and \<open>distance_previous_point\<close> with the reference \<open>dist_shift\<close>,
    \<open>transition_blocks\<close>, \<open>get_transition_metrics\<close>, \<open>merge1\<close>,
    \<open>select_phase\<close>, \<open>weight_factor\<close>, \<open>weight_rows\<close> (\<open>IndexError\<close> as
    \<open>Inl\<close>), the column loop \<open>weight_cols_loop\<close> kept as a \<open>while_option\<close>,
    \<open>finish_output\<close>.
  \<^item> \<open>Metrics_Tables\<close>: the rest of \<open>get_metrics\<close>: the NaN-skipping
    aggregations \<open>nan_sum\<close>, \<open>nan_mean\<close>, \<open>nan_std\<close>, the student and zone tables
    (\<open>get_student_metrics\<close>, \<open>get_zone_totals\<close>, \<open>pivot_zones\<close>), the entropy and
    Gini tables, and the merges \<open>merge_all\<close>.
  \<^item> \<open>Resampling\<close>: \<open>sampling_and_interpolating\<close> as the groups
    \<open>session_tracker\<close>/\<open>session_df\<close>, the grid \<open>date_range\<close>, the left merge
    \<open>merge_left\<close> (rows \<open>merged\<close>), the column fill \<open>fill_column\<close>
    (\<open>interp_linear\<close>, \<open>ffill\<close>, \<open>bfill\<close>), the final fill \<open>finalize\<close> into
    rows \<open>rs_row\<close>, one group \<open>resample_group\<close>, and the driver
    \<open>preprocessing\<close> (phases, quantiles, the \<open>KeyError\<close> of \<open>add_rotation\<close>
    on a missing rotation column, resampling).
  \<^item> \<open>Diarizer\<close>: \<open>run_diarization\<close> (\<open>run_diarizer.py\<close>): \<open>splitext\<close>
    (ntpath, with \<open>rfind\<close> and the dot loop \<open>skip_dots\<close>), \<open>audio_files\<close>,
    \<open>diarize_command\<close>, and the loop \<open>diarize_loop\<close> with the outcome of each
    command as an input.
  \<^item> \<open>Server_Util\<close>: \<open>build_error_response\<close> with the two validators, modelled
    from its docstring as \<open>util.validation_util\<close> is not in the repository.
  \<^item> \<open>Date_Parser\<close>: the \<open>mydateparser\<close> lambda of \<open>_util.py\<close> with
    CPython's \<open>strptime\<close> for its format: the directive table of
    \<open>_strptime.TimeRE\<close> (\<open>dir_d\<close> .. \<open>dir_S\<close>), \<open>compile_format\<close>, the
    backtracking matcher \<open>re_match\<close> (all matches in the order the regular expression
    tries them; the first is taken), \<open>build_datetime\<close> with \<open>datetime\<close>'s range
    checks, errors as \<open>strptime_error\<close>; and the date conversion of
    \<open>open_csv\<close> / \<open>open_csv_gui\<close> over a file given as its header and rows. The
    printer \<open>format_dmy\<close> and \<open>valid_datetime\<close> state the documented format.
  \<^item> this theory: the driver \<open>stops_transitions\<close> and the properties that span passes.

  \<^bold>\<open>What is proved\<close> (claim ids in the text before each theorem). The builder
  refines the spec's greedy segmentation (C1), which is the
  unique valid segmentation (lemma \<open>spec_clusters_unique\<close>); blocks are exactly the runs of one
  label, numbered 1, 2, 3, ... (C2); the classifier refines the spec on a sorted partition
  spanning less than a day (C3); stop records carry their
  block's span (C4), one per stop block (C7),
  transitions are kept (C8) with their block's span
  (lemma \<open>transition_duration_is_span\<close>). Across passes: no sample is lost (C6), every block has one label (C5), and the spec's
  scenarios A and C evaluate as stated (lemma \<open>scenario_A_single_stop\<close>, lemma \<open>scenario_C_stop_then_transition\<close>;
  scenario B is the lemma \<open>scenario_B_cluster_split\<close>).
  The state machine and threshold rule of the builder (lemma \<open>cb_step_joins_iff\<close>,
  C9), the per-row deltas (C36) and block
  numbering (lemma \<open>assign_blocks_numbering\<close>) are proved as invariants. Divergences from the spec
  and code bugs are theorems: ids run on across partitions
  (C13), a non-positive distance is accepted
  (C37), labels leak across partitions
  (C10), deltas wrap at one day (C11) because the string
  pipeline of \<open>time_diff2\<close> is exactly the delta modulo one day (lemma \<open>time_diff2_is_hms_seconds\<close>),
  which is the identity below a day (C12),
  \<open>isin\<close> selects other stops' minima (C25), negative
  coordinates wrap in the grid (C28) or raise
  (C27). Collaborators: quantiles lie in their range after
  \<open>add_phases\<close> (lemma \<open>add_quantiles_after_add_phases\<close>), \<open>add_quantiles\<close> fails exactly on
  ambiguous or empty phases (C38), phases are assigned as documented
  (lemma \<open>add_phases_assigns\<close>); Gini values lie in [0, 1) (lemma \<open>calculate_gini_by_tracker_range\<close>);
  \<open>generate_fixed_points_stats\<close> never fails (lemma \<open>generate_fixed_points_stats_total\<close>), its
  update loop is a lookup in the visit summary (lemma \<open>fixed_points_table_is_lookup\<close>), and its
  table keeps every visit and counts unvisited points zero (C26);
  grid counts
  (lemma \<open>fill_grid_counts\<close>); the entropy column is the entropy of the raw counts
  (C29) and lies between 0 and \<open>log2\<close> of the number of cells
  (lemma \<open>get_entropy_bounds\<close>); a group with no sample inside its grids has entropy 0 in the
  metrics, as pandas sums the NaN away (C30). The merged metric
  table has exactly the keys present in every table (C21). Metrics: the
  walked-distance loop equals the shifted reference column (lemma \<open>walk_equals_shift\<close>), so row i gets 0 at a new session or tracker and otherwise its distance in metres to row i - 1 (C19) and never
  measures across trackers or sessions (lemma \<open>distance_previous_point_per_tracker\<close>); transition
  totals are sums of those distances (lemma \<open>get_transition_metrics_totals\<close>); stop aggregates are
  consistent (lemma \<open>get_stop_metrics_bounds\<close>) and are the aggregates of exactly the stop rows of each key, durations in minutes (C20); the first merge keeps exactly the keys with stops
  and transitions (lemma \<open>merge1_keys\<close>); the weighting fails exactly on a missing phase row
  (C22) and otherwise scales by a factor in (0, 1] (lemma \<open>weight_factor_bounds\<close>); the column loop of the weighting
  stops and computes the weighted row (C23). Resampling: it leaves
  no NaN and works group by group (C16); a time-ordered group keeps all
  its rows (C17), gets one row per second when its timestamps are
  distinct (C18), and its added rows keep its session and tracker
  (lemma \<open>resample_group_keys\<close>); interpolated coordinates lie between existing ones
  (lemma \<open>interp_linear_between\<close>); the driver fails exactly when \<open>add_quantiles\<close> fails or the rotation column
  is missing (C24). Diarization: a failing run does not stop the batch
  (C31), and the extension filter selects exactly the named files
  with a stem that is not all dots (C32). The builder's discarded first
  loop: its rows are well formed, each paired with the previous row of its tracker and
  session (C14), and its distances are the clustering loop's
  \<open>intra_dist\<close> (C15). The timestamp parser of \<open>_util.py\<close>:
  it reads back every representable timestamp written in the documented format
  (C33), rejects days beyond the length of their month
  (C34), returns only valid dates and times (lemma \<open>mydateparser_valid\<close>), and
  a CSV read fails exactly on a missing date column or one unparsable cell
  (C35).

  \<^bold>\<open>Modelling choices.\<close> Python floats are \<open>real\<close> (no rounding, no NaN or
  infinities: the NaN row the distance test drops and the infinite quotients of a
  zero-length phase are described, the latter as an \<open>Inl\<close> error); timestamps and
  durations are \<open>int\<close> seconds; frames are lists of records in row order, pandas
  groupings sort their keys and \<open>sort_values\<close> is a stable sort; a missing cell (NaT) is
  \<open>None\<close>. The thresholds and sizes read from \<open>info.ini\<close> (\<open>distance\<close>, \<open>stop\<close>,
  \<open>numberOfQuantiles\<close>, \<open>north\<close>, the grid dimensions) are parameters. Every function
  is total: loops are structural recursion, \<open>spec_clusters\<close> terminates by the length of
  the remaining rows, \<open>skip_dots\<close> by the distance between its indices, and the column
  loop of the weighting is a \<open>while_option\<close> proved to return; no fuel is needed. In
  \<open>Resampling\<close> a NaN that would survive the fills makes the result \<open>None\<close>, and
  this is proved never to happen. In \<open>Metrics\<close> the aggregates pandas may leave
  as NaN (the standard deviation of one value, a product with an infinite factor) are
  \<open>real option\<close> with \<open>None\<close> for NaN or an infinity, and the weighted columns are
  read by position, as the loop reads them.

  \<^bold>\<open>Not modelled.\<close> The \<open>rotation\<close> column is not
  carried through the resampling; the positional column
  layout of \<open>get_metrics\<close>' merged table, which the weighting loop reads (the loop
  is modelled over the abstract \<open>metric_row\<close>), the Voronoi plots of \<open>plot_charts_per_tracker\<close>, reading a CSV file and the Qt
  dialog \<open>gui_open_file\<close> of \<open>_util.py\<close> (I/O only; the date conversion is modelled), the logging call of the error helper, and the PowerShell
  process the diarization runner starts (its outcome is an input).
\<close>

section \<open>The pipeline\<close>

text \<open>
  \<open>stops_transitions\<close> (lines 35--84): the three passes in sequence. The thresholds
  \<open>distance\<close> and \<open>stop\<close> are read from \<open>info.ini\<close> at import time in the source
  and are parameters here.
\<close>

definition stops_transitions :: "real \<Rightarrow> seconds \<Rightarrow> sample list \<Rightarrow> out_row list" where
  "stops_transitions distance stop df_preprocessed =
     get_stops_and_transitions (tag_clusters stop (generate_positioning_clusters distance df_preprocessed))"

section \<open>Lemmas across the passes\<close>

lemmas pipeline_eval = stops_transitions_def generate_positioning_clusters_def tracker_session_parts_def
  partition_by_def pipeline_simps cb_first_def cb_step_def mk_crow_def tag_clusters_def tag_types_def
  tag_row_def group_max_def hms_seconds_def tag_type_def tag_blocks_def block_parts_def Let_def
  get_stops_and_transitions_def with_block_durations_def block_span_def block_key_def stop_record_def
  mean_def std_sample_def sample.defs crow.defs trow.defs brow.defs drow.defs stop_rec.defs

lemma sample_truncate_crow [simp]: "sample.truncate (crow.truncate r) = sample.truncate r"
  by (simp add: crow.defs sample.defs)

lemma brow_truncate_fields [simp]:
  "tracker (brow.truncate r) = tracker r" "session (brow.truncate r) = session r"
  "block (brow.truncate r) = block r" "rtype (brow.truncate r) = rtype r"
  by (simp_all add: brow.defs)

lemma mset_pipeline_samples:
  "mset (map sample.truncate (tag_clusters T (generate_positioning_clusters D df))) = mset df"
proof -
  let ?G = "generate_positioning_clusters D df"
  have "mset (map sample.truncate (tag_clusters T ?G))
      = image_mset sample.truncate (mset (map crow.truncate (tag_clusters T ?G)))"
    by (simp add: image_mset.compositionality comp_def)
  also have "\<dots> = image_mset sample.truncate (mset (map crow.truncate ?G))"
    by (simp only: mset_tag_clusters)
  also have "\<dots> = mset (map sample.truncate ?G)"
    by (simp add: image_mset.compositionality comp_def)
  also have "\<dots> = mset df"
    by (simp add: generate_positioning_clusters_def mset_tracker_session_parts)
  finally show ?thesis .
qed

lemma pipeline_partitions:
  "set (map (\<lambda>r. (tracker r, session r)) (tag_clusters T (generate_positioning_clusters D df)))
     = set (map (\<lambda>r. (tracker r, session r)) df)"
proof -
  let ?TC = "tag_clusters T (generate_positioning_clusters D df)"
  have E: "sample.truncate ` set ?TC = set df"
    using arg_cong [OF mset_pipeline_samples [of T D df], of set_mset] by simp
  have "(\<lambda>r. (tracker r, session r)) ` set ?TC
      = (\<lambda>r. (tracker r, session r)) ` sample.truncate ` set ?TC"
    by (simp add: image_image sample.defs)
  then show ?thesis using E by simp
qed

section \<open>Properties\<close>

text \<open>
  C6 (coverage through the pipeline). The rows \<open>tag_clusters\<close> hands to
  \<open>get_stops_and_transitions\<close> are the input samples, each exactly once: neither the
  clustering nor the labelling and block passes lose or duplicate a sample.
\<close>

theorem pipeline_covers:
  "mset (map sample.truncate (tag_clusters T (generate_positioning_clusters D df))) = mset df"
  by (rule mset_pipeline_samples)

text \<open>
  C5 (one label per block). In the frame \<open>tag_clusters\<close> returns, two rows with the same
  tracker, session and block carry the same label: a block is a run of one label, as
  \<open>get_stops_and_transitions\<close> relies on when it keys stops by block.
\<close>

theorem blocks_single_label:
  assumes "r \<in> set (tag_clusters T (generate_positioning_clusters D df))"
    and "r' \<in> set (tag_clusters T (generate_positioning_clusters D df))"
    and "block_key r = block_key r'"
  shows "rtype r = rtype r'"
proof -
  let ?G = "generate_positioning_clusters D df"
  have set_tb: "set (map brow.truncate (tag_clusters T ?G)) = set (tag_blocks (tag_types T ?G))"
    using arg_cong [OF mset_tag_clusters_blocks [of T ?G], of set_mset] by simp
  have "brow.truncate r \<in> set (tag_blocks (tag_types T ?G))"
    and "brow.truncate r' \<in> set (tag_blocks (tag_types T ?G))"
    using assms(1,2) by (simp_all only: set_tb [symmetric] set_map imageI)
  from tag_blocks_uniform [OF this] assms(3) show ?thesis
    by (simp add: block_key_def)
qed

text \<open>
  A (tracker, session) with no input sample has no
  row in the output: no stop and no transition is made up for it (spec scenario D).
\<close>

theorem no_rows_for_absent_partition:
  assumes "(t, s) \<notin> set (map (\<lambda>r. (tracker r, session r)) df)"
  shows "filter (\<lambda>w. fst (out_key w) = t \<and> fst (snd (out_key w)) = s) (stops_transitions D T df) = []"
proof -
  have "(fst (out_key w), fst (snd (out_key w))) \<noteq> (t, s)"
    if "w \<in> set (stops_transitions D T df)" for w
    using get_stops_and_transitions_partition [OF that [unfolded stops_transitions_def]] assms
    by (auto simp only: pipeline_partitions)
  then show ?thesis by (auto simp: filter_empty_conv)
qed

text \<open>
  Five samples at one point, one second apart, with
  \<open>distance = 1000\<close> and \<open>stop = 3\<close>: one stop block, duration 4 s, centroid at the
  point, standard deviation (0, 0), phase and quantile those of the samples.
\<close>

theorem scenario_A_single_stop:
  "stops_transitions 1000 3
     [sample.make 1 1 0 0 0 1 1, sample.make 1 1 1 0 0 1 1, sample.make 1 1 2 0 0 1 1,
      sample.make 1 1 3 0 0 1 1, sample.make 1 1 4 0 0 1 1]
   = [StopRow (stop_rec.make 1 1 1 1 1 4 0 4 0 0 0 0)]"
  by (simp add: pipeline_eval)

text \<open>
  Five samples one second apart with a 2000 mm jump
  after the third, \<open>distance = 1000\<close>, \<open>stop = 3\<close>: two clusters of spans 2 s and 1 s,
  both below the threshold, so both are transitions and block merging makes them one
  transition block of all five samples, each kept with the block's span of 4 s.
\<close>

theorem scenario_B_cluster_split:
  "map (\<lambda>w. (out_type w, out_key w, out_max_duration_sec w)) (stops_transitions 1000 3
     [sample.make 1 1 0 0 0 1 1, sample.make 1 1 1 0 0 1 1, sample.make 1 1 2 0 0 1 1,
      sample.make 1 1 3 2000 0 1 1, sample.make 1 1 4 2000 0 1 1])
   = [(Transition, (1, 1, 1, 0), 4), (Transition, (1, 1, 1, 1), 4), (Transition, (1, 1, 1, 2), 4),
      (Transition, (1, 1, 1, 3), 4), (Transition, (1, 1, 1, 4), 4)]"
  by (simp add: pipeline_eval)

text \<open>
  A cluster spanning 12 s followed by a
  cluster 2000 mm away spanning 2 s, with \<open>stop = 5\<close>: a stop block of 12 s, then a
  transition block whose two samples are kept; the block boundary is the label change.
\<close>

theorem scenario_C_stop_then_transition:
  "map (\<lambda>w. (out_type w, out_key w, out_max_duration_sec w)) (stops_transitions 1000 5
     [sample.make 1 1 0 0 0 1 1, sample.make 1 1 6 0 0 1 1, sample.make 1 1 12 0 0 1 1,
      sample.make 1 1 13 2000 0 1 1, sample.make 1 1 15 2000 0 1 1])
   = [(Stop, (1, 1, 1, 0), 12), (Transition, (1, 1, 2, 13), 2), (Transition, (1, 1, 2, 15), 2)]"
  by (simp add: pipeline_eval)

theorem blocks_single_label_witness:
  "tag_clusters 5 (generate_positioning_clusters 1000 [sample.make 1 1 0 0 0 1 1, sample.make 1 1 6 0 0 1 1, sample.make 1 1 12 0 0 1 1,
      sample.make 1 1 13 2000 0 1 1, sample.make 1 1 15 2000 0 1 1]) ! 3
     \<in> set (tag_clusters 5 (generate_positioning_clusters 1000 [sample.make 1 1 0 0 0 1 1, sample.make 1 1 6 0 0 1 1, sample.make 1 1 12 0 0 1 1,
      sample.make 1 1 13 2000 0 1 1, sample.make 1 1 15 2000 0 1 1]))
   \<and> tag_clusters 5 (generate_positioning_clusters 1000 [sample.make 1 1 0 0 0 1 1, sample.make 1 1 6 0 0 1 1, sample.make 1 1 12 0 0 1 1,
      sample.make 1 1 13 2000 0 1 1, sample.make 1 1 15 2000 0 1 1]) ! 4
     \<in> set (tag_clusters 5 (generate_positioning_clusters 1000 [sample.make 1 1 0 0 0 1 1, sample.make 1 1 6 0 0 1 1, sample.make 1 1 12 0 0 1 1,
      sample.make 1 1 13 2000 0 1 1, sample.make 1 1 15 2000 0 1 1]))
   \<and> block_key (tag_clusters 5 (generate_positioning_clusters 1000 [sample.make 1 1 0 0 0 1 1, sample.make 1 1 6 0 0 1 1, sample.make 1 1 12 0 0 1 1,
      sample.make 1 1 13 2000 0 1 1, sample.make 1 1 15 2000 0 1 1]) ! 3)
     = block_key (tag_clusters 5 (generate_positioning_clusters 1000 [sample.make 1 1 0 0 0 1 1, sample.make 1 1 6 0 0 1 1, sample.make 1 1 12 0 0 1 1,
      sample.make 1 1 13 2000 0 1 1, sample.make 1 1 15 2000 0 1 1]) ! 4)
   \<and> rtype (tag_clusters 5 (generate_positioning_clusters 1000 [sample.make 1 1 0 0 0 1 1, sample.make 1 1 6 0 0 1 1, sample.make 1 1 12 0 0 1 1,
      sample.make 1 1 13 2000 0 1 1, sample.make 1 1 15 2000 0 1 1]) ! 3) = Transition
   \<and> rtype (tag_clusters 5 (generate_positioning_clusters 1000 [sample.make 1 1 0 0 0 1 1, sample.make 1 1 6 0 0 1 1, sample.make 1 1 12 0 0 1 1,
      sample.make 1 1 13 2000 0 1 1, sample.make 1 1 15 2000 0 1 1]) ! 3)
     = rtype (tag_clusters 5 (generate_positioning_clusters 1000 [sample.make 1 1 0 0 0 1 1, sample.make 1 1 6 0 0 1 1, sample.make 1 1 12 0 0 1 1,
      sample.make 1 1 13 2000 0 1 1, sample.make 1 1 15 2000 0 1 1]) ! 4)"
  using blocks_single_label [of "tag_clusters 5 (generate_positioning_clusters 1000 [sample.make 1 1 0 0 0 1 1, sample.make 1 1 6 0 0 1 1, sample.make 1 1 12 0 0 1 1,
      sample.make 1 1 13 2000 0 1 1, sample.make 1 1 15 2000 0 1 1]) ! 3" 5 1000 "[sample.make 1 1 0 0 0 1 1, sample.make 1 1 6 0 0 1 1, sample.make 1 1 12 0 0 1 1,
      sample.make 1 1 13 2000 0 1 1, sample.make 1 1 15 2000 0 1 1]"
      "tag_clusters 5 (generate_positioning_clusters 1000 [sample.make 1 1 0 0 0 1 1, sample.make 1 1 6 0 0 1 1, sample.make 1 1 12 0 0 1 1,
      sample.make 1 1 13 2000 0 1 1, sample.make 1 1 15 2000 0 1 1]) ! 4"]
  by (simp add: pipeline_eval)

theorem no_rows_for_absent_partition_witness:
  "(2, 1) \<notin> set (map (\<lambda>r. (tracker r, session r)) [sample.make 1 1 0 0 0 1 1, sample.make 1 1 1 0 0 1 1, sample.make 1 1 2 0 0 1 1,
      sample.make 1 1 3 0 0 1 1, sample.make 1 1 4 0 0 1 1])
   \<and> filter (\<lambda>w. fst (out_key w) = 2 \<and> fst (snd (out_key w)) = 1) (stops_transitions 1000 3 [sample.make 1 1 0 0 0 1 1, sample.make 1 1 1 0 0 1 1, sample.make 1 1 2 0 0 1 1,
      sample.make 1 1 3 0 0 1 1, sample.make 1 1 4 0 0 1 1]) = []"
  using no_rows_for_absent_partition [of 2 1 "[sample.make 1 1 0 0 0 1 1, sample.make 1 1 1 0 0 1 1, sample.make 1 1 2 0 0 1 1,
      sample.make 1 1 3 0 0 1 1, sample.make 1 1 4 0 0 1 1]" 1000 3]
  by (simp add: pipeline_eval)

end
